(* ===== verification/Prelude.thy ===== *)
theory Prelude
  imports Main "HOL-Library.AList" "HOL-Library.Char_ord"
begin

section \<open>Rust strings, bytes and hash maps\<close>

text \<open>
  This theory holds what every component of the model shares: the types that stand for
  Rust's \<^verbatim>\<open>String\<close>, \<^verbatim>\<open>Vec<u8>\<close>, \<^verbatim>\<open>HashMap\<close> and \<^verbatim>\<open>HashSet\<close>, the operations of the
  standard library the source calls on them, and the lemmas about those operations that
  the component theories use.

  A Rust \<^verbatim>\<open>str\<close> is a sequence of bytes that is valid UTF-8, and \<^verbatim>\<open>len\<close>, \<^verbatim>\<open>starts_with\<close>,
  \<^verbatim>\<open>contains\<close>, \<^verbatim>\<open>find\<close>, \<^verbatim>\<open>split\<close> and slicing work on those bytes. The model therefore
  represents a string by the list of its UTF-8 bytes (a HOL \<^typ>\<open>string\<close>, whose characters
  are the 256 byte values), so \<^const>\<open>length\<close> is \<^verbatim>\<open>str::len\<close>. The few operations that work
  on Unicode scalar values (\<^verbatim>\<open>chars\<close>, \<^verbatim>\<open>trim\<close>, \<^verbatim>\<open>char::is_control\<close>) go through \<open>chars\<close>,
  which cuts the bytes into the sequences that encode one scalar value each.
\<close>

named_theorems str_defs \<open>definitions of the string operations, for evaluation\<close>
named_theorems map_simps \<open>lookups after updates of the hash maps and sets\<close>

type_synonym bytes = string

subsection \<open>Byte classes\<close>

abbreviation ord :: "char \<Rightarrow> nat" where
  "ord c \<equiv> of_char c"

definition is_ascii_digit :: "char \<Rightarrow> bool" where
  [str_defs]: "is_ascii_digit c \<longleftrightarrow> 48 \<le> ord c \<and> ord c \<le> 57"

definition is_ascii_uppercase :: "char \<Rightarrow> bool" where
  [str_defs]: "is_ascii_uppercase c \<longleftrightarrow> 65 \<le> ord c \<and> ord c \<le> 90"

definition is_ascii_lowercase :: "char \<Rightarrow> bool" where
  [str_defs]: "is_ascii_lowercase c \<longleftrightarrow> 97 \<le> ord c \<and> ord c \<le> 122"

definition is_ascii_alphanumeric :: "char \<Rightarrow> bool" where
  [str_defs]: "is_ascii_alphanumeric c \<longleftrightarrow>
     is_ascii_digit c \<or> is_ascii_uppercase c \<or> is_ascii_lowercase c"

definition is_ascii_hexdigit :: "char \<Rightarrow> bool" where
  [str_defs]: "is_ascii_hexdigit c \<longleftrightarrow>
     is_ascii_digit c \<or> (65 \<le> ord c \<and> ord c \<le> 70) \<or> (97 \<le> ord c \<and> ord c \<le> 102)"

definition is_ascii_control :: "char \<Rightarrow> bool" where
  [str_defs]: "is_ascii_control c \<longleftrightarrow> ord c < 32 \<or> ord c = 127"

definition to_lower_byte :: "char \<Rightarrow> char" where
  [str_defs]: "to_lower_byte c = (if is_ascii_uppercase c then char_of (ord c + 32) else c)"

definition to_upper_byte :: "char \<Rightarrow> char" where
  [str_defs]: "to_upper_byte c = (if is_ascii_lowercase c then char_of (ord c - 32) else c)"

text \<open>\<^verbatim>\<open>str::to_ascii_lowercase\<close>, \<^verbatim>\<open>str::to_ascii_uppercase\<close>, \<^verbatim>\<open>str::eq_ignore_ascii_case\<close>.\<close>

definition to_ascii_lowercase :: "string \<Rightarrow> string" where
  [str_defs]: "to_ascii_lowercase s = map to_lower_byte s"

definition to_ascii_uppercase :: "string \<Rightarrow> string" where
  [str_defs]: "to_ascii_uppercase s = map to_upper_byte s"

definition eq_ignore_ascii_case :: "string \<Rightarrow> string \<Rightarrow> bool" where
  [str_defs]: "eq_ignore_ascii_case a b \<longleftrightarrow> to_ascii_lowercase a = to_ascii_lowercase b"

declare char_of_def [str_defs] bit_Suc_0_iff [str_defs]

lemma ord_to_lower_byte:
  "ord (to_lower_byte c) = (if is_ascii_uppercase c then ord c + 32 else ord c)"
  by (simp add: to_lower_byte_def is_ascii_uppercase_def)

lemma ord_to_upper_byte:
  "ord (to_upper_byte c) = (if is_ascii_lowercase c then ord c - 32 else ord c)"
  by (auto simp: to_upper_byte_def is_ascii_lowercase_def intro!: mod_less)

lemma char_eq_iff_ord: "c = d \<longleftrightarrow> ord c = ord d"
  by simp

lemma to_lower_byte_idem [simp]: "to_lower_byte (to_lower_byte c) = to_lower_byte c"
  unfolding char_eq_iff_ord ord_to_lower_byte
  by (simp add: is_ascii_uppercase_def ord_to_lower_byte)

lemma to_upper_byte_idem [simp]: "to_upper_byte (to_upper_byte c) = to_upper_byte c"
  unfolding char_eq_iff_ord ord_to_upper_byte
  by (auto simp: is_ascii_lowercase_def ord_to_upper_byte)

lemma to_lower_upper_byte [simp]: "to_lower_byte (to_upper_byte c) = to_lower_byte c"
  unfolding char_eq_iff_ord ord_to_lower_byte
  by (auto simp: is_ascii_uppercase_def is_ascii_lowercase_def ord_to_upper_byte)

lemma length_to_ascii_lowercase [simp]: "length (to_ascii_lowercase s) = length s"
  by (simp add: to_ascii_lowercase_def)

lemma to_ascii_lowercase_append [simp]:
  "to_ascii_lowercase (a @ b) = to_ascii_lowercase a @ to_ascii_lowercase b"
  by (simp add: to_ascii_lowercase_def)

lemma eq_ignore_ascii_case_refl [simp]: "eq_ignore_ascii_case s s"
  by (simp add: eq_ignore_ascii_case_def)

lemma eq_ignore_ascii_case_upper [simp]:
  "eq_ignore_ascii_case a (to_ascii_uppercase b) = eq_ignore_ascii_case a b"
  by (simp add: eq_ignore_ascii_case_def to_ascii_lowercase_def to_ascii_uppercase_def comp_def)

subsection \<open>Searching\<close>

fun starts_with :: "string \<Rightarrow> string \<Rightarrow> bool" where
  "starts_with s [] = True"
| "starts_with [] (p # ps) = False"
| "starts_with (c # cs) (p # ps) = (c = p \<and> starts_with cs ps)"

definition ends_with :: "string \<Rightarrow> string \<Rightarrow> bool" where
  [str_defs]: "ends_with s p = starts_with (rev s) (rev p)"

fun contains_str :: "string \<Rightarrow> string \<Rightarrow> bool" where
  "contains_str [] p = (p = [])"
| "contains_str (c # cs) p = (starts_with (c # cs) p \<or> contains_str cs p)"

text \<open>\<^verbatim>\<open>str::find\<close>: the byte offset of the first occurrence.\<close>

fun find_str :: "string \<Rightarrow> string \<Rightarrow> nat option" where
  "find_str [] p = (if p = [] then Some 0 else None)"
| "find_str (c # cs) p =
     (if starts_with (c # cs) p then Some 0 else map_option Suc (find_str cs p))"

definition strip_prefix :: "string \<Rightarrow> string \<Rightarrow> string option" where
  [str_defs]: "strip_prefix s p = (if starts_with s p then Some (drop (length p) s) else None)"

definition strip_suffix :: "string \<Rightarrow> string \<Rightarrow> string option" where
  [str_defs]: "strip_suffix s p =
     (if ends_with s p then Some (take (length s - length p) s) else None)"

lemma starts_with_iff: "starts_with s p \<longleftrightarrow> (\<exists>t. s = p @ t)"
  by (induction s p rule: starts_with.induct) auto

lemma starts_with_append [simp]: "starts_with (p @ t) p"
  by (auto simp: starts_with_iff)

lemma starts_with_self [simp]: "starts_with p p"
  using starts_with_append [of p "[]"] by simp

lemma starts_with_take: "starts_with s p \<longleftrightarrow> take (length p) s = p"
  by (metis append_eq_conv_conj append_take_drop_id starts_with_iff)

lemma starts_with_dropD: "starts_with s p \<Longrightarrow> s = p @ drop (length p) s"
  by (auto simp: starts_with_iff)

lemma ends_with_iff: "ends_with s p \<longleftrightarrow> (\<exists>t. s = t @ p)"
  by (simp add: ends_with_def starts_with_iff) (metis rev_append rev_rev_ident)

lemma contains_str_iff: "contains_str s p \<longleftrightarrow> (\<exists>a b. s = a @ p @ b)"
proof (induction s)
  case Nil
  then show ?case by simp
next
  case (Cons c cs)
  have "(\<exists>a b. c # cs = a @ p @ b) \<longleftrightarrow>
        (\<exists>b. c # cs = p @ b) \<or> (\<exists>a b. cs = a @ p @ b)"
    by (metis append.left_neutral append_Cons list.inject neq_Nil_conv)
  with Cons.IH show ?case by (simp add: starts_with_iff)
qed

lemma contains_strI: "contains_str (a @ p @ b) p"
  by (auto simp: contains_str_iff)

lemma contains_str_Nil [simp]: "contains_str s []"
  by (cases s) simp_all

lemma contains_str_append1: "contains_str a p \<Longrightarrow> contains_str (a @ b) p"
  unfolding contains_str_iff by (metis append_assoc)

lemma contains_str_append2: "contains_str b p \<Longrightarrow> contains_str (a @ b) p"
  unfolding contains_str_iff by (metis append_assoc)

lemma contains_str_length: "contains_str s p \<Longrightarrow> length p \<le> length s"
  by (auto simp: contains_str_iff)

lemma contains_char_iff [simp]: "contains_str s [c] \<longleftrightarrow> c \<in> set s"
  by (auto simp: contains_str_iff in_set_conv_decomp)

lemma find_str_Some: "find_str s p = Some i \<Longrightarrow> i \<le> length s \<and> starts_with (drop i s) p"
  by (induction s p arbitrary: i rule: find_str.induct) (auto split: if_splits)

lemma find_str_None_iff: "find_str s p = None \<longleftrightarrow> \<not> contains_str s p"
  by (induction s p rule: find_str.induct) auto

lemma find_str_least: "find_str s p = Some i \<Longrightarrow> j < i \<Longrightarrow> \<not> starts_with (drop j s) p"
proof (induction s p arbitrary: i j rule: find_str.induct)
  case (2 c cs p)
  then show ?case by (cases j) (auto split: if_splits)
qed (auto split: if_splits)

subsection \<open>Scalar values: chars, trim, control characters\<close>

text \<open>
  \<open>seq_len c\<close> is the number of bytes of the UTF-8 sequence whose first byte is \<open>c\<close>;
  \<open>chars s\<close> cuts \<open>s\<close> into those sequences, one per scalar value (\<^verbatim>\<open>str::chars\<close>).
\<close>

definition seq_len :: "char \<Rightarrow> nat" where
  [str_defs]: "seq_len c = (if ord c < 0x80 then 1 else if ord c < 0xE0 then 2
     else if ord c < 0xF0 then 3 else 4)"

function chars :: "string \<Rightarrow> string list" where
  "chars [] = []"
| "chars (c # cs) = (c # take (seq_len c - 1) cs) # chars (drop (seq_len c - 1) cs)"
  by pat_completeness auto
termination
  by (relation "measure length") auto

lemma concat_chars [simp]: "concat (chars s) = s"
  by (induction s rule: chars.induct) simp_all

lemma chars_nonempty: "ch \<in> set (chars s) \<Longrightarrow> ch \<noteq> []"
  by (induction s rule: chars.induct) auto

lemma length_chars_le: "length (chars s) \<le> length s"
  by (induction s rule: chars.induct) auto

definition is_ascii :: "string \<Rightarrow> bool" where
  [str_defs]: "is_ascii s \<longleftrightarrow> (\<forall>c \<in> set s. ord c < 0x80)"

lemma chars_ascii: "is_ascii s \<Longrightarrow> chars s = map (\<lambda>c. [c]) s"
proof (induction s)
  case (Cons c cs)
  then have "seq_len c = 1" and "is_ascii cs" by (simp_all add: is_ascii_def seq_len_def)
  with Cons.IH show ?case by simp
qed simp

text \<open>\<^verbatim>\<open>char::is_control\<close>: U+0000 to U+001F and U+007F to U+009F.\<close>

fun is_control :: "string \<Rightarrow> bool" where
  "is_control [c] = is_ascii_control c"
| "is_control [c, d] = (ord c = 0xC2 \<and> 0x80 \<le> ord d \<and> ord d \<le> 0x9F)"
| "is_control _ = False"

text \<open>\<^verbatim>\<open>char::is_whitespace\<close>: the Unicode property \<^verbatim>\<open>White_Space\<close>.\<close>

fun is_whitespace :: "string \<Rightarrow> bool" where
  "is_whitespace [c] = ((9 \<le> ord c \<and> ord c \<le> 13) \<or> ord c = 32)"
| "is_whitespace [c, d] = (ord c = 0xC2 \<and> (ord d = 0x85 \<or> ord d = 0xA0))"
| "is_whitespace [c, d, e] =
     ((ord c = 0xE1 \<and> ord d = 0x9A \<and> ord e = 0x80)
      \<or> (ord c = 0xE2 \<and> ord d = 0x80 \<and>
           ((0x80 \<le> ord e \<and> ord e \<le> 0x8A) \<or> ord e = 0xA8 \<or> ord e = 0xA9 \<or> ord e = 0xAF))
      \<or> (ord c = 0xE2 \<and> ord d = 0x81 \<and> ord e = 0x9F)
      \<or> (ord c = 0xE3 \<and> ord d = 0x80 \<and> ord e = 0x80))"
| "is_whitespace _ = False"

definition has_control :: "string \<Rightarrow> bool" where
  [str_defs]: "has_control s \<longleftrightarrow> list_ex is_control (chars s)"

definition trim_start_matches :: "(string \<Rightarrow> bool) \<Rightarrow> string \<Rightarrow> string" where
  [str_defs]: "trim_start_matches P s = concat (dropWhile P (chars s))"

definition trim_end_matches :: "(string \<Rightarrow> bool) \<Rightarrow> string \<Rightarrow> string" where
  [str_defs]: "trim_end_matches P s = concat (rev (dropWhile P (rev (chars s))))"

definition trim :: "string \<Rightarrow> string" where
  [str_defs]: "trim s =
     concat (rev (dropWhile is_whitespace (rev (dropWhile is_whitespace (chars s)))))"

lemma length_concat_dropWhile: "length (concat (dropWhile P xs)) \<le> length (concat xs)"
  by (induction xs) auto

lemma length_concat_rev: "length (concat (rev xs)) = length (concat xs)"
  by (induction xs) auto

lemma length_trim_le: "length (trim s) \<le> length s"
proof -
  have "length (trim s) \<le> length (concat (dropWhile is_whitespace (chars s)))"
    unfolding trim_def
    by (metis length_concat_dropWhile length_concat_rev)
  also have "\<dots> \<le> length (concat (chars s))" by (rule length_concat_dropWhile)
  finally show ?thesis by simp
qed

lemma chars_split: "chars s = xs @ ys \<Longrightarrow> chars (concat xs) = xs \<and> chars (concat ys) = ys"
proof (induction s arbitrary: xs rule: chars.induct)
  case (2 c cs)
  let ?n = "seq_len c - 1"
  show ?case
  proof (cases xs)
    case Nil
    then have "concat ys = c # cs" using 2(2) concat_chars [of "c # cs"] by simp
    with Nil 2(2) show ?thesis by simp
  next
    case (Cons x xs')
    with 2(2) have x: "x = c # take ?n cs" and rest: "chars (drop ?n cs) = xs' @ ys" by simp_all
    have "take ?n (take ?n cs @ concat xs') = take ?n cs \<and> drop ?n (take ?n cs @ concat xs') = concat xs'"
    proof (cases "?n \<le> length cs")
      case False
      then have "xs' = []" using rest by simp
      with False show ?thesis by simp
    qed simp
    then have "chars (concat xs) = x # chars (concat xs')" by (simp add: Cons x)
    with 2(1) [OF rest] Cons show ?thesis by simp
  qed
qed simp

lemma trim_Nil [simp]: "trim [] = []"
  by (simp add: trim_def)

lemma trim_idem [simp]: "trim (trim s) = trim s"
proof -
  let ?ws = "dropWhile is_whitespace (chars s)"
  define zs where "zs = rev (dropWhile is_whitespace (rev ?ws))"
  have "chars (concat ?ws) = ?ws"
    using chars_split [of s "takeWhile is_whitespace (chars s)" ?ws] by simp
  moreover have ws: "?ws = zs @ rev (takeWhile is_whitespace (rev ?ws))"
    unfolding zs_def by (metis rev_append rev_rev_ident takeWhile_dropWhile_id)
  ultimately have zs: "chars (trim s) = zs"
    unfolding trim_def zs_def [symmetric] using chars_split by metis
  have "dropWhile is_whitespace zs = zs"
  proof (cases zs)
    case (Cons z r)
    then have "?ws = z # r @ rev (takeWhile is_whitespace (rev ?ws))" using ws by simp
    then have "\<not> is_whitespace z" by (metis dropWhile_eq_Cons_conv)
    with Cons show ?thesis by simp
  qed simp
  then have "trim (trim s) = concat (rev (dropWhile is_whitespace (rev zs)))"
    unfolding trim_def [of "trim s"] zs by simp
  also have "\<dots> = trim s" by (simp add: zs_def trim_def)
  finally show ?thesis .
qed

lemma trim_end_matches_prefix: "\<exists>t. s = trim_end_matches P s @ t"
proof -
  let ?xs = "rev (chars s)"
  have "s = concat (rev (takeWhile P ?xs @ dropWhile P ?xs))" by simp
  also have "\<dots> = trim_end_matches P s @ concat (rev (takeWhile P ?xs))"
    by (simp only: rev_append concat_append trim_end_matches_def)
  finally show ?thesis ..
qed

subsection \<open>UTF-8 validity\<close>

definition utf8_cont :: "char \<Rightarrow> bool" where
  [str_defs]: "utf8_cont c \<longleftrightarrow> 0x80 \<le> ord c \<and> ord c \<le> 0xBF"

text \<open>The length of a well-formed sequence at the head of the bytes, if there is one.\<close>

fun utf8_head :: "bytes \<Rightarrow> nat option" where
  "utf8_head [] = None"
| "utf8_head (a # r) =
     (if ord a < 0x80 then Some 1
      else if 0xC2 \<le> ord a \<and> ord a \<le> 0xDF then
        (case r of b # _ \<Rightarrow> if utf8_cont b then Some 2 else None | _ \<Rightarrow> None)
      else if 0xE0 \<le> ord a \<and> ord a \<le> 0xEF then
        (case r of b # c # _ \<Rightarrow>
           if utf8_cont b \<and> utf8_cont c \<and> (ord a = 0xE0 \<longrightarrow> 0xA0 \<le> ord b)
              \<and> (ord a = 0xED \<longrightarrow> ord b \<le> 0x9F)
           then Some 3 else None
         | _ \<Rightarrow> None)
      else if 0xF0 \<le> ord a \<and> ord a \<le> 0xF4 then
        (case r of b # c # d # _ \<Rightarrow>
           if utf8_cont b \<and> utf8_cont c \<and> utf8_cont d \<and> (ord a = 0xF0 \<longrightarrow> 0x90 \<le> ord b)
              \<and> (ord a = 0xF4 \<longrightarrow> ord b \<le> 0x8F)
           then Some 4 else None
         | _ \<Rightarrow> None)
      else None)"

lemma utf8_head_pos: "utf8_head s = Some n \<Longrightarrow> 0 < n \<and> s \<noteq> []"
  by (cases s) (auto split: if_splits list.splits)

function valid_utf8 :: "bytes \<Rightarrow> bool" where
  "valid_utf8 s = (s = [] \<or> (case utf8_head s of None \<Rightarrow> False | Some n \<Rightarrow> valid_utf8 (drop n s)))"
  by pat_completeness auto
termination
  by (relation "measure length") (auto dest: utf8_head_pos)

declare valid_utf8.simps [simp del]

lemma valid_utf8_ascii: "is_ascii s \<Longrightarrow> valid_utf8 s"
proof (induction s)
  case Nil
  show ?case by (simp add: valid_utf8.simps)
next
  case (Cons c cs)
  then show ?case by (subst valid_utf8.simps) (auto simp: is_ascii_def)
qed

text \<open>
  \<^verbatim>\<open>String::from_utf8_lossy\<close>: each maximal prefix of a well-formed sequence that is not completed
  becomes U+FFFD. \<open>bad_len\<close> is the length of that prefix, when \<open>utf8_head\<close> finds no sequence.
\<close>

definition utf8_second :: "char \<Rightarrow> char \<Rightarrow> bool" where
  [str_defs]: "utf8_second a b \<longleftrightarrow> utf8_cont b \<and> (ord a = 0xE0 \<longrightarrow> 0xA0 \<le> ord b) \<and> (ord a = 0xED \<longrightarrow> ord b \<le> 0x9F)
     \<and> (ord a = 0xF0 \<longrightarrow> 0x90 \<le> ord b) \<and> (ord a = 0xF4 \<longrightarrow> ord b \<le> 0x8F)"

fun bad_len :: "bytes \<Rightarrow> nat" where
  "bad_len (a # b # r) =
     (if 0xE0 \<le> ord a \<and> ord a \<le> 0xF4 \<and> utf8_second a b
      then (case r of c # _ \<Rightarrow> if 0xF0 \<le> ord a \<and> utf8_cont c then 3 else 2 | [] \<Rightarrow> 2)
      else 1)"
| "bad_len _ = 1"

definition REPLACEMENT_CHARACTER :: string where
  [str_defs]: "REPLACEMENT_CHARACTER = [CHR 0xEF, CHR 0xBF, CHR 0xBD]"

lemma bad_len_pos: "0 < bad_len s"
  by (cases s rule: bad_len.cases) (auto split: list.split)

function from_utf8_lossy :: "bytes \<Rightarrow> string" where
  "from_utf8_lossy s =
     (if s = [] then []
      else (case utf8_head s of
              Some n \<Rightarrow> take n s @ from_utf8_lossy (drop n s)
            | None \<Rightarrow> REPLACEMENT_CHARACTER @ from_utf8_lossy (drop (bad_len s) s)))"
  by pat_completeness auto
termination
  by (relation "measure length") (auto dest: utf8_head_pos simp: bad_len_pos)

declare from_utf8_lossy.simps [simp del]

lemma utf8_head_append: "utf8_head s = Some n \<Longrightarrow> utf8_head (take n s @ t) = Some n"
  by (cases s) (auto split: if_splits list.splits simp: numeral_2_eq_2 numeral_3_eq_3 numeral_eq_Suc)

lemma utf8_head_le: "utf8_head s = Some n \<Longrightarrow> n \<le> length s"
  by (cases s) (auto split: if_splits list.splits)

lemma valid_utf8_append_head: "utf8_head s = Some n \<Longrightarrow> valid_utf8 (take n s @ t) = valid_utf8 t"
  using utf8_head_append [of s n t] utf8_head_le [of s n] utf8_head_pos [of s n]
  by (subst valid_utf8.simps) auto

lemma valid_utf8_lossy: "valid_utf8 (from_utf8_lossy s)"
proof (induction s rule: from_utf8_lossy.induct)
  case (1 s)
  have repl: "valid_utf8 (REPLACEMENT_CHARACTER @ t) = valid_utf8 t" for t
    using valid_utf8_append_head [of REPLACEMENT_CHARACTER 3 t]
    by (simp add: REPLACEMENT_CHARACTER_def utf8_cont_def)
  show ?case
  proof (cases "s = []")
    case True
    then show ?thesis by (simp add: from_utf8_lossy.simps valid_utf8.simps)
  next
    case False
    show ?thesis
    proof (cases "utf8_head s")
      case None
      with 1(1) False show ?thesis by (subst from_utf8_lossy.simps) (simp add: repl)
    next
      case (Some n)
      with 1(2) False show ?thesis
        by (subst from_utf8_lossy.simps) (simp add: valid_utf8_append_head)
    qed
  qed
qed

lemma lossy_valid [simp]: "valid_utf8 s \<Longrightarrow> from_utf8_lossy s = s"
proof (induction s rule: valid_utf8.induct)
  case (1 s)
  from 1(2) show ?case
    by (subst from_utf8_lossy.simps, subst (asm) valid_utf8.simps) (auto simp: 1(1) split: option.splits)
qed

subsection \<open>Splitting and replacing\<close>

text \<open>\<^verbatim>\<open>str::split\<close> on a one-byte separator, and its inverse \<^verbatim>\<open>join\<close>.\<close>

fun split_ch :: "char \<Rightarrow> string \<Rightarrow> string list" where
  "split_ch d [] = [[]]"
| "split_ch d (c # cs) =
     (if c = d then [] # split_ch d cs
      else (case split_ch d cs of [] \<Rightarrow> [[c]] | x # xs \<Rightarrow> (c # x) # xs))"

fun join_str :: "string \<Rightarrow> string list \<Rightarrow> string" where
  "join_str sep [] = []"
| "join_str sep [x] = x"
| "join_str sep (x # y # ys) = x @ sep @ join_str sep (y # ys)"

text \<open>\<^verbatim>\<open>str::split_once\<close> on a one-byte separator.\<close>

fun split_once :: "char \<Rightarrow> string \<Rightarrow> (string \<times> string) option" where
  "split_once d [] = None"
| "split_once d (c # cs) =
     (if c = d then Some ([], cs)
      else map_option (\<lambda>(a, b). (c # a, b)) (split_once d cs))"

lemma split_ch_not_Nil [simp]: "split_ch d s \<noteq> []"
  by (cases s) (auto split: list.splits)

lemma join_split_ch: "join_str [d] (split_ch d s) = s"
proof (induction s)
  case (Cons c cs)
  obtain x xs where x: "split_ch d cs = x # xs"
    using split_ch_not_Nil [of d cs] by (cases "split_ch d cs") auto
  with Cons.IH show ?case by (cases xs) auto
qed simp

lemma split_ch_no_sep: "x \<in> set (split_ch d s) \<Longrightarrow> d \<notin> set x"
  by (induction s arbitrary: x) (auto split: list.splits if_splits)

lemma split_ch_subset: "x \<in> set (split_ch d s) \<Longrightarrow> set x \<subseteq> set s"
proof (induction s arbitrary: x)
  case (Cons c cs)
  then show ?case by (fastforce split: list.splits if_splits)
qed simp

lemma split_once_Some: "split_once d s = Some (a, b) \<longleftrightarrow> s = a @ d # b \<and> d \<notin> set a"
proof (induction s arbitrary: a)
  case (Cons c cs)
  then show ?case by (cases a) (auto split: if_splits)
qed simp

lemma split_once_None: "split_once d s = None \<longleftrightarrow> d \<notin> set s"
  by (induction s) auto

text \<open>
  \<^verbatim>\<open>str::replace\<close>: every non-overlapping occurrence, from the left. The empty pattern
  matches at every character boundary.
\<close>

function replace_str :: "string \<Rightarrow> string \<Rightarrow> string \<Rightarrow> string" where
  "replace_str s p r =
     (if p = [] then r @ concat (map (\<lambda>ch. ch @ r) (chars s))
      else (case s of
              [] \<Rightarrow> []
            | c # cs \<Rightarrow>
                (if starts_with s p then r @ replace_str (drop (length p) s) p r
                 else c # replace_str cs p r)))"
  by pat_completeness auto
termination
  by (relation "measure (\<lambda>(s, p, r). length s)") (auto simp: neq_Nil_conv)

declare replace_str.simps [simp del]

lemma replace_str_Nil [simp]: "p \<noteq> [] \<Longrightarrow> replace_str [] p r = []"
  by (simp add: replace_str.simps)

lemma replace_str_hit: "p \<noteq> [] \<Longrightarrow> replace_str (p @ t) p r = r @ replace_str t p r"
  by (subst replace_str.simps) (auto simp: neq_Nil_conv split: list.splits)

lemma replace_str_miss:
  "p \<noteq> [] \<Longrightarrow> \<not> starts_with (c # cs) p \<Longrightarrow> replace_str (c # cs) p r = c # replace_str cs p r"
  by (subst replace_str.simps) simp

lemma replace_str_absent: "\<not> contains_str s p \<Longrightarrow> replace_str s p r = s"
proof (induction s)
  case Nil
  then show ?case by simp
next
  case (Cons c cs)
  then have "p \<noteq> []" by auto
  with Cons show ?case by (simp add: replace_str_miss)
qed

text \<open>
  What a replacement leaves. When the replacement \<open>d # r @ [e]\<close> is set off by two bytes that
  the pattern does not have, an occurrence in the result lies inside \<open>r\<close> or was one of the text.
\<close>

lemma starts_with_across: "d \<notin> set p \<Longrightarrow> starts_with (a @ d # b) p \<longleftrightarrow> starts_with a p"
proof (induction a arbitrary: p)
  case Nil
  then show ?case by (cases p) auto
next
  case (Cons x a)
  then show ?case by (cases p) auto
qed

lemma contains_str_across:
  "d \<notin> set p \<Longrightarrow> contains_str (a @ d # b) p \<longleftrightarrow> contains_str a p \<or> contains_str b p"
proof (induction a)
  case Nil
  then show ?case by (cases p) auto
next
  case (Cons x a)
  then show ?case using starts_with_across [of d p "x # a" b] by auto
qed

lemma replace_str_prefix:
  assumes "p \<noteq> []" "d \<notin> set q" "starts_with (replace_str t p (d # r)) q"
  shows "starts_with t q"
  using assms(2,3)
proof (induction t arbitrary: q)
  case Nil
  then show ?case using assms(1) by simp
next
  case (Cons c cs)
  show ?case
  proof (cases "starts_with (c # cs) p")
    case True
    then obtain t' where "c # cs = p @ t'" by (auto simp: starts_with_iff)
    then have "starts_with (d # r @ replace_str t' p (d # r)) q"
      using Cons.prems(2) assms(1) by (simp add: replace_str_hit)
    with Cons.prems(1) show ?thesis by (cases q) auto
  next
    case False
    with Cons assms(1) show ?thesis by (cases q) (auto simp: replace_str_miss)
  qed
qed

lemma replace_str_clean:
  assumes "p \<noteq> []" "d \<notin> set p" "e \<notin> set p" "\<not> contains_str r p"
  shows "\<not> contains_str (replace_str t p (d # r @ [e])) p"
proof (induction t rule: length_induct)
  case (1 t)
  show ?case
  proof (cases t)
    case Nil
    with assms(1) show ?thesis by simp
  next
    case (Cons c cs)
    show ?thesis
    proof (cases "starts_with t p")
      case True
      then obtain t' where t': "t = p @ t'" by (auto simp: starts_with_iff)
      with 1 assms(1) have IH: "\<not> contains_str (replace_str t' p (d # r @ [e])) p" by simp
      have eq: "replace_str t p (d # r @ [e]) = [] @ d # (r @ e # replace_str t' p (d # r @ [e]))"
        using assms(1) t' by (simp add: replace_str_hit)
      show ?thesis
        unfolding eq contains_str_across [OF assms(2)] contains_str_across [OF assms(3)]
        using IH assms(1,4) by simp
    next
      case False
      then have eq: "replace_str t p (d # r @ [e]) = c # replace_str cs p (d # r @ [e])"
        using assms(1) Cons by (simp add: replace_str_miss)
      have "\<not> starts_with (replace_str t p (d # r @ [e])) p"
        using replace_str_prefix [of p d p t "r @ [e]"] False assms(1,2) by auto
      moreover have "\<not> contains_str (replace_str cs p (d # r @ [e])) p" using 1 Cons by simp
      ultimately show ?thesis unfolding eq by simp
    qed
  qed
qed

text \<open>Replacing in valid UTF-8 leaves valid UTF-8.\<close>

lemma valid_utf8_append: "valid_utf8 p \<Longrightarrow> valid_utf8 (p @ t) = valid_utf8 t"
proof (induction p rule: valid_utf8.induct)
  case (1 p)
  show ?case
  proof (cases "p = []")
    case False
    with 1(2) obtain n where n: "utf8_head p = Some n" "valid_utf8 (drop n p)"
      by (subst (asm) valid_utf8.simps) (auto split: option.splits)
    have "valid_utf8 (p @ t) = valid_utf8 (take n p @ (drop n p @ t))"
      by (simp only: append_assoc [symmetric] append_take_drop_id)
    also have "\<dots> = valid_utf8 (drop n p @ t)" by (rule valid_utf8_append_head [OF n(1)])
    also have "\<dots> = valid_utf8 t" by (rule 1(1) [OF n])
    finally show ?thesis .
  qed simp
qed

lemma valid_utf8_hd: "valid_utf8 (c # cs) \<Longrightarrow> \<not> utf8_cont c"
  by (subst (asm) valid_utf8.simps) (auto simp: utf8_cont_def split: if_splits)

lemma utf8_head_conts: "utf8_head (c # cs) = Some n \<Longrightarrow> list_all utf8_cont (take (n - 1) cs)"
  by (auto split: if_splits list.splits simp: numeral_2_eq_2 numeral_3_eq_3 numeral_eq_Suc)

lemma replace_str_conts:
  assumes "valid_utf8 (d # p)" "list_all utf8_cont xs"
  shows "replace_str (xs @ t) (d # p) r = xs @ replace_str t (d # p) r"
  using assms(2)
proof (induction xs)
  case (Cons x xs)
  then have "x \<noteq> d" using valid_utf8_hd [OF assms(1)] by auto
  then show ?case using Cons by (simp add: replace_str_miss)
qed simp

lemma valid_utf8_replace:
  assumes p: "valid_utf8 p" "p \<noteq> []" and r: "valid_utf8 r" and "valid_utf8 s"
  shows "valid_utf8 (replace_str s p r)"
  using assms(4)
proof (induction s rule: length_induct)
  case (1 s)
  obtain d q where d: "p = d # q" using p(2) by (cases p) auto
  show ?case
  proof (cases s)
    case Nil
    with 1(2) p show ?thesis by simp
  next
    case (Cons c cs)
    show ?thesis
    proof (cases "starts_with s p")
      case True
      then obtain t where t: "s = p @ t" by (auto simp: starts_with_iff)
      with 1(2) have "valid_utf8 t" by (simp add: valid_utf8_append p)
      with 1(1) t p show ?thesis by (simp add: replace_str_hit valid_utf8_append r)
    next
      case False
      from 1(2) Cons obtain n where n: "utf8_head s = Some n" "valid_utf8 (drop n s)"
        by (subst (asm) valid_utf8.simps) (auto split: option.splits)
      have pos: "0 < n" "n \<le> length s" using n(1) by (auto dest: utf8_head_pos utf8_head_le)
      obtain m where m: "n = Suc m" using pos by (cases n) auto
      have conts: "list_all utf8_cont (take m cs)" using utf8_head_conts [of c cs n] n(1) Cons m by simp
      have "replace_str s p r = c # replace_str (take m cs @ drop m cs) p r"
        using False p(2) Cons by (simp add: replace_str_miss)
      also have "\<dots> = take n s @ replace_str (drop n s) p r"
        unfolding d replace_str_conts [OF p(1) [unfolded d] conts] by (simp add: Cons m)
      finally show ?thesis
        using valid_utf8_append_head [OF n(1)] 1(1) n(2) pos Cons by simp
    qed
  qed
qed

subsection \<open>Hash maps and hash sets\<close>

text \<open>
  A \<^verbatim>\<open>HashMap\<close> is an association list with distinct keys, and a \<^verbatim>\<open>HashSet\<close> a list without
  repetitions: the list's order is the (unspecified) order in which iteration visits the
  entries, so a statement that holds for every such list holds for every iteration order.
\<close>

type_synonym ('k, 'v) hashmap = "('k \<times> 'v) list"
type_synonym 'k hashset = "'k list"

abbreviation hm_get :: "('k, 'v) hashmap \<Rightarrow> 'k \<Rightarrow> 'v option" where
  "hm_get \<equiv> map_of"

definition hm_contains :: "('k, 'v) hashmap \<Rightarrow> 'k \<Rightarrow> bool" where
  "hm_contains m k \<longleftrightarrow> hm_get m k \<noteq> None"

definition hm_insert :: "'k \<Rightarrow> 'v \<Rightarrow> ('k, 'v) hashmap \<Rightarrow> ('k, 'v) hashmap" where
  "hm_insert k v m = AList.update k v m"

definition hm_remove :: "'k \<Rightarrow> ('k, 'v) hashmap \<Rightarrow> ('k, 'v) hashmap" where
  "hm_remove k m = AList.delete k m"

text \<open>\<^verbatim>\<open>map.entry(k).or_insert(v)\<close>\<close>

definition hm_or_insert :: "'k \<Rightarrow> 'v \<Rightarrow> ('k, 'v) hashmap \<Rightarrow> ('k, 'v) hashmap" where
  "hm_or_insert k v m = (if hm_contains m k then m else hm_insert k v m)"

definition hm_wf :: "('k, 'v) hashmap \<Rightarrow> bool" where
  "hm_wf m \<longleftrightarrow> distinct (map fst m)"

definition hs_insert :: "'k \<Rightarrow> 'k hashset \<Rightarrow> 'k hashset" where
  "hs_insert = List.insert"

definition hs_remove :: "'k \<Rightarrow> 'k hashset \<Rightarrow> 'k hashset" where
  "hs_remove = removeAll"

lemma hm_get_insert [simp, map_simps]:
  "hm_get (hm_insert k v m) k' = (if k' = k then Some v else hm_get m k')"
  by (simp add: hm_insert_def update_conv)

lemma hm_get_remove [simp, map_simps]:
  "hm_get (hm_remove k m) k' = (if k' = k then None else hm_get m k')"
  by (simp add: hm_remove_def delete_conv)

lemma hm_get_or_insert [simp, map_simps]:
  "hm_get (hm_or_insert k v m) k' =
     (if k' = k \<and> hm_get m k = None then Some v else hm_get m k')"
  by (simp add: hm_or_insert_def hm_contains_def)

lemma hm_contains_simps [simp, map_simps]:
  "hm_contains [] k = False"
  "hm_contains (hm_insert k v m) k' = (k' = k \<or> hm_contains m k')"
  "hm_contains (hm_remove k m) k' = (k' \<noteq> k \<and> hm_contains m k')"
  "hm_contains (hm_or_insert k v m) k' = (k' = k \<or> hm_contains m k')"
  by (auto simp: hm_contains_def)

lemma hm_contains_keys: "hm_contains m k \<longleftrightarrow> k \<in> fst ` set m"
  by (simp add: hm_contains_def map_of_eq_None_iff)

lemma hm_wf_simps [simp, intro]:
  "hm_wf []"
  "hm_wf m \<Longrightarrow> hm_wf (hm_insert k v m)"
  "hm_wf m \<Longrightarrow> hm_wf (hm_remove k m)"
  "hm_wf m \<Longrightarrow> hm_wf (hm_or_insert k v m)"
  by (simp_all add: hm_wf_def hm_insert_def hm_remove_def hm_or_insert_def
        distinct_update distinct_delete)

lemma set_hm_insert: "x \<in> set (hm_insert k v m) \<Longrightarrow> x = (k, v) \<or> x \<in> set m"
  unfolding hm_insert_def by (induction m) (auto split: if_splits)

lemma list_all_hm_insert: "list_all P m \<Longrightarrow> P (k, v) \<Longrightarrow> list_all P (hm_insert k v m)"
  unfolding list_all_iff using set_hm_insert by metis

lemma set_hm_remove: "x \<in> set (hm_remove k m) \<Longrightarrow> x \<in> set m"
  unfolding hm_remove_def by (induction m) (auto split: if_splits)

lemma set_hm_or_insert: "x \<in> set (hm_or_insert k v m) \<Longrightarrow> x = (k, v) \<or> x \<in> set m"
  by (auto simp: hm_or_insert_def dest: set_hm_insert split: if_splits)

lemma hm_get_eq_Some_iff: "hm_wf m \<Longrightarrow> hm_get m k = Some v \<longleftrightarrow> (k, v) \<in> set m"
  by (simp add: hm_wf_def)

lemma hs_set_simps [simp, map_simps]:
  "set (hs_insert k s) = insert k (set s)"
  "set (hs_remove k s) = set s - {k}"
  by (auto simp: hs_insert_def hs_remove_def)

lemma hs_distinct_simps [simp, intro]:
  "distinct s \<Longrightarrow> distinct (hs_insert k s)"
  "distinct s \<Longrightarrow> distinct (hs_remove k s)"
  by (simp_all add: hs_insert_def hs_remove_def distinct_removeAll)

subsection \<open>Decimal rendering and quoting\<close>

text \<open>\<^verbatim>\<open>{}\<close> of an unsigned integer, and the quoted form \<^verbatim>\<open>'{}'\<close> of the error messages.\<close>

fun show_nat :: "nat \<Rightarrow> string" where
  "show_nat n = (if n < 10 then [char_of (48 + n)] else show_nat (n div 10) @ [char_of (48 + n mod 10)])"

declare show_nat.simps [simp del]

definition show_int :: "int \<Rightarrow> string" where
  "show_int i = (if i < 0 then CHR 0x2D # show_nat (nat (- i)) else show_nat (nat i))"

definition dq :: "string \<Rightarrow> string" where
  [str_defs]: "dq s = CHR 0x22 # s @ [CHR 0x22]"

definition squote :: "string \<Rightarrow> string" where
  "squote s = CHR 0x27 # s @ [CHR 0x27]"

text \<open>
  \<^verbatim>\<open>{:?}\<close> of a string and of a list of strings: quoted, with the escapes of the ASCII control
  characters, the quote and the backslash. (The standard library also escapes some
  unprintable characters outside ASCII; here they stay as they are.)
\<close>

definition hex_digit :: "nat \<Rightarrow> char" where
  [str_defs]: "hex_digit n = (if n < 10 then char_of (48 + n) else char_of (87 + n))"

definition debug_char :: "char \<Rightarrow> string" where
  [str_defs]: "debug_char c =
     (if c = CHR 0x22 then [CHR 0x5C, CHR 0x22]
      else if c = CHR 0x5C then [CHR 0x5C, CHR 0x5C]
      else if c = CHR 0x09 then [CHR 0x5C, CHR ''t'']
      else if c = CHR 0x0A then [CHR 0x5C, CHR ''n'']
      else if c = CHR 0x0D then [CHR 0x5C, CHR ''r'']
      else if c = CHR 0x00 then [CHR 0x5C, CHR ''0'']
      else if is_ascii_control c
      then [CHR 0x5C, CHR ''u'', CHR ''{''] @
           (if ord c < 16 then [hex_digit (ord c)] else [hex_digit (ord c div 16), hex_digit (ord c mod 16)]) @
           [CHR ''}'']
      else [c])"

definition debug_str :: "string \<Rightarrow> string" where
  [str_defs]: "debug_str s = CHR 0x22 # concat (map debug_char s) @ [CHR 0x22]"

definition debug_strs :: "string list \<Rightarrow> string" where
  [str_defs]: "debug_strs xs = ''['' @ join_str '', '' (map debug_str xs) @ '']''"

end
