(* ===== verification/Pending.thy ===== *)
theory Pending
  imports Prelude
begin

section \<open>Correlation of responses with requests\<close>

text \<open>
  Model of the queues of unanswered requests in \<^verbatim>\<open>mcp-shield/src/proxy.rs\<close>: the ids of
  pending \<^verbatim>\<open>tools/list\<close> requests and the pending inspections. Both directions of the proxy
  share them; each operation runs under the mutex, so the history of a queue is a sequence of
  operations. The contract of such a queue is the locale \<open>keyed_fifo\<close>; both queues of the
  code implement it.
\<close>

definition MAX_PENDING_TOOLS_LIST :: nat where
  "MAX_PENDING_TOOLS_LIST = 1024"

datatype InspectionKind = Prompts | Resources | ResourceTemplates | ToolResult

record PendingInspection =
  pi_key :: string
  pi_kind :: InspectionKind
  pi_resource_id :: "string option"

text \<open>\<^verbatim>\<open>iter().position\<close> and \<^verbatim>\<open>VecDeque::remove\<close>.\<close>

fun position :: "('a \<Rightarrow> bool) \<Rightarrow> 'a list \<Rightarrow> nat option" where
  "position P [] = None"
| "position P (x # xs) = (if P x then Some 0 else map_option Suc (position P xs))"

definition remove_at :: "nat \<Rightarrow> 'a list \<Rightarrow> 'a option \<times> 'a list" where
  "remove_at i xs = (if i < length xs then (Some (xs ! i), take i xs @ drop (Suc i) xs) else (None, xs))"

definition pop_front :: "'a list \<Rightarrow> 'a option \<times> 'a list" where
  "pop_front xs = (case xs of [] \<Rightarrow> (None, []) | x # r \<Rightarrow> (Some x, r))"

definition track_pending :: "string list \<Rightarrow> string \<Rightarrow> string option \<times> string list" where
  "track_pending pending key =
     (let p1 = (case position (\<lambda>existing. existing = key) pending of
                  Some i \<Rightarrow> snd (remove_at i pending) | None \<Rightarrow> pending);
          p2 = p1 @ [key] in
      if MAX_PENDING_TOOLS_LIST < length p2 then pop_front p2 else (None, p2))"

definition take_pending :: "string list \<Rightarrow> string \<Rightarrow> bool \<times> string list" where
  "take_pending pending key =
     (case position (\<lambda>existing. existing = key) pending of
        None \<Rightarrow> (False, pending)
      | Some i \<Rightarrow> (True, snd (remove_at i pending)))"

definition track_inspection ::
  "PendingInspection list \<Rightarrow> PendingInspection \<Rightarrow> PendingInspection option \<times> PendingInspection list" where
  "track_inspection pending inspection =
     (let p1 = (case position (\<lambda>existing. pi_key existing = pi_key inspection) pending of
                  Some i \<Rightarrow> snd (remove_at i pending) | None \<Rightarrow> pending);
          p2 = p1 @ [inspection] in
      if MAX_PENDING_TOOLS_LIST < length p2 then pop_front p2 else (None, p2))"

definition take_inspection ::
  "PendingInspection list \<Rightarrow> string \<Rightarrow> PendingInspection option \<times> PendingInspection list" where
  "take_inspection pending key =
     (case position (\<lambda>existing. pi_key existing = key) pending of
        None \<Rightarrow> (None, pending)
      | Some i \<Rightarrow> remove_at i pending)"

subsection \<open>Bounded queues with keys\<close>

definition fifo_ok :: "('q \<Rightarrow> 'k) \<Rightarrow> nat \<Rightarrow> 'q list \<Rightarrow> bool" where
  "fifo_ok key cap qs \<longleftrightarrow> distinct (map key qs) \<and> length qs \<le> cap"

datatype ('q, 'k) queue_op = Track 'q | Take 'k

fun op_key :: "('q \<Rightarrow> 'k) \<Rightarrow> ('q, 'k) queue_op \<Rightarrow> 'k" where
  "op_key key (Track q) = key q"
| "op_key key (Take k) = k"

fun is_track :: "('q, 'k) queue_op \<Rightarrow> bool" where
  "is_track (Track q) = True"
| "is_track (Take k) = False"

locale keyed_fifo =
  fixes key :: "'q \<Rightarrow> 'k"
    and cap :: nat
    and track :: "'q \<Rightarrow> 'q list \<Rightarrow> 'q list"
    and answer :: "'k \<Rightarrow> 'q list \<Rightarrow> 'q option \<times> 'q list"
  assumes track_law: "fifo_ok key cap qs \<Longrightarrow>
      track q qs = (let xs = filter (\<lambda>p. key p \<noteq> key q) qs @ [q] in drop (length xs - cap) xs)"
    and answer_law: "fifo_ok key cap qs \<Longrightarrow>
      answer k qs = (find (\<lambda>p. key p = k) qs, filter (\<lambda>p. key p \<noteq> k) qs)"
    and cap_pos: "0 < cap"
begin

fun run :: "('q, 'k) queue_op \<Rightarrow> 'q list \<Rightarrow> 'q list" where
  "run (Track q) qs = track q qs"
| "run (Take k) qs = snd (answer k qs)"

lemma track_ok: "fifo_ok key cap qs \<Longrightarrow> fifo_ok key cap (track q qs)"
proof -
  assume ok: "fifo_ok key cap qs"
  let ?xs = "filter (\<lambda>p. key p \<noteq> key q) qs @ [q]"
  have "distinct (map key ?xs)" using ok by (auto simp: fifo_ok_def distinct_map_filter)
  then have "distinct (map key (drop (length ?xs - cap) ?xs))"
    by (metis distinct_drop drop_map)
  then show ?thesis unfolding track_law [OF ok] Let_def fifo_ok_def by simp
qed

lemma answer_ok: "fifo_ok key cap qs \<Longrightarrow> fifo_ok key cap (snd (answer k qs))"
  by (auto simp: answer_law fifo_ok_def distinct_map_filter intro: order_trans [OF length_filter_le])

lemma run_ok: "fifo_ok key cap qs \<Longrightarrow> fifo_ok key cap (run x qs)"
  by (cases x) (simp_all add: track_ok answer_ok)

lemma runs_ok: "fifo_ok key cap qs \<Longrightarrow> fifo_ok key cap (fold run xs qs)"
  by (induction xs arbitrary: qs) (simp_all add: run_ok)

text \<open>\<open>behind qs k n\<close>: at most \<open>n\<close> entries came after the one with key \<open>k\<close>, and it is \<open>q\<close>.\<close>

definition behind :: "'q list \<Rightarrow> 'q \<Rightarrow> nat \<Rightarrow> bool" where
  "behind qs q n \<longleftrightarrow> (\<exists>a b. qs = a @ q # b \<and> length b \<le> n)"

lemma behind_track: "fifo_ok key cap qs \<Longrightarrow> behind (track q qs) q 0"
proof -
  assume ok: "fifo_ok key cap qs"
  let ?a = "filter (\<lambda>p. key p \<noteq> key q) qs"
  have "length (?a @ [q]) - cap \<le> length ?a" using cap_pos by simp
  then have "track q qs = drop (length (?a @ [q]) - cap) ?a @ [q]"
    by (simp add: track_law [OF ok] Let_def)
  then show ?thesis by (auto simp: behind_def)
qed

lemma behind_step:
  assumes ok: "fifo_ok key cap qs" and b: "behind qs q n" and other: "op_key key x \<noteq> key q"
    and room: "n + (if is_track x then 1 else 0) < cap"
  shows "behind (run x qs) q (n + (if is_track x then 1 else 0))"
proof -
  obtain a c where qs: "qs = a @ q # c" "length c \<le> n" using b by (auto simp: behind_def)
  show ?thesis
  proof (cases x)
    case (Track p)
    let ?a = "filter (\<lambda>r. key r \<noteq> key p) a" and ?c = "filter (\<lambda>r. key r \<noteq> key p) c"
    have xs: "filter (\<lambda>r. key r \<noteq> key p) qs @ [p] = ?a @ q # ?c @ [p]" using other Track qs(1) by simp
    have len: "length ?c \<le> n" using qs(2) by (meson length_filter_le order_trans)
    then have "length (?a @ q # ?c @ [p]) - cap \<le> length ?a" using room Track by simp
    then have "run x qs = drop (length (?a @ q # ?c @ [p]) - cap) ?a @ q # ?c @ [p]"
      using Track by (simp add: track_law [OF ok] Let_def xs del: filter_append)
    then show ?thesis using len Track unfolding behind_def by (intro exI [of _ "?c @ [p]"] exI) simp
  next
    case (Take k)
    then have "run x qs = filter (\<lambda>r. key r \<noteq> k) a @ q # filter (\<lambda>r. key r \<noteq> k) c"
      using other qs(1) ok by (simp add: answer_law)
    moreover have "length (filter (\<lambda>r. key r \<noteq> k) c) \<le> n" using qs(2) by (meson length_filter_le order_trans)
    ultimately show ?thesis using Take unfolding behind_def by auto
  qed
qed

lemma behind_runs:
  assumes "fifo_ok key cap qs" "behind qs q n" "\<forall>x \<in> set xs. op_key key x \<noteq> key q"
    and "n + length (filter is_track xs) < cap"
  shows "behind (fold run xs qs) q (n + length (filter is_track xs))"
  using assms
proof (induction xs arbitrary: qs n)
  case (Cons x xs)
  then have "behind (run x qs) q (n + (if is_track x then 1 else 0))" by (intro behind_step) auto
  with Cons.IH [OF run_ok [OF Cons.prems(1)] this] Cons.prems show ?case by (simp split: if_splits)
qed simp

lemma behind_answer:
  assumes "fifo_ok key cap qs" "behind qs q n"
  shows "fst (answer (key q) qs) = Some q" "fst (answer (key q) (snd (answer (key q) qs))) = None"
proof -
  obtain a c where qs: "qs = a @ q # c" using assms(2) by (auto simp: behind_def)
  have "\<forall>r \<in> set a. key r \<noteq> key q" using assms(1) unfolding fifo_ok_def qs by (metis UnI1 disjoint_iff distinct_append image_eqI list.set_intros(1) map_append set_map)
  then have "find (\<lambda>p. key p = key q) (a @ q # c) = Some q" by (induction a) auto
  then show "fst (answer (key q) qs) = Some q" by (simp add: answer_law [OF assms(1)]) (simp add: qs)
  show "fst (answer (key q) (snd (answer (key q) qs))) = None"
  proof -
    have r: "snd (answer (key q) qs) = filter (\<lambda>p. key p \<noteq> key q) qs" by (simp add: answer_law [OF assms(1)])
    then have ok: "fifo_ok key cap (filter (\<lambda>p. key p \<noteq> key q) qs)" using answer_ok [OF assms(1), of "key q"] by simp
    show ?thesis unfolding r answer_law [OF ok] by (simp add: find_None_iff)
  qed
qed

text \<open>A request is answered exactly once, unless too many newer ones are unanswered.\<close>

lemma answered_once:
  assumes "fifo_ok key cap qs" "\<forall>x \<in> set xs. op_key key x \<noteq> key q" "length (filter is_track xs) < cap"
  shows "fst (answer (key q) (fold run xs (track q qs))) = Some q"
    and "fst (answer (key q) (snd (answer (key q) (fold run xs (track q qs))))) = None"
  using behind_answer [OF runs_ok [OF track_ok [OF assms(1)]] behind_runs [OF track_ok behind_track]] assms
  by auto

end

subsection \<open>Both queues implement the contract\<close>

lemma position_filter:
  assumes "distinct (map key qs)"
  shows "(case position (\<lambda>p. key p = k) qs of Some i \<Rightarrow> snd (remove_at i qs) | None \<Rightarrow> qs) =
      filter (\<lambda>p. key p \<noteq> k) qs"
    and "(case position (\<lambda>p. key p = k) qs of Some i \<Rightarrow> fst (remove_at i qs) | None \<Rightarrow> None) =
      find (\<lambda>p. key p = k) qs"
    and "position (\<lambda>p. key p = k) qs = None \<longleftrightarrow> k \<notin> key ` set qs"
  using assms
proof (induction qs)
  case (Cons x qs)
  { case 1
    have "key p \<noteq> key x" if "p \<in> set qs" for p using 1 that by (metis distinct.simps(2) image_eqI list.set_map list.simps(9))
    then have "key x = k \<Longrightarrow> filter (\<lambda>p. key p \<noteq> k) qs = qs" by (auto simp: filter_id_conv)
    with Cons(1) 1 show ?case by (auto simp: remove_at_def split: option.splits) }
  { case 2 with Cons(2) show ?case by (auto simp: remove_at_def split: option.splits) }
  { case 3 with Cons(3) show ?case by auto }
qed simp_all

lemma evict_drop:
  "length xs \<le> Suc cap \<Longrightarrow> (if cap < length xs then snd (pop_front xs) else xs) = drop (length xs - cap) xs"
proof (cases "cap < length xs")
  case True
  assume "length xs \<le> Suc cap"
  with True have one: "length xs - cap = 1" by simp
  then obtain x r where "xs = x # r" by (cases xs) auto
  with True one show ?thesis by (simp add: pop_front_def)
qed simp

lemma find_key: "find (\<lambda>p. p = k) qs = (if k \<in> set qs then Some k else None)"
  by (induction qs) auto

definition track_key :: "string \<Rightarrow> string list \<Rightarrow> string list" where
  "track_key key pending = snd (track_pending pending key)"

definition answer_key :: "string \<Rightarrow> string list \<Rightarrow> string option \<times> string list" where
  "answer_key key pending =
     (if fst (take_pending pending key) then Some key else None, snd (take_pending pending key))"

definition track_entry :: "PendingInspection \<Rightarrow> PendingInspection list \<Rightarrow> PendingInspection list" where
  "track_entry q pending = snd (track_inspection pending q)"

definition answer_entry ::
  "string \<Rightarrow> PendingInspection list \<Rightarrow> PendingInspection option \<times> PendingInspection list" where
  "answer_entry key pending = take_inspection pending key"

interpretation pend: keyed_fifo "\<lambda>k. k" MAX_PENDING_TOOLS_LIST track_key answer_key
proof unfold_locales
  fix q k :: string and qs :: "string list"
  assume ok: "fifo_ok (\<lambda>k. k) MAX_PENDING_TOOLS_LIST qs"
  then have d: "distinct (map (\<lambda>k. k) qs)" and len: "length qs \<le> MAX_PENDING_TOOLS_LIST"
    by (simp_all add: fifo_ok_def)
  let ?xs = "filter (\<lambda>p. p \<noteq> q) qs @ [q]"
  have "length ?xs \<le> Suc MAX_PENDING_TOOLS_LIST" using len by (simp add: le_trans [OF length_filter_le])
  from evict_drop [OF this] show "track_key q qs = (let xs = filter (\<lambda>p. p \<noteq> q) qs @ [q] in
      drop (length xs - MAX_PENDING_TOOLS_LIST) xs)"
    unfolding track_key_def track_pending_def position_filter(1) [OF d] Let_def by (simp split: if_splits)
  show "answer_key k qs = (find (\<lambda>p. p = k) qs, filter (\<lambda>p. p \<noteq> k) qs)"
    using position_filter [OF d, of k]
    by (cases "position (\<lambda>p. p = k) qs") (auto simp: answer_key_def take_pending_def find_key)
qed (simp add: MAX_PENDING_TOOLS_LIST_def)

interpretation insp: keyed_fifo pi_key MAX_PENDING_TOOLS_LIST track_entry answer_entry
proof unfold_locales
  fix q :: PendingInspection and k :: string and qs :: "PendingInspection list"
  assume ok: "fifo_ok pi_key MAX_PENDING_TOOLS_LIST qs"
  then have d: "distinct (map pi_key qs)" and len: "length qs \<le> MAX_PENDING_TOOLS_LIST"
    by (simp_all add: fifo_ok_def)
  let ?xs = "filter (\<lambda>p. pi_key p \<noteq> pi_key q) qs @ [q]"
  have "length ?xs \<le> Suc MAX_PENDING_TOOLS_LIST" using len by (simp add: le_trans [OF length_filter_le])
  from evict_drop [OF this] show "track_entry q qs = (let xs = filter (\<lambda>p. pi_key p \<noteq> pi_key q) qs @ [q] in
      drop (length xs - MAX_PENDING_TOOLS_LIST) xs)"
    unfolding track_entry_def track_inspection_def position_filter(1) [OF d] Let_def by (simp split: if_splits)
  show "answer_entry k qs = (find (\<lambda>p. pi_key p = k) qs, filter (\<lambda>p. pi_key p \<noteq> k) qs)"
    using position_filter [OF d, of k]
    by (cases "position (\<lambda>p. pi_key p = k) qs")
      (auto simp: answer_entry_def take_inspection_def prod_eq_iff)
qed (simp add: MAX_PENDING_TOOLS_LIST_def)

subsection \<open>Properties\<close>

fun run_pending :: "(string, string) queue_op \<Rightarrow> string list \<Rightarrow> string list" where
  "run_pending (Track key) pending = snd (track_pending pending key)"
| "run_pending (Take key) pending = snd (take_pending pending key)"

fun run_inspection :: "(PendingInspection, string) queue_op \<Rightarrow> PendingInspection list \<Rightarrow> PendingInspection list" where
  "run_inspection (Track q) pending = snd (track_inspection pending q)"
| "run_inspection (Take key) pending = snd (take_inspection pending key)"

lemma run_pending_eq: "run_pending = pend.run"
proof (intro ext)
  show "run_pending x qs = pend.run x qs" for x qs by (cases x) (simp_all add: track_key_def answer_key_def)
qed

lemma run_inspection_eq: "run_inspection = insp.run"
proof (intro ext)
  show "run_inspection x qs = insp.run x qs" for x qs by (cases x) (simp_all add: track_entry_def answer_entry_def)
qed

text \<open>
  a tools/list request is matched with exactly one response: starting from the empty queue,
  after any history and the request itself, as long as fewer than 1,024 newer requests are
  tracked and no response or request reuses its id, the next response with its id is recognised
  as a listing, and a second one with the same id is not; and the queue never exceeds its bound
  or holds an id twice.
\<close>

theorem listing_recognised_once:
  assumes "list_all (\<lambda>x. op_key (\<lambda>k. k) x \<noteq> key) newer" "length (filter is_track newer) < MAX_PENDING_TOOLS_LIST"
  shows "(let q = fold run_pending newer (snd (track_pending (fold run_pending history []) key)) in
     fst (take_pending q key) \<and> \<not> fst (take_pending (snd (take_pending q key)) key) \<and>
     distinct q \<and> length q \<le> MAX_PENDING_TOOLS_LIST)"
proof -
  have start: "fifo_ok (\<lambda>k. k) MAX_PENDING_TOOLS_LIST (fold pend.run history [])"
    by (rule pend.runs_ok) (simp add: fifo_ok_def)
  have "\<forall>x \<in> set newer. op_key (\<lambda>k. k) x \<noteq> key" using assms(1) by (simp add: list_all_iff)
  from pend.answered_once [OF start this assms(2)] pend.runs_ok [OF pend.track_ok [OF start], of newer key]
  show ?thesis unfolding run_pending_eq
    by (simp add: answer_key_def track_key_def Let_def fifo_ok_def split: if_splits)
qed

theorem listing_recognised_once_witness:
  "(let q = fold run_pending [Track ''2'', Take ''9''] (snd (track_pending (fold run_pending [Track ''1''] []) ''1'')) in
     fst (take_pending q ''1'') \<and> \<not> fst (take_pending (snd (take_pending q ''1'')) ''1'') \<and>
     distinct q \<and> length q \<le> MAX_PENDING_TOOLS_LIST)"
  by (rule listing_recognised_once) (simp_all add: MAX_PENDING_TOOLS_LIST_def)

text \<open>
  an inspectable request is matched with exactly one response, under the kind and the tool
  name recorded for it: the next response with its key yields the entry that was tracked, the
  one after that yields none.
\<close>

theorem inspection_taken_once:
  assumes "list_all (\<lambda>x. op_key pi_key x \<noteq> pi_key entry) newer" "length (filter is_track newer) < MAX_PENDING_TOOLS_LIST"
  shows "(let q = fold run_inspection newer (snd (track_inspection (fold run_inspection history []) entry)) in
     fst (take_inspection q (pi_key entry)) = Some entry \<and>
     fst (take_inspection (snd (take_inspection q (pi_key entry))) (pi_key entry)) = None \<and>
     length q \<le> MAX_PENDING_TOOLS_LIST)"
proof -
  have start: "fifo_ok pi_key MAX_PENDING_TOOLS_LIST (fold insp.run history [])"
    by (rule insp.runs_ok) (simp add: fifo_ok_def)
  have "\<forall>x \<in> set newer. op_key pi_key x \<noteq> pi_key entry" using assms(1) by (simp add: list_all_iff)
  from insp.answered_once [OF start this assms(2)] insp.runs_ok [OF insp.track_ok [OF start], of newer entry]
  show ?thesis unfolding run_inspection_eq
    by (simp add: answer_entry_def track_entry_def Let_def fifo_ok_def)
qed

definition demo_inspection :: "string \<Rightarrow> PendingInspection" where
  "demo_inspection k = \<lparr>pi_key = k, pi_kind = ToolResult, pi_resource_id = Some ''t''\<rparr>"

theorem inspection_taken_once_witness:
  "(let q = fold run_inspection [Track (demo_inspection ''2'')] (snd (track_inspection (fold run_inspection [] []) (demo_inspection ''1''))) in
     fst (take_inspection q (pi_key (demo_inspection ''1''))) = Some (demo_inspection ''1'') \<and>
     fst (take_inspection (snd (take_inspection q (pi_key (demo_inspection ''1'')))) (pi_key (demo_inspection ''1''))) = None \<and>
     length q \<le> MAX_PENDING_TOOLS_LIST)"
  by (rule inspection_taken_once) (simp_all add: MAX_PENDING_TOOLS_LIST_def demo_inspection_def)

end
