(* ===== verification/Line_Reader.thy ===== *)
theory Line_Reader
  imports Pending
begin

section \<open>Reading lines with a bound\<close>

text \<open>
  Model of \<^verbatim>\<open>read_bounded_line\<close> in \<^verbatim>\<open>mcp-shield/src/http_transport.rs\<close>, the line reader of
  both directions of the proxy and of the HTTP bridge. A reader is what \<^verbatim>\<open>fill_buf\<close> will
  answer: the buffers in the order they arrive, where an empty buffer is an end of the stream and
  a failure is an I/O error; when the list is used up the stream has ended. \<^verbatim>\<open>consume\<close>
  shortens the first buffer.
\<close>

definition MAX_STDIN_MESSAGE_BYTES :: nat where
  "MAX_STDIN_MESSAGE_BYTES = 1024 * 1024"

definition LF :: char where "LF = CHR 0x0A"
definition CR :: char where "CR = CHR 0x0D"

datatype buffer = Filled bytes | Failed string

type_synonym reader = "buffer list"

text \<open>The bytes of one pass of the loop: up to and including a line feed, or the whole buffer.\<close>

definition consumed_of :: "bytes \<Rightarrow> nat" where
  "consumed_of available =
     (case position (\<lambda>c. c = LF) available of Some index \<Rightarrow> index + 1 | None \<Rightarrow> length available)"

definition consume :: "nat \<Rightarrow> bytes \<Rightarrow> reader \<Rightarrow> reader" where
  "consume n b r = (if n < length b then Filled (drop n b) # r else r)"

definition strip_line_end :: "bytes \<Rightarrow> bytes" where
  "strip_line_end b =
     (let b1 = butlast b in if b1 \<noteq> [] \<and> last b1 = CR then butlast b1 else b1)"

definition finish_line :: "bytes \<Rightarrow> string + string option" where
  "finish_line b =
     (if valid_utf8 b then Inr (Some b) else Inl ''stdio JSON-RPC message was not valid UTF-8'')"

text \<open>
  The loop with its buffer \<open>acc\<close>. It goes on exactly when no line feed was read, and then the
  whole buffer was consumed, so the remaining buffers get fewer.
\<close>

fun read_line_loop :: "bytes \<Rightarrow> reader \<Rightarrow> (string + string option) \<times> reader" where
  "read_line_loop acc [] = (if acc = [] then Inr None else finish_line acc, [])"
| "read_line_loop acc (Failed e # r) = (Inl ''read JSON-RPC message from stdin'', r)"
| "read_line_loop acc (Filled available # r) =
     (if available = [] then (if acc = [] then Inr None else finish_line acc, r)
      else
        (let consumed = consumed_of available in
         if MAX_STDIN_MESSAGE_BYTES < length acc + consumed
         then (Inl ''stdio JSON-RPC message exceeds 1 MiB'', Filled available # r)
         else
           (let acc' = acc @ take consumed available in
            if last acc' = LF then (finish_line (strip_line_end acc'), consume consumed available r)
            else read_line_loop acc' r)))"

definition read_bounded_line :: "reader \<Rightarrow> (string + string option) \<times> reader" where
  "read_bounded_line r = read_line_loop [] r"

subsection \<open>Framing\<close>

text \<open>The reference: the first line of a stream of bytes, whatever buffers it arrives in.\<close>

definition first_line :: "bytes \<Rightarrow> string + string option" where
  "first_line s =
     (case split_once LF s of
        None \<Rightarrow>
          if s = [] then Inr None
          else if MAX_STDIN_MESSAGE_BYTES < length s then Inl ''stdio JSON-RPC message exceeds 1 MiB''
          else finish_line s
      | Some (a, b) \<Rightarrow>
          if MAX_STDIN_MESSAGE_BYTES < length a + 1 then Inl ''stdio JSON-RPC message exceeds 1 MiB''
          else finish_line (if a \<noteq> [] \<and> last a = CR then butlast a else a))"

fun stream :: "reader \<Rightarrow> bytes" where
  "stream [] = []"
| "stream (Filled b # r) = b @ stream r"
| "stream (Failed e # r) = []"

text \<open>A stream that does not fail, in buffers that are not empty.\<close>

fun arriving :: "reader \<Rightarrow> bool" where
  "arriving [] = True"
| "arriving (Filled b # r) = (b \<noteq> [] \<and> arriving r)"
| "arriving (Failed e # r) = False"

lemma consumed_of_split:
  "split_once LF b = Some (x, y) \<Longrightarrow> consumed_of b = length x + 1"
  "split_once LF b = None \<Longrightarrow> consumed_of b = length b"
  by (induction b arbitrary: x y) (auto simp: consumed_of_def split: if_splits option.splits)

lemma split_once_append:
  "split_once d (a @ b) =
     (case split_once d a of
        Some (x, y) \<Rightarrow> Some (x, y @ b)
      | None \<Rightarrow> (case split_once d b of Some (x, y) \<Rightarrow> Some (a @ x, y) | None \<Rightarrow> None))"
  by (induction a) (auto split: option.splits)

lemma read_line_framing:
  assumes "arriving r" "LF \<notin> set acc" "length acc \<le> MAX_STDIN_MESSAGE_BYTES"
  shows "fst (read_line_loop acc r) = first_line (acc @ stream r) \<and>
    (case read_line_loop acc r of
       (Inr (Some l), r') \<Rightarrow> arriving r' \<and>
         (case split_once LF (acc @ stream r) of Some (a, b) \<Rightarrow> stream r' = b | None \<Rightarrow> r' = [])
     | (Inr None, r') \<Rightarrow> r' = []
     | _ \<Rightarrow> True)"
  using assms
proof (induction acc r rule: read_line_loop.induct)
  case (1 acc)
  then have "split_once LF acc = None" by (simp add: split_once_None)
  with 1 show ?case by (simp add: first_line_def finish_line_def)
next
  case (3 acc b r)
  let ?n = "consumed_of b"
  have acc: "split_once LF acc = None" using 3 by (simp add: split_once_None)
  have ne: "b \<noteq> []" and arr: "arriving r" using 3 by auto
  show ?case
  proof (cases "split_once LF b")
    case None
    then have nolf: "LF \<notin> set b" and n: "?n = length b"
      by (simp_all add: split_once_None consumed_of_split(2))
    then have tk: "take ?n b = b" by simp
    from nolf have last: "last (acc @ b) \<noteq> LF" using ne by (metis last_append last_in_set)
    show ?thesis
    proof (cases "MAX_STDIN_MESSAGE_BYTES < length acc + ?n")
      case True
      then have "first_line ((acc @ b) @ stream r) = Inl ''stdio JSON-RPC message exceeds 1 MiB''"
        using acc None n ne unfolding first_line_def split_once_append [of LF "acc @ b"] split_once_append [of LF acc]
        by (auto split: option.splits)
      with True show ?thesis using ne by (simp add: Let_def)
    next
      case False
      then have step: "read_line_loop acc (Filled b # r) = read_line_loop (acc @ b) r"
        using ne n last by (simp add: Let_def)
      have "fst (read_line_loop (acc @ b) r) = first_line ((acc @ b) @ stream r) \<and>
        (case read_line_loop (acc @ b) r of
           (Inr (Some l), r') \<Rightarrow> arriving r' \<and>
             (case split_once LF ((acc @ b) @ stream r) of Some (a, b) \<Rightarrow> stream r' = b | None \<Rightarrow> r' = [])
         | (Inr None, r') \<Rightarrow> r' = [] | _ \<Rightarrow> True)"
        using 3(1) [OF ne refl _ refl, unfolded tk] False last n arr 3(3) nolf by simp
      then show ?thesis unfolding step by (simp only: stream.simps append_assoc)
    qed
  next
    case (Some p)
    obtain x y where p: "p = (x, y)" by (cases p)
    have b: "b = x @ LF # y" "LF \<notin> set x" using Some p by (simp_all add: split_once_Some)
    have n: "?n = length x + 1" using Some p by (simp add: consumed_of_split(1))
    have t: "take ?n b = x @ [LF]" using b(1) n by simp
    have c: "stream (consume ?n b r) = y @ stream r" "arriving (consume ?n b r)"
      using b(1) n arr by (auto simp: consume_def)
    have sp: "split_once LF (acc @ b @ stream r) = Some (acc @ x, y @ stream r)"
      by (simp add: split_once_append acc Some p)
    show ?thesis
    proof (cases "MAX_STDIN_MESSAGE_BYTES < length acc + ?n")
      case True
      with n sp ne show ?thesis by (simp add: Let_def first_line_def)
    next
      case False
      then have step: "read_line_loop acc (Filled b # r) =
          (finish_line (strip_line_end (acc @ x @ [LF])), consume ?n b r)"
        using ne by (simp add: Let_def t)
      have "strip_line_end (acc @ x @ [LF]) = (if acc @ x \<noteq> [] \<and> last (acc @ x) = CR then butlast (acc @ x) else acc @ x)"
        unfolding strip_line_end_def Let_def append_assoc [symmetric] by (simp only: butlast_snoc)
      then have "first_line (acc @ b @ stream r) = finish_line (strip_line_end (acc @ x @ [LF]))"
        unfolding first_line_def sp using False n by simp
      then show ?thesis unfolding step using c sp by (auto simp: finish_line_def split: sum.splits option.splits)
    qed
  qed
qed simp

subsection \<open>Properties\<close>

text \<open>
  framing does not depend on how the bytes arrive: read from any buffers of a stream, the next
  line is the text up to the first line feed, without its line ending, or the rest of the
  stream; an error exactly when it has more than 1 MiB with its line feed or is not UTF-8; and
  the reader is left at the byte after the line feed.
\<close>

theorem lines_independent_of_buffers:
  "let r = map Filled (filter (\<lambda>b. b \<noteq> []) buffers) in
   fst (read_bounded_line r) = first_line (concat buffers) \<and>
   (case read_bounded_line r of
      (Inr (Some l), r') \<Rightarrow> stream r' =
         (case split_once LF (concat buffers) of Some (a, b) \<Rightarrow> b | None \<Rightarrow> [])
    | (Inr None, r') \<Rightarrow> concat buffers = []
    | _ \<Rightarrow> True)"
proof -
  let ?r = "map Filled (filter (\<lambda>b. b \<noteq> []) buffers)"
  have s: "stream ?r = concat buffers" "arriving ?r" by (induction buffers) auto
  note f = read_line_framing [OF s(2), of "[]", unfolded s(1)]
  have "concat buffers = []" if "fst (read_line_loop [] ?r) = Inr None"
    using that f by (auto simp: first_line_def finish_line_def split: option.splits if_splits)
  with f show ?thesis unfolding read_bounded_line_def
    by (fastforce simp: Let_def split: sum.splits option.splits prod.splits)
qed

end
