(* ===== verification/Json_Value.thy ===== *)
theory Json_Value
  imports Prelude
begin

section \<open>JSON values\<close>

text \<open>
  The source handles parsed JSON as \<^verbatim>\<open>serde_json::Value\<close> and matches on its six
  constructors; \<open>json\<close> has the same ones. An object is the list of its members in the
  order in which the map iterates over them, with distinct keys. Parsing and printing JSON
  text is the work of the \<^verbatim>\<open>serde_json\<close> package: where the source prints or parses, the
  model takes the printer or the parser as an argument.
\<close>

text \<open>\<^verbatim>\<open>serde_json::Number\<close>; a float is kept as the text it is printed as.\<close>

datatype jnum = PosInt nat | NegInt int | Float string

datatype json =
    JNull
  | JBool bool
  | JNum jnum
  | JStr string
  | JArr "json list"
  | JObj "(string \<times> json) list"

type_synonym jobject = "(string \<times> json) list"

subsection \<open>Accessors\<close>

text \<open>\<^verbatim>\<open>Value::get(&str)\<close>: a member of an object, nothing of any other value.\<close>

fun jget :: "json \<Rightarrow> string \<Rightarrow> json option" where
  "jget (JObj kvs) k = map_of kvs k"
| "jget _ k = None"

fun as_str :: "json \<Rightarrow> string option" where
  "as_str (JStr s) = Some s"
| "as_str _ = None"

fun as_array :: "json \<Rightarrow> json list option" where
  "as_array (JArr xs) = Some xs"
| "as_array _ = None"

fun as_object :: "json \<Rightarrow> jobject option" where
  "as_object (JObj kvs) = Some kvs"
| "as_object _ = None"

fun as_u64 :: "json \<Rightarrow> nat option" where
  "as_u64 (JNum (PosInt n)) = Some n"
| "as_u64 _ = None"

definition is_null :: "json \<Rightarrow> bool" where
  "is_null v \<longleftrightarrow> v = JNull"

definition is_string :: "json \<Rightarrow> bool" where
  "is_string v \<longleftrightarrow> as_str v \<noteq> None"

text \<open>\<^verbatim>\<open>v.get(k).and_then(Value::as_str)\<close>\<close>

definition get_str :: "json \<Rightarrow> string \<Rightarrow> string option" where
  "get_str v k = Option.bind (jget v k) as_str"

definition obj_insert :: "string \<Rightarrow> json \<Rightarrow> jobject \<Rightarrow> jobject" where
  "obj_insert k v kvs = AList.update k v kvs"

lemma as_str_Some [simp]: "as_str v = Some s \<longleftrightarrow> v = JStr s"
  by (cases v) auto

lemma as_array_Some [simp]: "as_array v = Some xs \<longleftrightarrow> v = JArr xs"
  by (cases v) auto

lemma as_object_Some [simp]: "as_object v = Some kvs \<longleftrightarrow> v = JObj kvs"
  by (cases v) auto

lemma as_object_None: "as_object v = None \<longleftrightarrow> (\<forall>kvs. v \<noteq> JObj kvs)"
  by (cases v) auto

lemma is_string_iff [simp]: "is_string v \<longleftrightarrow> (\<exists>s. v = JStr s)"
  by (cases v) (auto simp: is_string_def)

lemma jget_Some_obj: "jget v k = Some w \<Longrightarrow> \<exists>kvs. v = JObj kvs \<and> map_of kvs k = Some w"
  by (cases v) auto

lemma get_str_Some:
  "get_str v k = Some s \<longleftrightarrow> (\<exists>kvs. v = JObj kvs \<and> map_of kvs k = Some (JStr s))"
  by (cases v) (auto simp: get_str_def bind_eq_Some_conv)

lemma jget_obj_insert [simp]:
  "map_of (obj_insert k v kvs) k' = (if k' = k then Some v else map_of kvs k')"
  by (simp add: obj_insert_def update_conv)

subsection \<open>Strings inside a value\<close>

text \<open>
  \<open>leaves path v\<close> are the string leaves of a value, each with the path of object keys that
  leads to it, written the way the argument scanner writes it (\<^verbatim>\<open>.key.key\<close>).
\<close>

fun leaves :: "string \<Rightarrow> json \<Rightarrow> (string \<times> string) list" where
  "leaves path (JStr s) = [(path, s)]"
| "leaves path (JArr xs) = concat (map (leaves path) xs)"
| "leaves path (JObj kvs) = concat (map (\<lambda>(k, v). leaves (path @ ''.'' @ k) v) kvs)"
| "leaves path _ = []"

lemma leaves_member:
  "(k, v) \<in> set kvs \<Longrightarrow> x \<in> set (leaves (path @ ''.'' @ k) v) \<Longrightarrow> x \<in> set (leaves path (JObj kvs))"
  by force

text \<open>Two values with the same members up to the order of object members.\<close>

fun obj_keys :: "json \<Rightarrow> string list" where
  "obj_keys (JObj kvs) = map fst kvs"
| "obj_keys _ = []"

text \<open>Every object in the value has distinct keys, as a \<^verbatim>\<open>Map\<close> guarantees.\<close>

fun json_wf :: "json \<Rightarrow> bool" where
  "json_wf (JArr xs) = list_all json_wf xs"
| "json_wf (JObj kvs) = (distinct (map fst kvs) \<and> list_all (\<lambda>(k, v). json_wf v) kvs)"
| "json_wf _ = True"

end
