(* ===== verification/Events.thy ===== *)
theory Events
  imports Json_Value Sanitizer
begin

section \<open>Security events\<close>

text \<open>
  Model of \<^verbatim>\<open>mcp-shield/src/events.rs\<close>. Emitting an event builds the envelope, logs it and
  hands it to the outbox; the components of the model return the emissions they make as a list
  of \<open>Event\<close> records, in order, and \<open>build_shield_event\<close> is the envelope built for one of them.
  The environment is the function from variable names to values, and the event id and the
  clock are arguments. An event id is made from a digest of values that do not repeat; the
  digest is an argument.
\<close>

datatype Severity = Info | Warning | High | Critical

record Event =
  ev_type :: string
  ev_severity :: Severity
  ev_details :: json
  ev_trace :: "string option"

type_synonym env = "string \<Rightarrow> string option"

definition emit :: "string \<Rightarrow> Severity \<Rightarrow> json \<Rightarrow> Event" where
  "emit event_type severity details =
     \<lparr>ev_type = event_type, ev_severity = severity, ev_details = details, ev_trace = None\<rparr>"

definition emit_traced :: "string \<Rightarrow> Severity \<Rightarrow> json \<Rightarrow> string \<Rightarrow> Event" where
  "emit_traced event_type severity details trace =
     \<lparr>ev_type = event_type, ev_severity = severity, ev_details = details, ev_trace = Some trace\<rparr>"

text \<open>The derived serialization of a severity and of a finding.\<close>

fun severity_text :: "Severity \<Rightarrow> string" where
  "severity_text Info = ''info''"
| "severity_text Warning = ''warning''"
| "severity_text High = ''warning''"
| "severity_text Critical = ''critical''"

definition finding_json :: "finding \<Rightarrow> json" where
  "finding_json f = JObj [(''kind'', JStr (kind f)), (''pattern'', JStr (pattern f))]"

definition findings_json :: "finding list \<Rightarrow> json" where
  "findings_json fs = JArr (map finding_json fs)"

subsection \<open>Identity\<close>

definition MAX_ID_LENGTH :: nat where
  "MAX_ID_LENGTH = 128"

definition clean_id :: "string \<Rightarrow> string option" where
  "clean_id v =
     (let trimmed = trim v in
      if trimmed = [] \<or> MAX_ID_LENGTH < length (chars trimmed) \<or> has_control trimmed
      then None else Some trimmed)"

record Identity =
  tenant_id :: string
  agent_id :: "string option"
  session_id :: "string option"

definition identity :: "env \<Rightarrow> Identity" where
  "identity env =
     \<lparr>tenant_id = (case Option.bind (env ''MONOLITH_TENANT_ID'') clean_id of
                     Some t \<Rightarrow> t | None \<Rightarrow> ''default''),
      agent_id = Option.bind (env ''MONOLITH_AGENT_ID'') clean_id,
      session_id = Option.bind (env ''MONOLITH_SESSION_ID'') clean_id\<rparr>"

subsection \<open>Event ids\<close>

definition hex_byte :: "nat \<Rightarrow> string" where
  "hex_byte b = [hex_digit (b div 16), hex_digit (b mod 16)]"

definition hex_encode :: "nat list \<Rightarrow> string" where
  "hex_encode bs = concat (map hex_byte bs)"

unbundle bit_operations_syntax

text \<open>The first sixteen bytes of the digest, with the version and variant bits set.\<close>

definition uuid_of_digest :: "nat list \<Rightarrow> string" where
  "uuid_of_digest digest =
     (let b = take 16 digest;
          b = b[6 := ((b ! 6) AND 0x0F) OR 0x40];
          b = b[8 := ((b ! 8) AND 0x3F) OR 0x80];
          hex = hex_encode b
      in slice hex 0 8 @ ''-'' @ slice hex 8 12 @ ''-'' @ slice hex 12 16 @ ''-'' @
         slice hex 16 20 @ ''-'' @ slice hex 20 32)"

subsection \<open>The envelope\<close>

record ShieldEvent =
  se_event_id :: string
  se_schema_version :: nat
  se_timestamp_ms :: nat
  se_module :: string
  se_event_type :: string
  se_severity :: Severity
  se_details :: json
  se_source :: string
  se_tenant_id :: string
  se_agent_id :: "string option"
  se_session_id :: "string option"
  se_trace_id :: "string option"
  se_resource_type :: "string option"
  se_resource_id :: "string option"
  se_outcome :: string
  se_policy_version :: string

fun find_resource :: "json \<Rightarrow> (string \<times> string) list \<Rightarrow> (string \<times> string) option" where
  "find_resource details [] = None"
| "find_resource details ((resource_type, key) # rest) =
     (case Option.bind (get_str details key) clean_id of
        Some resource_id \<Rightarrow> Some (resource_type, resource_id)
      | None \<Rightarrow> find_resource details rest)"

definition event_outcome :: "string \<Rightarrow> Severity \<Rightarrow> json \<Rightarrow> string" where
  "event_outcome event_type severity details =
     (case Option.bind (case jget details ''action'' of
                          Some a \<Rightarrow> Some a | None \<Rightarrow> jget details ''action_taken'') as_str of
        Some a \<Rightarrow> a
      | None \<Rightarrow>
          if event_type = ''baseline_registered'' then ''registered''
          else if event_type = ''tools_list_changed'' then ''observed''
          else if event_type = ''analysis_error'' then ''degraded''
          else if severity = Critical then ''detected''
          else ''reported'')"

definition build_shield_event :: "env \<Rightarrow> string \<Rightarrow> nat \<Rightarrow> Event \<Rightarrow> ShieldEvent" where
  "build_shield_event env event_id now e =
     (let id = identity env;
          resource = find_resource (ev_details e)
            [(''tool'', ''tool''), (''resource'', ''resource''), (''prompt'', ''prompt''),
             (''operation'', ''operation_id'')]
      in \<lparr>se_event_id = event_id, se_schema_version = 2, se_timestamp_ms = now,
          se_module = ''mcp-shield'', se_event_type = ev_type e, se_severity = ev_severity e,
          se_details = ev_details e, se_source = ''module'', se_tenant_id = tenant_id id,
          se_agent_id = agent_id id, se_session_id = session_id id, se_trace_id = ev_trace e,
          se_resource_type = map_option fst resource, se_resource_id = map_option snd resource,
          se_outcome = event_outcome (ev_type e) (ev_severity e) (ev_details e),
          se_policy_version = ''mcp-shield/1''\<rparr>)"

subsection \<open>The envelope is well formed\<close>

lemma trim_idem_nonempty: "clean_id v = Some t \<Longrightarrow> t \<noteq> [] \<and> length (chars t) \<le> MAX_ID_LENGTH \<and> \<not> has_control t"
  by (auto simp: clean_id_def Let_def split: if_splits)

lemma identity_clean:
  "tenant_id (identity env) \<noteq> [] \<and> length (chars (tenant_id (identity env))) \<le> MAX_ID_LENGTH \<and>
   \<not> has_control (tenant_id (identity env))"
proof -
  have "length (chars ''default'') \<le> MAX_ID_LENGTH \<and> \<not> has_control ''default''"
    by (simp add: MAX_ID_LENGTH_def str_defs)
  then show ?thesis
    by (auto simp: identity_def bind_eq_Some_conv split: option.splits dest!: trim_idem_nonempty)
qed

lemma length_hex_encode [simp]: "length (hex_encode bs) = 2 * length bs"
  by (induction bs) (simp_all add: hex_encode_def hex_byte_def)

lemma hex_encode_nth:
  "i < length bs \<Longrightarrow> hex_encode bs ! (2 * i) = hex_digit (bs ! i div 16)"
proof (induction bs arbitrary: i)
  case (Cons b bs)
  then show ?case by (cases i) (simp_all add: hex_encode_def hex_byte_def)
qed simp

lemma div16: "x div 16 = drop_bit 4 (x :: nat)"
  by (simp add: drop_bit_eq_div)

lemma version_nibble: "((n AND 0x0F) OR 0x40) div 16 = (4::nat)"
  unfolding div16 drop_bit_and drop_bit_or by (simp add: drop_bit_eq_div)

lemma variant_nibble: "((n AND 0x3F) OR 0x80) div 16 \<in> {8, 9, 10, 11::nat}"
proof -
  have "(x AND 3) OR 8 \<in> {8, 9, 10, 11}" for x :: nat
  proof -
    have "x AND 3 = x mod 4" using take_bit_eq_mask [of 2 x] by (simp add: take_bit_eq_mod mask_eq_exp_minus_1)
    moreover have "x mod 4 \<in> {0, 1, 2, 3}" by auto
    ultimately show ?thesis by auto
  qed
  then show ?thesis unfolding div16 drop_bit_and drop_bit_or by (simp add: drop_bit_eq_div)
qed

lemma hex_digit_values: "hex_digit 4 = CHR ''4''" "hex_digit 8 = CHR ''8''" "hex_digit 9 = CHR ''9''"
  "hex_digit 10 = CHR ''a''" "hex_digit 11 = CHR ''b''"
  by (simp_all add: str_defs)

lemma hex_digit_variant: "k \<in> {8, 9, 10, 11} \<Longrightarrow> hex_digit k \<in> set ''89ab''"
  by (elim insertE emptyE) (simp_all add: hex_digit_values)

lemma slice_nth: "from + i < to \<Longrightarrow> to \<le> length xs \<Longrightarrow> slice xs from to ! i = xs ! (from + i)"
  by (simp add: slice_def)

lemma length_slice: "length (slice xs from to) = min (to - from) (length xs - from)"
  by (simp add: slice_def)

lemma uuid_shape:
  assumes "16 \<le> length digest"
  shows "length (uuid_of_digest digest) = 36 \<and> uuid_of_digest digest ! 14 = CHR ''4'' \<and>
    uuid_of_digest digest ! 19 \<in> set ''89ab''"
proof -
  define b where "b = (take 16 digest)[6 := ((digest ! 6) AND 0x0F) OR 0x40, 8 := ((digest ! 8) AND 0x3F) OR 0x80]"
  define hex where "hex = hex_encode b"
  have len: "length b = 16" "length hex = 32" using assms by (simp_all add: b_def hex_def)
  have uuid: "uuid_of_digest digest = slice hex 0 8 @ ''-'' @ slice hex 8 12 @ ''-'' @ slice hex 12 16 @ ''-'' @
      slice hex 16 20 @ ''-'' @ slice hex 20 32"
    using assms by (simp add: uuid_of_digest_def Let_def hex_def b_def)
  have "hex ! 12 = hex_digit (b ! 6 div 16)" "hex ! 16 = hex_digit (b ! 8 div 16)"
    using hex_encode_nth [of 6 b] hex_encode_nth [of 8 b] len by (simp_all add: hex_def)
  moreover have "b ! 6 div 16 = 4" "b ! 8 div 16 \<in> {8, 9, 10, 11}"
    using assms version_nibble [of "digest ! 6"] variant_nibble [of "digest ! 8"] by (simp_all add: b_def)
  ultimately have nibbles: "hex ! 12 = CHR ''4''" "hex ! 16 \<in> set ''89ab''"
    using hex_digit_values hex_digit_variant by simp_all
  have "uuid_of_digest digest ! 14 = hex ! 12" "uuid_of_digest digest ! 19 = hex ! 16"
    unfolding uuid using len by (simp_all add: nth_append length_slice slice_nth nth_Cons')
  then show ?thesis using nibbles len unfolding uuid by (simp add: length_slice)
qed

subsection \<open>Properties\<close>



end
