(* ===== verification/Fingerprint.thy ===== *)
theory Fingerprint
  imports Json_Value "HOL-Library.List_Lexorder"
begin

section \<open>Canonical JSON and fingerprints\<close>

text \<open>
  Model of the first part of \<^verbatim>\<open>mcp-shield/src/fingerprint.rs\<close>: the canonical form of a JSON
  value and the keyed fingerprint of a tool object. Parameters stand for code outside the
  repository: \<open>ser\<close> is \<^verbatim>\<open>serde_json::Value::to_string\<close> and \<open>mac key data\<close> the hex HMAC
  (\<open>None\<close> for a key the \<^verbatim>\<open>hmac\<close> package rejects). The lemmas show that the canonical form
  identifies exactly the values that are equal up to the order of object members.
\<close>

subsection \<open>Canonical form\<close>

fun canonicalize :: "(json \<Rightarrow> string) \<Rightarrow> json \<Rightarrow> string" where
  "canonicalize ser (JObj m) =
     ''{'' @ join_str '','' (map (\<lambda>(k, v). ser (JStr k) @ '':'' @ canonicalize ser v) (sort_key fst m)) @ ''}''"
| "canonicalize ser (JArr items) = ''['' @ join_str '','' (map (canonicalize ser) items) @ '']''"
| "canonicalize ser v = ser v"

text \<open>\<^verbatim>\<open>hmac_hex\<close> and \<^verbatim>\<open>fingerprint_tool\<close>.\<close>

definition fingerprint_tool ::
  "(string \<Rightarrow> string \<Rightarrow> string option) \<Rightarrow> (json \<Rightarrow> string) \<Rightarrow> string \<Rightarrow> json \<Rightarrow> string option" where
  "fingerprint_tool mac ser key tool = mac key (canonicalize ser tool)"

definition short :: "string \<Rightarrow> string" where
  "short hash = take (min (length hash) 16) hash"

subsection \<open>The canonical form determines the value up to the order of members\<close>

fun normalize :: "json \<Rightarrow> json" where
  "normalize (JObj m) = JObj (map (\<lambda>(k, v). (k, normalize v)) (sort_key fst m))"
| "normalize (JArr items) = JArr (map normalize items)"
| "normalize JNull = JNull"
| "normalize (JBool b) = JBool b"
| "normalize (JNum n) = JNum n"
| "normalize (JStr s) = JStr s"

fun is_atom :: "json \<Rightarrow> bool" where
  "is_atom (JObj m) = False"
| "is_atom (JArr xs) = False"
| "is_atom (JStr s) = False"
| "is_atom v = True"

definition json_punct :: "char set" where
  "json_punct = set (CHR 0x22 # '',]}:[{'')"

definition delimited :: "string \<Rightarrow> bool" where
  "delimited u \<longleftrightarrow> u = [] \<or> hd u \<in> {CHR '','', CHR '']'', CHR ''}''}"

text \<open>
  What the canonical form relies on in \<^verbatim>\<open>serde_json\<close>'s output: a string is quoted and
  escaped so that its end can be told, and null, booleans and numbers are printed as
  non-empty tokens without punctuation, different ones differently.
\<close>

definition strings_quoted :: "(json \<Rightarrow> string) \<Rightarrow> bool" where
  "strings_quoted ser \<longleftrightarrow>
     (\<forall>a. \<exists>r. ser (JStr a) = CHR 0x22 # r) \<and>
     (\<forall>a b u v. ser (JStr a) @ u = ser (JStr b) @ v \<longrightarrow> a = b \<and> u = v)"

definition atoms_plain :: "(json \<Rightarrow> string) \<Rightarrow> bool" where
  "atoms_plain ser \<longleftrightarrow>
     (\<forall>v. is_atom v \<longrightarrow> ser v \<noteq> [] \<and> set (ser v) \<inter> json_punct = {}) \<and>
     (\<forall>v w. is_atom v \<longrightarrow> is_atom w \<longrightarrow> ser v = ser w \<longrightarrow> v = w)"

definition printer_ok :: "(json \<Rightarrow> string) \<Rightarrow> bool" where
  "printer_ok ser \<longleftrightarrow> strings_quoted ser \<and> atoms_plain ser"

lemma delimited_simps [simp]:
  "delimited []" "delimited (CHR '','' # u)" "delimited (CHR '']'' # u)" "delimited (CHR ''}'' # u)"
  by (simp_all add: delimited_def)

lemma delimited_punct: "delimited u \<Longrightarrow> u = [] \<or> hd u \<in> json_punct"
  by (auto simp: delimited_def json_punct_def)

lemma ser_str_quote: "printer_ok ser \<Longrightarrow> \<exists>r. ser (JStr a) = CHR 0x22 # r"
  unfolding printer_ok_def strings_quoted_def by blast

lemma ser_str_unique:
  "printer_ok ser \<Longrightarrow> ser (JStr a) @ u = ser (JStr b) @ v \<Longrightarrow> a = b \<and> u = v"
  unfolding printer_ok_def strings_quoted_def by blast

lemma ser_atom: "printer_ok ser \<Longrightarrow> is_atom v \<Longrightarrow> ser v \<noteq> [] \<and> set (ser v) \<inter> json_punct = {}"
  unfolding printer_ok_def atoms_plain_def by blast

lemma ser_atom_inj:
  "printer_ok ser \<Longrightarrow> is_atom v \<Longrightarrow> is_atom w \<Longrightarrow> ser v = ser w \<Longrightarrow> v = w"
  unfolding printer_ok_def atoms_plain_def by blast

lemma join_str_Cons:
  "join_str sep (x # xs) = x @ (if xs = [] then [] else sep @ join_str sep xs)"
  by (cases xs) simp_all

lemma join_unique:
  assumes "\<And>x b u v. x \<in> set xs \<Longrightarrow> f x @ u = f b @ v \<Longrightarrow> D u \<Longrightarrow> D v \<Longrightarrow> g x = g b \<and> u = v"
    and start: "\<And>x. f x \<noteq> [] \<and> hd (f x) \<noteq> c"
    and D: "\<And>u. D (c # u)" "\<And>u. D (s # u)" and "c \<noteq> s"
    and "join_str [s] (map f xs) @ c # u = join_str [s] (map f ys) @ c # v"
  shows "map g xs = map g ys \<and> u = v"
  using assms(1,6)
proof (induction xs arbitrary: ys)
  case Nil
  show ?case
  proof (cases ys)
    case (Cons y ys')
    then have "c = hd (f y)" using Nil start [of y]
      by (simp add: join_str_Cons hd_append) (metis hd_append list.sel(1))
    then show ?thesis using start by metis
  qed (use Nil in simp)
next
  case (Cons x xs)
  define R where "R zs w = (if zs = [] then c # w else s # join_str [s] (map f zs) @ c # w)" for zs w
  have R: "join_str [s] (map f (z # zs)) @ c # w = f z @ R zs w" for z zs w
    by (auto simp: join_str_Cons R_def)
  have DR: "D (R zs w)" for zs w using D by (simp add: R_def)
  show ?case
  proof (cases ys)
    case Nil
    then have "f x @ R xs u = c # v" using Cons.prems(2) R [of x xs u] by simp
    then have "hd (f x) = c" using start [of x] by (metis hd_append list.sel(1))
    then show ?thesis using start by metis
  next
    case (Cons y ys')
    have "f x @ R xs u = f y @ R ys' v"
      using Cons.prems(2) R [of x xs u] R [of y ys' v] \<open>ys = y # ys'\<close> by simp
    then have *: "g x = g y" "R xs u = R ys' v"
      using Cons.prems(1) [of x] DR by auto
    have "map g xs = map g ys' \<and> u = v"
    proof (cases "xs = [] \<or> ys' = []")
      case True
      then show ?thesis using *(2) \<open>c \<noteq> s\<close> by (auto simp: R_def split: if_splits)
    next
      case False
      then have "join_str [s] (map f xs) @ c # u = join_str [s] (map f ys') @ c # v"
        using *(2) by (simp add: R_def)
      then show ?thesis using Cons.IH [OF Cons.prems(1)] by simp
    qed
    then show ?thesis using *(1) \<open>ys = y # ys'\<close> by simp
  qed
qed

text \<open>The first byte of a canonical form tells its constructor.\<close>

fun first_byte :: "json \<Rightarrow> char option" where
  "first_byte (JObj m) = Some (CHR ''{'')"
| "first_byte (JArr xs) = Some (CHR ''['')"
| "first_byte (JStr s) = Some (CHR 0x22)"
| "first_byte v = None"

lemma canonicalize_atom: "is_atom v \<Longrightarrow> canonicalize ser v = ser v"
  by (cases v) simp_all

lemma first_byte_atom: "is_atom v \<longleftrightarrow> first_byte v = None"
  by (cases v) simp_all

lemma canonicalize_first:
  assumes "printer_ok ser"
  shows "canonicalize ser v \<noteq> [] \<and>
    (case first_byte v of Some c \<Rightarrow> hd (canonicalize ser v) = c
     | None \<Rightarrow> hd (canonicalize ser v) \<notin> json_punct)"
proof (cases "is_atom v")
  case True
  then have "hd (ser v) \<notin> json_punct"
    using ser_atom [OF assms True] hd_in_set [of "ser v"] by blast
  with True show ?thesis using ser_atom [OF assms True]
    by (simp add: canonicalize_atom first_byte_atom)
next
  case False
  show ?thesis
  proof (cases v)
    case (JStr s)
    obtain r where "ser (JStr s) = CHR 0x22 # r" using ser_str_quote [OF assms, of s] ..
    then show ?thesis by (simp add: JStr)
  qed (use False in simp_all)
qed

lemma canonicalize_not_close:
  assumes "printer_ok ser"
  shows "canonicalize ser v \<noteq> [] \<and> hd (canonicalize ser v) \<noteq> CHR '']''"
proof -
  have "CHR '']'' \<in> json_punct" by (simp add: json_punct_def)
  then show ?thesis using canonicalize_first [OF assms, of v] by (cases v) auto
qed

lemma same_first_byte:
  assumes "printer_ok ser" "canonicalize ser a @ u = canonicalize ser b @ v"
  shows "first_byte a = first_byte b"
proof -
  have "hd (canonicalize ser a) = hd (canonicalize ser b)"
    using assms canonicalize_first [OF assms(1)] by (metis hd_append)
  moreover have "first_byte x = Some c \<Longrightarrow> c \<in> json_punct" for x c
    by (cases x) (auto simp: json_punct_def)
  ultimately show ?thesis
    using canonicalize_first [OF assms(1), of a] canonicalize_first [OF assms(1), of b]
    by (cases "first_byte a"; cases "first_byte b") auto
qed

lemma atom_prefix:
  assumes "set p \<inter> A = {}" "set q \<inter> A = {}" "u = [] \<or> hd u \<in> A" "v = [] \<or> hd v \<in> A"
    "p @ u = q @ v"
  shows "p = q \<and> u = v"
proof -
  have "takeWhile (\<lambda>c. c \<notin> A) (p @ u) = p" if "set p \<inter> A = {}" "u = [] \<or> hd u \<in> A" for p u
    using that by (subst takeWhile_append2) (cases u; auto)+
  from this [OF assms(1,3)] this [OF assms(2,4)] assms(5) show ?thesis by simp
qed

lemma atom_case:
  assumes ok: "printer_ok ser" and a: "is_atom a"
    and eq: "canonicalize ser a @ u = canonicalize ser b @ v" and d: "delimited u" "delimited v"
  shows "normalize a = normalize b \<and> u = v"
proof -
  have b: "is_atom b" using same_first_byte [OF ok eq] a by (simp add: first_byte_atom)
  have "ser a = ser b \<and> u = v"
    using atom_prefix [of "ser a" json_punct "ser b" u v] ser_atom [OF ok a] ser_atom [OF ok b]
      d [THEN delimited_punct] eq a b by (simp add: canonicalize_atom)
  then show ?thesis using ser_atom_inj [OF ok a b] by simp
qed

lemma canonicalize_unique:
  assumes ok: "printer_ok ser"
  shows "canonicalize ser a @ u = canonicalize ser b @ v \<Longrightarrow> delimited u \<Longrightarrow> delimited v
    \<Longrightarrow> normalize a = normalize b \<and> u = v"
proof (induction a arbitrary: b u v rule: normalize.induct)
  case (1 m)
  then obtain m' where b: "b = JObj m'" using same_first_byte [OF ok 1(2)] by (cases b) auto
  let ?f = "\<lambda>(k, v). ser (JStr k) @ '':'' @ canonicalize ser v" and ?g = "\<lambda>(k, v). (k, normalize v)"
  have "map ?g (sort_key fst m) = map ?g (sort_key fst m') \<and> u = v"
  proof (rule join_unique [where f = ?f and D = delimited and c = "CHR ''}''" and s = "CHR '',''"])
    fix x b u v
    assume x: "x \<in> set (sort_key fst m)" and eq: "?f x @ u = ?f b @ v" and d: "delimited u" "delimited v"
    obtain k w k' w' where xb: "x = (k, w)" "b = (k', w')" by (cases x; cases b) auto
    have k: "k = k' \<and> '':'' @ canonicalize ser w @ u = '':'' @ canonicalize ser w' @ v"
      by (rule ser_str_unique [OF ok]) (use eq xb in simp)
    then have "normalize w = normalize w' \<and> u = v"
      using 1(1) [OF x [unfolded xb] refl, of u w' v] d by simp
    then show "?g x = ?g b \<and> u = v" using k xb by simp
  next
    fix x
    show "?f x \<noteq> [] \<and> hd (?f x) \<noteq> CHR ''}''"
      using ser_str_quote [OF ok, of "fst x"] by (cases x) auto
  next
    show "join_str [CHR '',''] (map ?f (sort_key fst m)) @ CHR ''}'' # u =
        join_str [CHR '',''] (map ?f (sort_key fst m')) @ CHR ''}'' # v"
      using 1(2) unfolding b by simp
  qed simp_all
  then show ?case by (simp add: b)
next
  case (2 items)
  then obtain items' where b: "b = JArr items'" using same_first_byte [OF ok 2(2)] by (cases b) auto
  have "map normalize items = map normalize items' \<and> u = v"
  proof (rule join_unique [where f = "canonicalize ser" and D = delimited and c = "CHR '']''" and s = "CHR '',''"])
    show "canonicalize ser x \<noteq> [] \<and> hd (canonicalize ser x) \<noteq> CHR '']''" for x
      by (rule canonicalize_not_close [OF ok])
    show "normalize x = normalize b \<and> u = v"
      if "x \<in> set items" "canonicalize ser x @ u = canonicalize ser b @ v" "delimited u" "delimited v"
      for x b u v using 2(1) that by blast
    show "join_str [CHR '',''] (map (canonicalize ser) items) @ CHR '']'' # u =
        join_str [CHR '',''] (map (canonicalize ser) items') @ CHR '']'' # v"
      using 2(2) unfolding b by simp
  qed simp_all
  then show ?case by (simp add: b)
next
  case 3
  then show ?case by (intro atom_case [OF ok _ 3(1,2,3)]) simp
next
  case (4 x)
  then show ?case by (intro atom_case [OF ok _ 4(1,2,3)]) simp
next
  case (5 n)
  then show ?case by (intro atom_case [OF ok _ 5(1,2,3)]) simp
next
  case (6 s)
  then obtain s' where "b = JStr s'" using same_first_byte [OF ok 6(1)] by (cases b) auto
  then show ?case using 6(1) ser_str_unique [OF ok, of s u s' v] by simp
qed

text \<open>Equality of values up to the order of object members.\<close>

fun same_json :: "json \<Rightarrow> json \<Rightarrow> bool" where
  "same_json (JObj m) w = (case w of
      JObj m' \<Rightarrow> set (map fst m) = set (map fst m') \<and>
        list_all (\<lambda>(k, v). case map_of m' k of Some v' \<Rightarrow> same_json v v' | None \<Rightarrow> False) m
    | _ \<Rightarrow> False)"
| "same_json (JArr xs) w = (case w of JArr ys \<Rightarrow> list_all2 same_json xs ys | _ \<Rightarrow> False)"
| "same_json JNull w = (w = JNull)"
| "same_json (JBool b) w = (w = JBool b)"
| "same_json (JNum n) w = (w = JNum n)"
| "same_json (JStr s) w = (w = JStr s)"

lemma sorted_members_eq_iff:
  assumes "distinct (map fst m)" "distinct (map fst m')"
  shows "map (\<lambda>(k, v). (k, h v)) (sort_key fst m) = map (\<lambda>(k, v). (k, h v)) (sort_key fst m') \<longleftrightarrow>
    (\<lambda>(k, v). (k, h v)) ` set m = (\<lambda>(k, v). (k, h v)) ` set m'"
    (is "?l = ?r \<longleftrightarrow> ?L = ?R")
proof
  assume "?l = ?r"
  then have "set ?l = set ?r" by simp
  then show "?L = ?R" by simp
next
  assume eq: "?L = ?R"
  have fst: "map fst (map (\<lambda>(k, v). (k, h v)) xs) = map fst xs" for xs :: "('a \<times> 'b) list"
    by (simp add: split_beta comp_def)
  have d: "distinct (map fst (map (\<lambda>(k, v). (k, h v)) (sort_key fst m)))"
    "distinct (map fst (map (\<lambda>(k, v). (k, h v)) (sort_key fst m')))"
    unfolding fst using assms by (simp_all add: distinct_map)
  show "?l = ?r"
  proof (rule map_sorted_distinct_set_unique [where f = fst])
    show "inj_on fst (set ?l \<union> set ?r)"
      using d eq unfolding distinct_map by simp
    show "sorted (map fst ?l)" "sorted (map fst ?r)" unfolding fst by simp_all
  qed (use d eq in simp_all)
qed

lemma members_image_iff:
  assumes "distinct (map fst m)" "distinct (map fst m')"
  shows "(\<lambda>(k, v). (k, h v)) ` set m = (\<lambda>(k, v). (k, h v)) ` set m' \<longleftrightarrow>
    set (map fst m) = set (map fst m') \<and>
    (\<forall>(k, v) \<in> set m. \<exists>v'. map_of m' k = Some v' \<and> h v = h v')"
    (is "?L = ?R \<longleftrightarrow> ?S")
proof
  assume eq: "?L = ?R"
  then have "fst ` ?L = fst ` ?R" by simp
  then have "set (map fst m) = set (map fst m')" by (simp add: image_image split_beta)
  moreover have "\<exists>v'. map_of m' k = Some v' \<and> h v = h v'" if "(k, v) \<in> set m" for k v
  proof -
    from that have "(k, h v) \<in> ?R" unfolding eq [symmetric] by force
    then obtain v' where "(k, v') \<in> set m'" "h v = h v'" by auto
    then show ?thesis using assms(2) by auto
  qed
  ultimately show ?S by blast
next
  assume S: ?S
  have *: "(k, h v) \<in> ?R" if "(k, v) \<in> set m" for k v
  proof -
    from that S obtain v' where "map_of m' k = Some v'" "h v = h v'" by blast
    then show ?thesis by (force dest: map_of_SomeD)
  qed
  have **: "(k, h v') \<in> ?L" if v': "(k, v') \<in> set m'" for k v'
  proof -
    from v' S have "k \<in> set (map fst m)" by force
    then obtain v where v: "(k, v) \<in> set m" by auto
    with S obtain v'' where "map_of m' k = Some v''" "h v = h v''" by blast
    then have "h v = h v'" using v' assms(2) by simp
    then show ?thesis using v by force
  qed
  show "?L = ?R" using * ** by auto
qed

lemma normalize_eq_iff:
  "json_wf a \<Longrightarrow> json_wf b \<Longrightarrow> normalize a = normalize b \<longleftrightarrow> same_json a b"
proof (induction a arbitrary: b rule: normalize.induct)
  case (1 m)
  show ?case
  proof (cases b)
    case (JObj m')
    have d: "distinct (map fst m)" "distinct (map fst m')"
      and wf: "\<And>k v. (k, v) \<in> set m \<Longrightarrow> json_wf v" "\<And>k v. (k, v) \<in> set m' \<Longrightarrow> json_wf v"
      using 1(2,3) JObj by (auto simp: list_all_iff)
    have IH: "normalize v = normalize v' \<longleftrightarrow> same_json v v'"
      if "(k, v) \<in> set m" "map_of m' k = Some v'" for k v v'
      using 1(1) [of "(k, v)" k v v'] that wf(1) [OF that(1)] wf(2) [OF map_of_SomeD [OF that(2)]] by simp
    show ?thesis
      unfolding JObj normalize.simps json.inject sorted_members_eq_iff [OF d] members_image_iff [OF d]
      by (auto simp: list_all_iff IH split: option.splits)
  qed simp_all
next
  case (2 xs)
  show ?case
  proof (cases b)
    case (JArr ys)
    have "\<And>x y. x \<in> set xs \<Longrightarrow> y \<in> set ys \<Longrightarrow> normalize x = normalize y \<longleftrightarrow> same_json x y"
      using 2 JArr by (auto simp: list_all_iff)
    then have "list_all2 (\<lambda>x y. normalize x = normalize y) xs ys \<longleftrightarrow> list_all2 same_json xs ys"
      by (auto simp: list_all2_conv_all_nth)
    then show ?thesis unfolding JArr by (simp add: list_all2_conv_all_nth list_eq_iff_nth_eq cong: conj_cong)
  qed simp_all
next
  case 3 then show ?case by (cases b) auto
next
  case (4 x) then show ?case by (cases b) auto
next
  case (5 n) then show ?case by (cases b) auto
next
  case (6 s) then show ?case by (cases b) auto
qed

fun flat :: "(json \<Rightarrow> string) \<Rightarrow> json \<Rightarrow> string" where
  "flat ser (JObj m) = ''{'' @ join_str '','' (map (\<lambda>(k, v). ser (JStr k) @ '':'' @ flat ser v) m) @ ''}''"
| "flat ser (JArr items) = ''['' @ join_str '','' (map (flat ser) items) @ '']''"
| "flat ser v = ser v"

lemma canonicalize_flat: "canonicalize ser v = flat ser (normalize v)"
proof (induction v rule: normalize.induct)
  case (1 m)
  then have "map (\<lambda>(k, v). ser (JStr k) @ '':'' @ canonicalize ser v) (sort_key fst m) =
      map (\<lambda>(k, v). ser (JStr k) @ '':'' @ flat ser v) (map (\<lambda>(k, v). (k, normalize v)) (sort_key fst m))"
    unfolding map_map by (intro map_cong refl) auto
  then show ?case by (simp only: canonicalize.simps normalize.simps flat.simps)
next
  case (2 items)
  then show ?case by (simp add: comp_def cong: map_cong)
qed simp_all

lemma canonicalize_eq_iff:
  assumes "printer_ok ser" "json_wf a" "json_wf b"
  shows "canonicalize ser a = canonicalize ser b \<longleftrightarrow> same_json a b"
  unfolding normalize_eq_iff [OF assms(2,3), symmetric]
  using canonicalize_unique [OF assms(1), of a "[]" b "[]"] canonicalize_flat [of ser] by auto

lemma same_json_refl: "json_wf a \<Longrightarrow> same_json a a"
  using normalize_eq_iff [of a a] by simp

lemma same_json_canonicalize:
  "json_wf a \<Longrightarrow> json_wf b \<Longrightarrow> same_json a b \<Longrightarrow> canonicalize ser a = canonicalize ser b"
  using normalize_eq_iff canonicalize_flat [of ser] by metis

subsection \<open>A concrete printer\<close>

text \<open>
  A printer with the properties \<^const>\<open>printer_ok\<close> asks for.
\<close>

definition unary :: "nat list \<Rightarrow> string" where
  "unary ns = concat (map (\<lambda>n. replicate n (CHR ''x'') @ ''y'') ns)"

fun demo_ser :: "json \<Rightarrow> string" where
  "demo_ser (JStr s) = CHR 0x22 # concat (map (\<lambda>c. [CHR 0x5C, c]) s) @ [CHR 0x22]"
| "demo_ser JNull = ''n''"
| "demo_ser (JBool b) = (if b then ''t'' else ''u'')"
| "demo_ser (JNum (PosInt n)) = CHR ''p'' # unary [n]"
| "demo_ser (JNum (NegInt i)) = CHR ''m'' # unary [nat i, nat (- i)]"
| "demo_ser (JNum (Float t)) = CHR ''f'' # unary (map ord t)"
| "demo_ser _ = []"

lemma takeWhile_unary: "takeWhile (\<lambda>c. c = CHR ''x'') (replicate n (CHR ''x'') @ CHR ''y'' # r) = replicate n (CHR ''x'')"
  by (induction n) simp_all

lemma unary_inj: "unary ns = unary ms \<Longrightarrow> ns = ms"
proof (induction ns arbitrary: ms)
  case Nil
  then show ?case by (cases ms) (simp_all add: unary_def)
next
  case (Cons n ns)
  then obtain m ms' where ms: "ms = m # ms'" by (cases ms) (simp_all add: unary_def)
  have eq: "replicate n (CHR ''x'') @ CHR ''y'' # unary ns = replicate m (CHR ''x'') @ CHR ''y'' # unary ms'"
    using Cons.prems by (simp add: ms unary_def)
  then have "n = m" using takeWhile_unary [of n "unary ns"] takeWhile_unary [of m "unary ms'"]
    by (metis length_replicate)
  with eq Cons.IH ms show ?case by simp
qed

lemma set_unary: "set (unary ns) \<subseteq> {CHR ''x'', CHR ''y''}"
  by (auto simp: unary_def)

lemma demo_strings: "strings_quoted demo_ser"
proof -
  have pairs: "a = b \<and> u = v"
    if "concat (map (\<lambda>c. [CHR 0x5C, c]) a) @ CHR 0x22 # u = concat (map (\<lambda>c. [CHR 0x5C, c]) b) @ CHR 0x22 # v"
    for a b u v :: string
    using that
  proof (induction a arbitrary: b)
    case Nil
    then show ?case by (cases b) simp_all
  next
    case (Cons c a)
    then show ?case by (cases b) auto
  qed
  have "a = b \<and> u = v" if "demo_ser (JStr a) @ u = demo_ser (JStr b) @ v" for a b u v
    by (rule pairs) (use that in simp)
  then show ?thesis unfolding strings_quoted_def demo_ser.simps(1) by blast
qed

lemma int_nat_inj: "nat i = nat j \<Longrightarrow> nat (- i) = nat (- j) \<Longrightarrow> i = j" for i j :: int
proof -
  assume "nat i = nat j" "nat (- i) = nat (- j)"
  moreover have "k = int (nat k) - int (nat (- k))" for k by simp
  ultimately show "i = j" by metis
qed

lemma map_ord_inj: "map ord t = map ord u \<Longrightarrow> t = u" for t u :: string
proof -
  assume "map ord t = map ord u"
  moreover have "map char_of (map ord s) = s" for s :: string by (simp add: comp_def)
  ultimately show "t = u" by metis
qed

lemma demo_atoms: "atoms_plain demo_ser"
proof -
  have plain: "demo_ser v \<noteq> [] \<and> set (demo_ser v) \<inter> json_punct = {}" if "is_atom v" for v
  proof (cases v)
    case (JNum n)
    have "set (unary ns) \<inter> json_punct = {}" for ns
      using set_unary [of ns] by (auto simp: json_punct_def)
    then show ?thesis by (cases n) (simp_all add: JNum, simp_all add: json_punct_def)
  qed (use that in \<open>auto simp: json_punct_def\<close>)
  moreover have "v = w" if "is_atom v" "is_atom w" "demo_ser v = demo_ser w" for v w
    using that
    by (cases v rule: demo_ser.cases; cases w rule: demo_ser.cases)
      (auto split: if_splits dest!: unary_inj dest: int_nat_inj map_ord_inj)
  ultimately show ?thesis unfolding atoms_plain_def by blast
qed

lemma demo_printer: "printer_ok demo_ser"
  by (simp add: printer_ok_def demo_strings demo_atoms)

subsection \<open>Properties\<close>

text \<open>
  C39: two JSON values without duplicate members have the same canonical form exactly when they
  are equal up to the order of object members, so reordering fields never changes a
  fingerprint's input and every other change does (for a printer that quotes strings and
  prints scalars as distinct plain tokens).
\<close>

theorem canonical_form_complete:
  "printer_ok ser \<Longrightarrow> json_wf a \<Longrightarrow> json_wf b \<Longrightarrow>
    canonicalize ser a = canonicalize ser b \<longleftrightarrow> same_json a b"
  by (rule canonicalize_eq_iff)

theorem canonical_form_complete_witness:
  "canonicalize demo_ser (JObj [(''a'', JNull), (''b'', JArr [JBool True])]) =
     canonicalize demo_ser (JObj [(''b'', JArr [JBool True]), (''a'', JNull)]) \<and>
   canonicalize demo_ser (JArr [JStr ''x'', JNull]) \<noteq> canonicalize demo_ser (JArr [JNull, JStr ''x''])"
proof
  show "canonicalize demo_ser (JObj [(''a'', JNull), (''b'', JArr [JBool True])]) =
     canonicalize demo_ser (JObj [(''b'', JArr [JBool True]), (''a'', JNull)])"
    by (subst canonical_form_complete [OF demo_printer]) auto
  show "canonicalize demo_ser (JArr [JStr ''x'', JNull]) \<noteq> canonicalize demo_ser (JArr [JNull, JStr ''x''])"
    by (subst canonical_form_complete [OF demo_printer]) auto
qed

end
