(* ===== verification/Baseline.thy ===== *)
theory Baseline
  imports Fingerprint
begin

section \<open>The baseline store\<close>

text \<open>
  Model of the second part of \<^verbatim>\<open>mcp-shield/src/fingerprint.rs\<close>: the persistent store of
  trusted tool baselines with its pending and revoked entries. Parameters stand for code
  outside the repository: \<open>sha\<close> is the SHA-256 digest, \<open>parse\<close> and \<open>pretty\<close> read and print the
  store file (\<^verbatim>\<open>serde_json\<close>). What the file system answers is an argument, \<open>fs_view\<close>; log
  lines and the lock file are left out.

  The locale \<open>trust_store\<close> states what the proxy and the operator commands rely on; the
  baseline store is its interpretation. The other lemmas show that entries stay authenticated,
  what a reload merges, and when a saved store can be loaded again.
\<close>

subsection \<open>The store\<close>

record BaselineEntry =
  entry_hash :: string
  entry_description :: string
  first_seen_ms :: nat
  entry_tool :: json

datatype FirstContact = Trust | Approve

datatype Verdict = Registered | Match | Mismatch BaselineEntry

text \<open>
  The reasons for which loading or saving fails. The source keeps the rendered message of a
  failure to tell causes apart; the constructors with their arguments do so here.
\<close>

datatype store_error =
    TooLarge
  | InspectFailed
  | ReadFailed
  | NotValidJson
  | TooManyTools nat
  | TooManyPending nat
  | TooManyRevoked nat
  | BadNameLength
  | NoStoredSchema string
  | NameMismatch string
  | InconsistentDescription string
  | InvalidKey
  | HmacFailed string
  | SerializeFailed
  | CreateTempFailed
  | WriteTempFailed
  | SyncTempFailed
  | ReplaceFailed string

text \<open>
  The rendered messages, for the events that report a failure; \<open>key_err\<close> is the message of the
  \<^verbatim>\<open>hmac\<close> package.
\<close>

fun store_error_text :: "string \<Rightarrow> string \<Rightarrow> store_error \<Rightarrow> string" where
  "store_error_text key_err path TooLarge = ''baseline store '' @ path @ '' exceeds the 16777216 byte limit''"
| "store_error_text key_err path InspectFailed = ''failed to inspect baseline store '' @ path"
| "store_error_text key_err path ReadFailed = ''failed to read baseline store '' @ path"
| "store_error_text key_err path NotValidJson = ''baseline store '' @ path @ '' is not valid JSON''"
| "store_error_text key_err path (TooManyTools n) =
     ''baseline store contains '' @ show_nat n @ '' tools; maximum is 10000''"
| "store_error_text key_err path (TooManyPending n) =
     ''baseline store contains '' @ show_nat n @ '' pending tools; maximum is 10000''"
| "store_error_text key_err path (TooManyRevoked n) =
     ''baseline store contains '' @ show_nat n @ '' revoked tools; maximum is 10000''"
| "store_error_text key_err path BadNameLength = ''baseline tool names must be between 1 and 128 bytes''"
| "store_error_text key_err path (NoStoredSchema n) = ''baseline entry '' @ debug_str n @
     '' cannot be authenticated because it has no stored tool schema; recreate the baseline''"
| "store_error_text key_err path (NameMismatch n) = ''baseline entry '' @ debug_str n @
     '' does not match its stored tool name; refusing untrusted baseline''"
| "store_error_text key_err path (InconsistentDescription n) = ''baseline entry '' @ debug_str n @
     '' has inconsistent description metadata; refusing untrusted baseline''"
| "store_error_text key_err path InvalidKey = ''invalid HMAC key: '' @ key_err"
| "store_error_text key_err path (HmacFailed n) = ''baseline entry '' @ debug_str n @
     '' failed HMAC verification; the file or key changed''"
| "store_error_text key_err path SerializeFailed = ''failed to serialize baseline store''"
| "store_error_text key_err path CreateTempFailed = ''failed to create temporary baseline beside '' @ path"
| "store_error_text key_err path WriteTempFailed = ''failed to write temporary baseline store''"
| "store_error_text key_err path SyncTempFailed = ''failed to sync temporary baseline store''"
| "store_error_text key_err path (ReplaceFailed e) =
     ''failed to atomically replace baseline store '' @ path @ '': '' @ e"

record BaselineStore =
  bs_path :: string
  bs_key :: string
  bs_tools :: "(string, BaselineEntry) hashmap"
  bs_pending :: "(string, BaselineEntry) hashmap"
  bs_revoked :: "string hashset"
  bs_dirty :: bool
  bs_unpersisted :: "string hashset"
  bs_last_modified :: "nat option"
  bs_disk_digest :: "string option"
  bs_reload_failure :: "store_error option"
  bs_reload_failure_reported :: bool
  bs_persist_failure :: "store_error option"
  bs_persist_failure_reported :: bool

record BaselineFile =
  bf_tools :: "(string, BaselineEntry) hashmap"
  bf_pending :: "(string, BaselineEntry) hashmap"
  bf_revoked :: "string hashset"

definition MAX_BASELINE_BYTES :: nat where
  "MAX_BASELINE_BYTES = 16 * 1024 * 1024"

definition MAX_BASELINE_TOOLS :: nat where
  "MAX_BASELINE_TOOLS = 10000"

definition MAX_TOOL_NAME_BYTES :: nat where
  "MAX_TOOL_NAME_BYTES = 128"

subsection \<open>Loading\<close>

text \<open>
  What the file system answers when the baseline path is inspected (its size and its
  modification time) and read.
\<close>

datatype io_error = NotFound | OtherError

record fs_view =
  fv_meta :: "io_error + (nat \<times> nat option)"
  fv_read :: "io_error + string"

definition unwrap_or :: "'a option \<Rightarrow> 'a \<Rightarrow> 'a" where
  "unwrap_or x d = (case x of Some y \<Rightarrow> y | None \<Rightarrow> d)"

definition description_of :: "json \<Rightarrow> string" where
  "description_of tool = unwrap_or (get_str tool ''description'') []"

text \<open>The checks of one stored entry, in the order of the loop body.\<close>

definition entry_error ::
  "(string \<Rightarrow> string \<Rightarrow> string option) \<Rightarrow> (json \<Rightarrow> string) \<Rightarrow> string \<Rightarrow> string \<times> BaselineEntry
   \<Rightarrow> store_error option" where
  "entry_error mac ser key ne =
     (let (name, entry) = ne in
      if name = [] \<or> MAX_TOOL_NAME_BYTES < length name then Some BadNameLength
      else if is_null (entry_tool entry) then Some (NoStoredSchema name)
      else if get_str (entry_tool entry) ''name'' \<noteq> Some name then Some (NameMismatch name)
      else if description_of (entry_tool entry) \<noteq> entry_description entry
      then Some (InconsistentDescription name)
      else (case fingerprint_tool mac ser key (entry_tool entry) of
              None \<Rightarrow> Some InvalidKey
            | Some h \<Rightarrow> if h \<noteq> entry_hash entry then Some (HmacFailed name) else None))"

fun first_error :: "('a \<Rightarrow> 'e option) \<Rightarrow> 'a list \<Rightarrow> 'e option" where
  "first_error f [] = None"
| "first_error f (x # xs) = (case f x of Some e \<Rightarrow> Some e | None \<Rightarrow> first_error f xs)"

definition empty_store :: "string \<Rightarrow> string \<Rightarrow> BaselineStore" where
  "empty_store path key =
     \<lparr>bs_path = path, bs_key = key, bs_tools = [], bs_pending = [], bs_revoked = [],
      bs_dirty = False, bs_unpersisted = [], bs_last_modified = None, bs_disk_digest = None,
      bs_reload_failure = None, bs_reload_failure_reported = False,
      bs_persist_failure = None, bs_persist_failure_reported = False\<rparr>"

definition load ::
  "(string \<Rightarrow> string \<Rightarrow> string option) \<Rightarrow> (json \<Rightarrow> string) \<Rightarrow> (string \<Rightarrow> string)
   \<Rightarrow> (string \<Rightarrow> BaselineFile option) \<Rightarrow> fs_view \<Rightarrow> string \<Rightarrow> string \<Rightarrow> store_error + BaselineStore" where
  "load mac ser sha parse fs path key =
     (let continue = (\<lambda>last_modified.
        case fv_read fs of
          Inl NotFound \<Rightarrow> Inr (empty_store path key)
        | Inl OtherError \<Rightarrow> Inl ReadFailed
        | Inr raw \<Rightarrow>
            (case parse raw of
               None \<Rightarrow> Inl NotValidJson
             | Some file \<Rightarrow>
                 if MAX_BASELINE_TOOLS < length (bf_tools file)
                 then Inl (TooManyTools (length (bf_tools file)))
                 else if MAX_BASELINE_TOOLS < length (bf_pending file)
                 then Inl (TooManyPending (length (bf_pending file)))
                 else if MAX_BASELINE_TOOLS < length (bf_revoked file)
                 then Inl (TooManyRevoked (length (bf_revoked file)))
                 else
                   (case first_error (entry_error mac ser key) (bf_tools file @ bf_pending file) of
                      Some e \<Rightarrow> Inl e
                    | None \<Rightarrow> Inr ((empty_store path key)
                        \<lparr>bs_tools := bf_tools file, bs_pending := bf_pending file,
                         bs_revoked := bf_revoked file, bs_last_modified := last_modified,
                         bs_disk_digest := Some (sha raw)\<rparr>))))
      in case fv_meta fs of
           Inr (len, modified) \<Rightarrow> if MAX_BASELINE_BYTES < len then Inl TooLarge else continue modified
         | Inl NotFound \<Rightarrow> continue None
         | Inl OtherError \<Rightarrow> Inl InspectFailed)"

subsection \<open>Lookups and operator actions\<close>

definition contains :: "BaselineStore \<Rightarrow> string \<Rightarrow> bool" where
  "contains s tool_name \<longleftrightarrow> hm_contains (bs_tools s) tool_name \<and> tool_name \<notin> set (bs_unpersisted s)"

definition pending_names :: "BaselineStore \<Rightarrow> string list" where
  "pending_names s = sort (map fst (bs_pending s))"

definition is_revoked :: "BaselineStore \<Rightarrow> string \<Rightarrow> bool" where
  "is_revoked s tool_name \<longleftrightarrow> tool_name \<in> set (bs_revoked s)"

definition register_pending ::
  "nat \<Rightarrow> string \<Rightarrow> string \<Rightarrow> string \<Rightarrow> json \<Rightarrow> BaselineStore \<Rightarrow> bool \<times> BaselineStore" where
  "register_pending now tool_name hash description tool s =
     (if hm_contains (bs_pending s) tool_name then (False, s)
      else (True, s\<lparr>bs_pending := hm_insert tool_name
              \<lparr>entry_hash = hash, entry_description = description, first_seen_ms = now,
               entry_tool = tool\<rparr> (bs_pending s),
            bs_dirty := True\<rparr>))"

definition approve :: "string \<Rightarrow> BaselineStore \<Rightarrow> bool \<times> BaselineStore" where
  "approve tool_name s =
     (case hm_get (bs_pending s) tool_name of
        None \<Rightarrow> (False, s)
      | Some entry \<Rightarrow>
          (True, s\<lparr>bs_pending := hm_remove tool_name (bs_pending s),
                  bs_tools := hm_insert tool_name entry (bs_tools s),
                  bs_revoked := hs_remove tool_name (bs_revoked s),
                  bs_dirty := True\<rparr>))"

definition revoke :: "string \<Rightarrow> BaselineStore \<Rightarrow> bool \<times> BaselineStore" where
  "revoke name s =
     (case hm_get (bs_tools s) name of
        None \<Rightarrow> (False, s)
      | Some entry \<Rightarrow>
          (True, s\<lparr>bs_tools := hm_remove name (bs_tools s),
                  bs_pending := hm_or_insert name entry (bs_pending s),
                  bs_revoked := hs_insert name (bs_revoked s),
                  bs_unpersisted := hs_remove name (bs_unpersisted s),
                  bs_dirty := True\<rparr>))"

definition check ::
  "nat \<Rightarrow> string \<Rightarrow> string \<Rightarrow> string \<Rightarrow> json \<Rightarrow> BaselineStore \<Rightarrow> Verdict \<times> BaselineStore" where
  "check now tool_name hash description tool s =
     (case hm_get (bs_tools s) tool_name of
        None \<Rightarrow>
          (Registered, s\<lparr>bs_tools := hm_insert tool_name
              \<lparr>entry_hash = hash, entry_description = description, first_seen_ms = now,
               entry_tool = tool\<rparr> (bs_tools s),
            bs_unpersisted := hs_insert tool_name (bs_unpersisted s),
            bs_dirty := True\<rparr>)
      | Some entry \<Rightarrow> if entry_hash entry = hash then (Match, s) else (Mismatch entry, s))"

definition take_reload_failure :: "BaselineStore \<Rightarrow> store_error option \<times> BaselineStore" where
  "take_reload_failure s =
     (if bs_reload_failure_reported s then (None, s)
      else (case bs_reload_failure s of
              None \<Rightarrow> (None, s)
            | Some e \<Rightarrow> (Some e, s\<lparr>bs_reload_failure_reported := True\<rparr>)))"

definition take_persist_failure :: "BaselineStore \<Rightarrow> store_error option \<times> BaselineStore" where
  "take_persist_failure s =
     (if bs_persist_failure_reported s then (None, s)
      else (case bs_persist_failure s of
              None \<Rightarrow> (None, s)
            | Some e \<Rightarrow> (Some e, s\<lparr>bs_persist_failure_reported := True\<rparr>)))"

subsection \<open>Reloading and saving\<close>

text \<open>
  \<^verbatim>\<open>reload_if_changed\<close> reads the file once to compare digests and then calls \<^verbatim>\<open>load\<close>, which
  reads it again: \<open>fs\<close> and \<open>fs'\<close> are the two views.
\<close>

definition merge_tools ::
  "(string, BaselineEntry) hashmap \<Rightarrow> (string, BaselineEntry) hashmap \<Rightarrow> (string, BaselineEntry) hashmap" where
  "merge_tools mem disk = fold (\<lambda>(name, entry) m. hm_or_insert name entry m) mem disk"

definition merge_pending ::
  "(string, BaselineEntry) hashmap \<Rightarrow> (string, BaselineEntry) hashmap \<Rightarrow> (string, BaselineEntry) hashmap
   \<Rightarrow> (string, BaselineEntry) hashmap" where
  "merge_pending merged mem disk =
     fold (\<lambda>(name, entry) m. if hm_contains merged name then m else hm_or_insert name entry m) mem disk"

definition adopt :: "BaselineStore \<Rightarrow> BaselineStore \<Rightarrow> BaselineStore" where
  "adopt reloaded s =
     (if bs_dirty s
      then (let merged = merge_tools (bs_tools s) (bs_tools reloaded) in
            s\<lparr>bs_tools := merged,
              bs_pending := merge_pending merged (bs_pending s) (bs_pending reloaded),
              bs_revoked := fold hs_insert (bs_revoked s) (bs_revoked reloaded),
              bs_unpersisted := filter (\<lambda>name. \<not> hm_contains (bs_tools reloaded) name) (bs_unpersisted s)\<rparr>)
      else s\<lparr>bs_tools := bs_tools reloaded, bs_pending := bs_pending reloaded,
             bs_revoked := bs_revoked reloaded, bs_unpersisted := []\<rparr>)
     \<lparr>bs_last_modified := bs_last_modified reloaded, bs_disk_digest := bs_disk_digest reloaded\<rparr>"

definition note_reload_failure :: "store_error \<Rightarrow> BaselineStore \<Rightarrow> BaselineStore" where
  "note_reload_failure e s =
     (if bs_reload_failure s \<noteq> Some e
      then s\<lparr>bs_reload_failure := Some e, bs_reload_failure_reported := False\<rparr> else s)"

definition reload_if_changed ::
  "(string \<Rightarrow> string \<Rightarrow> string option) \<Rightarrow> (json \<Rightarrow> string) \<Rightarrow> (string \<Rightarrow> string)
   \<Rightarrow> (string \<Rightarrow> BaselineFile option) \<Rightarrow> fs_view \<Rightarrow> fs_view \<Rightarrow> BaselineStore
   \<Rightarrow> (store_error + bool) \<times> BaselineStore" where
  "reload_if_changed mac ser sha parse fs fs' s =
     (case fv_meta fs of
        Inl NotFound \<Rightarrow>
          (if bs_disk_digest s \<noteq> None
           then (Inr True, s\<lparr>bs_tools := [], bs_pending := [], bs_revoked := [], bs_unpersisted := [],
                   bs_last_modified := None, bs_disk_digest := None, bs_dirty := False\<rparr>)
           else (Inr False, s))
      | Inl OtherError \<Rightarrow> (Inl InspectFailed, s)
      | Inr (len, current_mtime) \<Rightarrow>
          (case fv_read fs of
             Inl e \<Rightarrow> (Inl ReadFailed, s)
           | Inr raw \<Rightarrow>
               if bs_disk_digest s = Some (sha raw)
               then (Inr False, s\<lparr>bs_last_modified := current_mtime\<rparr>)
               else (case load mac ser sha parse fs' (bs_path s) (bs_key s) of
                       Inl e \<Rightarrow> (Inl e, note_reload_failure e s)
                     | Inr reloaded \<Rightarrow>
                         (Inr True, adopt reloaded
                            (s\<lparr>bs_reload_failure := None, bs_reload_failure_reported := False\<rparr>)))))"

text \<open>
  \<open>outcome\<close> is what writing the temporary file and renaming it over the baseline answers: the
  step that failed, or the modification time read back. A successful write returns the text
  the file now holds.
\<close>

definition store_file :: "BaselineStore \<Rightarrow> BaselineFile" where
  "store_file s = \<lparr>bf_tools = bs_tools s, bf_pending = bs_pending s, bf_revoked = bs_revoked s\<rparr>"

definition write_store ::
  "(BaselineFile \<Rightarrow> string option) \<Rightarrow> (string \<Rightarrow> string) \<Rightarrow> store_error + nat option \<Rightarrow> BaselineStore
   \<Rightarrow> (store_error + string) \<times> BaselineStore" where
  "write_store pretty sha outcome s =
     (case pretty (store_file s) of
        None \<Rightarrow> (Inl SerializeFailed, s)
      | Some text \<Rightarrow>
          (case outcome of
             Inl e \<Rightarrow> (Inl e, s)
           | Inr modified \<Rightarrow>
               (Inr text, s\<lparr>bs_last_modified := modified, bs_disk_digest := Some (sha text),
                           bs_dirty := False, bs_unpersisted := []\<rparr>)))"

definition save ::
  "(BaselineFile \<Rightarrow> string option) \<Rightarrow> (string \<Rightarrow> string) \<Rightarrow> store_error + nat option \<Rightarrow> BaselineStore
   \<Rightarrow> (store_error + string) \<times> BaselineStore" where
  "save pretty sha outcome s =
     (case write_store pretty sha outcome s of
        (Inr text, s') \<Rightarrow>
          (Inr text, s'\<lparr>bs_persist_failure := None, bs_persist_failure_reported := False\<rparr>)
      | (Inl e, s') \<Rightarrow>
          (Inl e, if bs_persist_failure s' \<noteq> Some e
                  then s'\<lparr>bs_persist_failure := Some e, bs_persist_failure_reported := False\<rparr>
                  else s'))"

definition save_if_dirty ::
  "(BaselineFile \<Rightarrow> string option) \<Rightarrow> (string \<Rightarrow> string) \<Rightarrow> store_error + nat option \<Rightarrow> BaselineStore
   \<Rightarrow> (store_error + string option) \<times> BaselineStore" where
  "save_if_dirty pretty sha outcome s =
     (if \<not> bs_dirty s then (Inr None, s)
      else (case save pretty sha outcome s of
              (Inl e, s') \<Rightarrow> (Inl e, s')
            | (Inr text, s') \<Rightarrow> (Inr (Some text), s')))"

subsection \<open>The trust-store interface\<close>

text \<open>
  What the proxy and the operator commands rely on in a store of trusted tools, stated over
  what the store answers for a name: the trusted entry, the parked entry, and whether the
  name is revoked.
\<close>

datatype ('n, 'e) store_op = Sight 'n 'e | Park 'n 'e | Bless 'n | Withdraw 'n

fun op_name :: "('n, 'e) store_op \<Rightarrow> 'n" where
  "op_name (Sight n e) = n"
| "op_name (Park n e) = n"
| "op_name (Bless n) = n"
| "op_name (Withdraw n) = n"

fun is_operator_op :: "('n, 'e) store_op \<Rightarrow> bool" where
  "is_operator_op (Bless n) = True"
| "is_operator_op (Withdraw n) = True"
| "is_operator_op _ = False"

locale trust_store =
  fixes trusted :: "'s \<Rightarrow> 'n \<Rightarrow> 'e option"
    and parked :: "'s \<Rightarrow> 'n \<Rightarrow> 'e option"
    and withdrawn :: "'s \<Rightarrow> 'n \<Rightarrow> bool"
    and sight :: "'n \<Rightarrow> 'e \<Rightarrow> 's \<Rightarrow> 's"
    and park :: "'n \<Rightarrow> 'e \<Rightarrow> 's \<Rightarrow> 's"
    and bless :: "'n \<Rightarrow> 's \<Rightarrow> 's"
    and withdraw :: "'n \<Rightarrow> 's \<Rightarrow> 's"
  assumes trusted_sight: "trusted (sight n e s) m =
      (if m = n \<and> trusted s n = None then Some e else trusted s m)"
    and parked_sight: "parked (sight n e s) m = parked s m"
    and withdrawn_sight: "withdrawn (sight n e s) m = withdrawn s m"
    and trusted_park: "trusted (park n e s) m = trusted s m"
    and parked_park: "parked (park n e s) m =
      (if m = n \<and> parked s n = None then Some e else parked s m)"
    and withdrawn_park: "withdrawn (park n e s) m = withdrawn s m"
    and trusted_bless: "trusted (bless n s) m =
      (if m = n \<and> parked s n \<noteq> None then parked s n else trusted s m)"
    and parked_bless: "parked (bless n s) m = (if m = n then None else parked s m)"
    and withdrawn_bless: "withdrawn (bless n s) m =
      (if m = n \<and> parked s n \<noteq> None then False else withdrawn s m)"
    and trusted_withdraw: "trusted (withdraw n s) m = (if m = n then None else trusted s m)"
    and parked_withdraw: "parked (withdraw n s) m =
      (if m = n \<and> parked s n = None then trusted s n else parked s m)"
    and withdrawn_withdraw: "withdrawn (withdraw n s) m =
      (withdrawn s m \<or> (m = n \<and> trusted s n \<noteq> None))"
begin

lemmas laws = trusted_sight parked_sight withdrawn_sight trusted_park parked_park withdrawn_park
  trusted_bless parked_bless withdrawn_bless trusted_withdraw parked_withdraw withdrawn_withdraw

fun apply_op :: "('n, 'e) store_op \<Rightarrow> 's \<Rightarrow> 's" where
  "apply_op (Sight n e) s = sight n e s"
| "apply_op (Park n e) s = park n e s"
| "apply_op (Bless n) s = bless n s"
| "apply_op (Withdraw n) s = withdraw n s"

lemma trusted_step:
  "trusted s n = Some e \<Longrightarrow> is_operator_op x \<longrightarrow> op_name x \<noteq> n \<Longrightarrow> trusted (apply_op x s) n = Some e"
  by (cases x) (auto simp: laws)

lemma trusted_stable:
  assumes "trusted s n = Some e" "\<forall>x \<in> set xs. is_operator_op x \<longrightarrow> op_name x \<noteq> n"
  shows "trusted (fold apply_op xs s) n = Some e"
  using assms by (induction xs arbitrary: s) (auto simp: trusted_step)

lemma parked_first:
  assumes "parked s n = Some e" "\<forall>x \<in> set xs. x \<noteq> Bless n"
  shows "parked (fold apply_op xs s) n = Some e"
  using assms
proof (induction xs arbitrary: s)
  case (Cons x xs)
  then have "parked (apply_op x s) n = Some e" by (cases x) (auto simp: laws)
  with Cons show ?case by simp
qed simp

lemma withdrawn_sticky:
  assumes "withdrawn s n" "\<forall>x \<in> set xs. x \<noteq> Bless n"
  shows "withdrawn (fold apply_op xs s) n"
  using assms
proof (induction xs arbitrary: s)
  case (Cons x xs)
  then have "withdrawn (apply_op x s) n" by (cases x) (auto simp: laws)
  with Cons show ?case by simp
qed simp

lemma withdraw_then_bless:
  assumes "trusted s n = Some e" "parked s n = None"
  shows "trusted (bless n (withdraw n s)) n = Some e \<and> \<not> withdrawn (bless n (withdraw n s)) n"
  using assms by (simp add: laws)

end

subsection \<open>The baseline store implements the interface\<close>

definition make_entry :: "nat \<Rightarrow> string \<Rightarrow> string \<Rightarrow> json \<Rightarrow> BaselineEntry" where
  "make_entry now hash description tool =
     \<lparr>entry_hash = hash, entry_description = description, first_seen_ms = now, entry_tool = tool\<rparr>"

definition check_entry :: "string \<Rightarrow> BaselineEntry \<Rightarrow> BaselineStore \<Rightarrow> BaselineStore" where
  "check_entry n e s = snd (check (first_seen_ms e) n (entry_hash e) (entry_description e) (entry_tool e) s)"

definition park_entry :: "string \<Rightarrow> BaselineEntry \<Rightarrow> BaselineStore \<Rightarrow> BaselineStore" where
  "park_entry n e s =
     snd (register_pending (first_seen_ms e) n (entry_hash e) (entry_description e) (entry_tool e) s)"

lemma check_cases:
  "check now n h d t s =
     (case hm_get (bs_tools s) n of
        None \<Rightarrow> (Registered, s\<lparr>bs_tools := hm_insert n (make_entry now h d t) (bs_tools s),
                  bs_unpersisted := hs_insert n (bs_unpersisted s), bs_dirty := True\<rparr>)
      | Some e \<Rightarrow> (if entry_hash e = h then Match else Mismatch e, s))"
  by (auto simp: check_def make_entry_def split: option.splits)

interpretation baseline: trust_store "\<lambda>s. hm_get (bs_tools s)" "\<lambda>s. hm_get (bs_pending s)" is_revoked
  check_entry park_entry "\<lambda>n s. snd (approve n s)" "\<lambda>n s. snd (revoke n s)"
  by unfold_locales
    (auto simp: check_entry_def check_cases make_entry_def park_entry_def register_pending_def approve_def revoke_def
      is_revoked_def hm_contains_def split: option.splits)

fun run_op :: "(string, BaselineEntry) store_op \<Rightarrow> BaselineStore \<Rightarrow> BaselineStore" where
  "run_op (Sight n e) s = check_entry n e s"
| "run_op (Park n e) s = park_entry n e s"
| "run_op (Bless n) s = snd (approve n s)"
| "run_op (Withdraw n) s = snd (revoke n s)"

lemma run_op_apply_op: "run_op = baseline.apply_op"
proof (intro ext)
  show "run_op x s = baseline.apply_op x s" for x s by (cases x) simp_all
qed

subsection \<open>Authenticated entries\<close>

definition authentic ::
  "(string \<Rightarrow> string \<Rightarrow> string option) \<Rightarrow> (json \<Rightarrow> string) \<Rightarrow> string \<Rightarrow> string \<times> BaselineEntry \<Rightarrow> bool" where
  "authentic mac ser key ne \<longleftrightarrow>
     (let (n, e) = ne in n \<noteq> [] \<and> get_str (entry_tool e) ''name'' = Some n \<and>
       description_of (entry_tool e) = entry_description e \<and>
       fingerprint_tool mac ser key (entry_tool e) = Some (entry_hash e))"

definition store_authentic ::
  "(string \<Rightarrow> string \<Rightarrow> string option) \<Rightarrow> (json \<Rightarrow> string) \<Rightarrow> BaselineStore \<Rightarrow> bool" where
  "store_authentic mac ser s \<longleftrightarrow>
     list_all (authentic mac ser (bs_key s)) (bs_tools s @ bs_pending s)"

lemma entry_error_None:
  "entry_error mac ser key ne = None \<longleftrightarrow>
     authentic mac ser key ne \<and> length (fst ne) \<le> MAX_TOOL_NAME_BYTES"
  unfolding entry_error_def authentic_def Let_def is_null_def
  by (auto split: prod.splits option.splits simp: get_str_Some)

lemma first_error_None: "first_error f xs = None \<longleftrightarrow> list_all (\<lambda>x. f x = None) xs"
  by (induction xs) (auto split: option.splits)

lemma store_authentic_iff:
  "store_authentic mac ser s \<longleftrightarrow>
     (\<forall>x \<in> set (bs_tools s) \<union> set (bs_pending s). authentic mac ser (bs_key s) x)"
  by (auto simp: store_authentic_def list_all_iff)

lemma authentic_lookup:
  "store_authentic mac ser s \<Longrightarrow> hm_get (bs_tools s) n = Some e \<Longrightarrow> authentic mac ser (bs_key s) (n, e)"
  "store_authentic mac ser s \<Longrightarrow> hm_get (bs_pending s) n = Some e \<Longrightarrow> authentic mac ser (bs_key s) (n, e)"
  by (auto simp: store_authentic_iff dest!: map_of_SomeD)

lemma authentic_make_entry:
  "get_str t ''name'' = Some n \<Longrightarrow> n \<noteq> [] \<Longrightarrow> fingerprint_tool mac ser key t = Some h \<Longrightarrow>
    authentic mac ser key (n, make_entry now h (description_of t) t)"
  by (simp add: authentic_def make_entry_def)

lemma check_authentic:
  assumes "store_authentic mac ser s" "get_str t ''name'' = Some n" "n \<noteq> []"
    and "fingerprint_tool mac ser (bs_key s) t = Some h"
  shows "store_authentic mac ser (snd (check now n h (description_of t) t s))"
  using assms authentic_make_entry [OF assms(2-4)]
  by (auto simp: check_cases store_authentic_iff split: option.splits dest: set_hm_insert)

lemma register_pending_eq:
  "register_pending now n h d t s =
     (if hm_contains (bs_pending s) n then (False, s)
      else (True, s\<lparr>bs_pending := hm_insert n (make_entry now h d t) (bs_pending s), bs_dirty := True\<rparr>))"
  by (simp add: register_pending_def make_entry_def)

lemma register_pending_authentic:
  assumes "store_authentic mac ser s" "get_str t ''name'' = Some n" "n \<noteq> []"
    and "fingerprint_tool mac ser (bs_key s) t = Some h"
  shows "store_authentic mac ser (snd (register_pending now n h (description_of t) t s))"
  using assms authentic_make_entry [OF assms(2-4)]
  by (auto simp: register_pending_eq store_authentic_iff dest: set_hm_insert)

lemma approve_authentic: "store_authentic mac ser s \<Longrightarrow> store_authentic mac ser (snd (approve n s))"
  by (auto simp: approve_def store_authentic_iff split: option.splits
        dest: set_hm_insert set_hm_remove map_of_SomeD)

lemma revoke_authentic: "store_authentic mac ser s \<Longrightarrow> store_authentic mac ser (snd (revoke n s))"
  by (auto simp: revoke_def store_authentic_iff split: option.splits
        dest: set_hm_or_insert set_hm_remove map_of_SomeD)

lemma save_fields:
  "bs_tools (snd (save pretty sha outcome s)) = bs_tools s"
  "bs_pending (snd (save pretty sha outcome s)) = bs_pending s"
  "bs_revoked (snd (save pretty sha outcome s)) = bs_revoked s"
  "bs_key (snd (save pretty sha outcome s)) = bs_key s"
  "bs_path (snd (save pretty sha outcome s)) = bs_path s"
  by (auto simp: save_def write_store_def split: option.splits sum.splits)

lemma save_if_dirty_fields:
  "bs_tools (snd (save_if_dirty pretty sha outcome s)) = bs_tools s"
  "bs_pending (snd (save_if_dirty pretty sha outcome s)) = bs_pending s"
  "bs_revoked (snd (save_if_dirty pretty sha outcome s)) = bs_revoked s"
  "bs_key (snd (save_if_dirty pretty sha outcome s)) = bs_key s"
  "bs_path (snd (save_if_dirty pretty sha outcome s)) = bs_path s"
  using save_fields [of pretty sha outcome s]
  by (auto simp: save_if_dirty_def split: prod.splits sum.splits)

subsection \<open>Loading\<close>

lemma load_Inr:
  assumes "load mac ser sha parse fs path key = Inr s"
  shows "store_authentic mac ser s \<and> bs_key s = key \<and> bs_path s = path \<and> \<not> bs_dirty s \<and>
    bs_unpersisted s = [] \<and> list_all (\<lambda>ne. length (fst ne) \<le> MAX_TOOL_NAME_BYTES) (bs_tools s @ bs_pending s) \<and>
    length (bs_tools s) \<le> MAX_BASELINE_TOOLS \<and> length (bs_pending s) \<le> MAX_BASELINE_TOOLS \<and>
    length (bs_revoked s) \<le> MAX_BASELINE_TOOLS"
  using assms
  by (auto simp: load_def Let_def empty_store_def store_authentic_def first_error_None entry_error_None
        list_all_iff split: sum.splits option.splits if_splits io_error.splits prod.splits)

lemma load_file:
  assumes "fv_read fs = Inr raw" "parse raw = Some f" "load mac ser sha parse fs path key = Inr s"
  shows "bs_tools s = bf_tools f \<and> bs_pending s = bf_pending f \<and> bs_revoked s = bf_revoked f \<and>
    bs_disk_digest s = Some (sha raw)"
  using assms
  by (auto simp: load_def Let_def empty_store_def split: sum.splits option.splits if_splits io_error.splits prod.splits)

lemma load_saved:
  assumes "parse txt = Some (store_file s)" "store_authentic mac ser s"
  shows "(\<exists>s'. load mac ser sha parse \<lparr>fv_meta = Inr (length txt, modified), fv_read = Inr txt\<rparr> path (bs_key s) = Inr s')
    \<longleftrightarrow> length txt \<le> MAX_BASELINE_BYTES \<and> length (bs_tools s) \<le> MAX_BASELINE_TOOLS \<and>
      length (bs_pending s) \<le> MAX_BASELINE_TOOLS \<and> length (bs_revoked s) \<le> MAX_BASELINE_TOOLS \<and>
      list_all (\<lambda>ne. length (fst ne) \<le> MAX_TOOL_NAME_BYTES) (bs_tools s @ bs_pending s)"
proof -
  have "first_error (entry_error mac ser (bs_key s)) (bs_tools s @ bs_pending s) = None \<longleftrightarrow>
      list_all (\<lambda>ne. length (fst ne) \<le> MAX_TOOL_NAME_BYTES) (bs_tools s @ bs_pending s)"
    using assms(2) unfolding first_error_None entry_error_None store_authentic_def list_all_iff by blast
  then show ?thesis
    using assms(1) by (auto simp: load_def Let_def store_file_def split: option.splits)
qed

subsection \<open>Reloading\<close>

lemma fold_or_insert_get:
  "hm_get (fold (\<lambda>(n, e) m. hm_or_insert n e m) mem disk) k =
     (case hm_get disk k of Some e \<Rightarrow> Some e | None \<Rightarrow> hm_get mem k)"
  by (induction mem arbitrary: disk) (auto split: option.splits)

lemma merge_tools_get:
  "hm_get (merge_tools mem disk) k = (case hm_get disk k of Some e \<Rightarrow> Some e | None \<Rightarrow> hm_get mem k)"
  by (simp add: merge_tools_def fold_or_insert_get)

lemma merge_pending_get:
  "hm_get (merge_pending merged mem disk) k =
     (case hm_get disk k of Some e \<Rightarrow> Some e
      | None \<Rightarrow> if hm_contains merged k then None else hm_get mem k)"
  unfolding merge_pending_def by (induction mem arbitrary: disk) (auto split: option.splits if_split_asm)

lemma set_merge_tools: "x \<in> set (merge_tools mem disk) \<Longrightarrow> x \<in> set mem \<or> x \<in> set disk"
  unfolding merge_tools_def
  by (induction mem arbitrary: disk; fastforce dest: set_hm_or_insert)

lemma set_merge_pending: "x \<in> set (merge_pending merged mem disk) \<Longrightarrow> x \<in> set mem \<or> x \<in> set disk"
  unfolding merge_pending_def
  by (induction mem arbitrary: disk; fastforce dest: set_hm_or_insert split: if_splits)

lemma set_fold_hs_insert: "set (fold hs_insert xs ys) = set xs \<union> set ys"
  by (induction xs arbitrary: ys) auto

lemma adopt_fields:
  "bs_key (adopt r s) = bs_key s" "bs_path (adopt r s) = bs_path s" "bs_dirty (adopt r s) = bs_dirty s"
  by (simp_all add: adopt_def Let_def)

lemma adopt_authentic:
  "store_authentic mac ser r \<Longrightarrow> store_authentic mac ser s \<Longrightarrow> bs_key r = bs_key s \<Longrightarrow>
    store_authentic mac ser (adopt r s)"
  by (auto simp: store_authentic_iff adopt_def Let_def dest: set_merge_tools set_merge_pending)

lemma adopt_get:
  "hm_get (bs_tools (adopt r s)) n = (case hm_get (bs_tools r) n of Some e \<Rightarrow> Some e
     | None \<Rightarrow> if bs_dirty s then hm_get (bs_tools s) n else None)"
  "is_revoked (adopt r s) n \<longleftrightarrow> is_revoked r n \<or> (bs_dirty s \<and> is_revoked s n)"
  "n \<in> set (bs_unpersisted (adopt r s)) \<longleftrightarrow>
     bs_dirty s \<and> n \<in> set (bs_unpersisted s) \<and> hm_get (bs_tools r) n = None"
  by (auto simp: adopt_def Let_def merge_tools_get is_revoked_def set_fold_hs_insert hm_contains_def
        split: option.splits)

lemma store_authentic_cong:
  "bs_tools s = bs_tools s' \<Longrightarrow> bs_pending s = bs_pending s' \<Longrightarrow> bs_key s = bs_key s' \<Longrightarrow>
    store_authentic mac ser s = store_authentic mac ser s'"
  by (simp add: store_authentic_def)

lemma reload_cases:
  assumes "reload_if_changed mac ser sha parse fs fs' s = (res, s')"
  obtains
    (Gone) "res = Inr True" "bs_tools s' = []" "bs_pending s' = []" "bs_revoked s' = []"
      "bs_unpersisted s' = []" "bs_key s' = bs_key s" "fv_meta fs = Inl NotFound"
  | (Kept) "res \<noteq> Inr True" "bs_tools s' = bs_tools s" "bs_pending s' = bs_pending s"
      "bs_revoked s' = bs_revoked s" "bs_unpersisted s' = bs_unpersisted s" "bs_key s' = bs_key s"
  | (Adopted) r where "res = Inr True" "load mac ser sha parse fs' (bs_path s) (bs_key s) = Inr r"
      "s' = adopt r (s\<lparr>bs_reload_failure := None, bs_reload_failure_reported := False\<rparr>)"
      "\<exists>l raw. fv_meta fs = Inr l \<and> fv_read fs = Inr raw"
  using assms
  by (auto simp: reload_if_changed_def note_reload_failure_def
        split: sum.splits io_error.splits if_splits prod.splits)

lemma reload_authentic:
  assumes "reload_if_changed mac ser sha parse fs fs' s = (res, s')" "store_authentic mac ser s"
  shows "store_authentic mac ser s'"
  using assms(1)
proof (cases rule: reload_cases)
  case (Adopted r)
  let ?s = "s\<lparr>bs_reload_failure := None, bs_reload_failure_reported := False\<rparr>"
  have "store_authentic mac ser ?s" using assms(2) by (simp add: store_authentic_def)
  then show ?thesis using Adopted load_Inr [OF Adopted(2)] by (auto intro: adopt_authentic)
qed (use assms(2) in \<open>simp_all add: store_authentic_def\<close>)

subsection \<open>Concrete values for the witnesses\<close>

text \<open>A keyed digest, and a tool object with its stored entry.\<close>

definition demo_mac :: "string \<Rightarrow> string \<Rightarrow> string option" where
  "demo_mac key data = Some (key @ data)"

definition demo_tool :: "string \<Rightarrow> string \<Rightarrow> json" where
  "demo_tool n d = JObj [(''name'', JStr n), (''description'', JStr d)]"

definition demo_entry :: "string \<Rightarrow> string \<Rightarrow> string \<Rightarrow> BaselineEntry" where
  "demo_entry key n d = make_entry 0 (key @ canonicalize demo_ser (demo_tool n d)) d (demo_tool n d)"

definition demo_store :: "string \<Rightarrow> string \<Rightarrow> BaselineStore" where
  "demo_store n d = (empty_store ''b.json'' ''k'')\<lparr>bs_tools := [(n, demo_entry ''k'' n d)]\<rparr>"

lemma demo_entry_authentic: "n \<noteq> [] \<Longrightarrow> authentic demo_mac demo_ser k (n, demo_entry k n d)"
  by (simp add: authentic_def demo_entry_def make_entry_def demo_tool_def get_str_def description_of_def
      fingerprint_tool_def demo_mac_def unwrap_or_def)

lemma demo_store_authentic: "n \<noteq> [] \<Longrightarrow> store_authentic demo_mac demo_ser (demo_store n d)"
  by (simp add: store_authentic_def demo_store_def empty_store_def demo_entry_authentic)

subsection \<open>Properties\<close>

text \<open>
  C6: a trusted entry never changes on its own: through any sequence of sightings, parkings and
  operator actions, the entry stored for a name stays exactly what it was unless the operator
  approves or revokes that very name; in particular a mismatching sighting never overwrites it.
\<close>

theorem baseline_stable:
  assumes "hm_get (bs_tools s) n = Some e"
    and "list_all (\<lambda>x. is_operator_op x \<longrightarrow> op_name x \<noteq> n) xs"
  shows "hm_get (bs_tools (fold run_op xs s)) n = Some e"
  using assms unfolding run_op_apply_op list_all_iff by (rule baseline.trusted_stable)

theorem baseline_stable_witness:
  "hm_get (bs_tools (fold run_op
     [Sight ''t'' (demo_entry ''k'' ''t'' ''evil''), Park ''u'' (demo_entry ''k'' ''u'' ''d''), Bless ''u'',
      Sight ''t'' (demo_entry ''k'' ''t'' ''worse'')] (demo_store ''t'' ''good''))) ''t''
   = Some (demo_entry ''k'' ''t'' ''good'')"
  by (rule baseline_stable) (simp_all add: demo_store_def)



text \<open>
  C40: loading fails closed and reloading preserves authenticity: every entry of a store that
  was loaded, whatever the file holds, has an HMAC over its complete tool object under the
  key, the tool's own name and a matching description, and after any reload, including one
  that fails, every entry held in memory still has; a failed reload changes no entry.
\<close>

theorem reload_stays_authentic:
  assumes "load mac ser sha parse fs0 path key = Inr s0"
    and "reload_if_changed mac ser sha parse fs fs' s0 = (res, s')"
  shows "store_authentic mac ser s0 \<and> store_authentic mac ser s' \<and>
    (res \<noteq> Inr True \<longrightarrow> bs_tools s' = bs_tools s0 \<and> bs_pending s' = bs_pending s0 \<and> bs_revoked s' = bs_revoked s0)"
proof (intro conjI)
  show "store_authentic mac ser s0" using load_Inr [OF assms(1)] ..
  then show "store_authentic mac ser s'" by (rule reload_authentic [OF assms(2)])
  show "res \<noteq> Inr True \<longrightarrow> bs_tools s' = bs_tools s0 \<and> bs_pending s' = bs_pending s0 \<and> bs_revoked s' = bs_revoked s0"
    using assms(2) by (cases rule: reload_cases) auto
qed

definition demo_file :: BaselineFile where
  "demo_file = store_file (demo_store ''t'' ''d'')"

definition demo_parse :: "string \<Rightarrow> BaselineFile option" where
  "demo_parse raw = (if raw = ''F'' then Some demo_file else None)"

definition demo_fs :: "string \<Rightarrow> fs_view" where
  "demo_fs raw = \<lparr>fv_meta = Inr (length raw, None), fv_read = Inr raw\<rparr>"

definition demo_loaded :: BaselineStore where
  "demo_loaded = (demo_store ''t'' ''d'')\<lparr>bs_disk_digest := Some ''F''\<rparr>"

lemma demo_load:
  "load demo_mac demo_ser (\<lambda>raw. raw) demo_parse (demo_fs ''F'') ''b.json'' ''k'' = Inr demo_loaded"
proof -
  have "first_error (entry_error demo_mac demo_ser ''k'') [(''t'', demo_entry ''k'' ''t'' ''d'')] = None"
    unfolding first_error_None by (simp add: entry_error_None demo_entry_authentic MAX_TOOL_NAME_BYTES_def)
  then show ?thesis
    by (simp add: load_def demo_fs_def demo_parse_def demo_file_def store_file_def demo_store_def
        empty_store_def MAX_BASELINE_BYTES_def MAX_BASELINE_TOOLS_def demo_loaded_def)
qed

theorem reload_stays_authentic_witness:
  "let r = reload_if_changed demo_mac demo_ser (\<lambda>raw. raw) demo_parse (demo_fs ''corrupt'') (demo_fs ''corrupt'') demo_loaded
   in fst r = Inl NotValidJson \<and> store_authentic demo_mac demo_ser (snd r) \<and> bs_tools (snd r) = bs_tools demo_loaded"
proof -
  let ?r = "reload_if_changed demo_mac demo_ser (\<lambda>raw. raw) demo_parse (demo_fs ''corrupt'') (demo_fs ''corrupt'') demo_loaded"
  have fst: "fst ?r = Inl NotValidJson"
    by (simp add: reload_if_changed_def demo_fs_def demo_loaded_def load_def demo_parse_def MAX_BASELINE_BYTES_def)
  have "?r = (fst ?r, snd ?r)" by simp
  from reload_stays_authentic [OF demo_load this] fst show ?thesis by (simp add: Let_def)
qed

text \<open>
  C37: a store that was saved can be loaded again exactly when the file is within its size
  limit, no table exceeds 10,000 entries and no name is longer than 128 bytes. Registration
  enforces none of these bounds, so this also says when the proxy writes a baseline that its
  next start refuses.
\<close>

theorem saved_store_loads_iff:
  assumes "parse txt = Some (store_file s)" "store_authentic mac ser s"
    and "save pretty sha (Inr modified) s = (Inr txt, s')"
  shows "(\<exists>s''. load mac ser sha parse \<lparr>fv_meta = Inr (length txt, modified), fv_read = Inr txt\<rparr>
        (bs_path s) (bs_key s) = Inr s'')
    \<longleftrightarrow> length txt \<le> MAX_BASELINE_BYTES \<and> length (bs_tools s) \<le> MAX_BASELINE_TOOLS \<and>
      length (bs_pending s) \<le> MAX_BASELINE_TOOLS \<and> length (bs_revoked s) \<le> MAX_BASELINE_TOOLS \<and>
      list_all (\<lambda>ne. length (fst ne) \<le> MAX_TOOL_NAME_BYTES) (bs_tools s @ bs_pending s)"
  by (rule load_saved) (rule assms)+

theorem saved_store_loads_iff_witness:
  "\<exists>s''. load demo_mac demo_ser (\<lambda>raw. raw) demo_parse \<lparr>fv_meta = Inr (length ''F'', None), fv_read = Inr ''F''\<rparr>
      (bs_path (demo_store ''t'' ''d'')) (bs_key (demo_store ''t'' ''d'')) = Inr s''"
proof (subst saved_store_loads_iff [where pretty = "\<lambda>f. Some ''F''" and s = "demo_store ''t'' ''d''"])
  show "demo_parse ''F'' = Some (store_file (demo_store ''t'' ''d''))"
    by (simp add: demo_parse_def demo_file_def)
  show "store_authentic demo_mac demo_ser (demo_store ''t'' ''d'')" by (simp add: demo_store_authentic)
  show "save (\<lambda>f. Some ''F'') (\<lambda>raw. raw) (Inr None) (demo_store ''t'' ''d'') =
      (Inr ''F'', snd (save (\<lambda>f. Some ''F'') (\<lambda>raw. raw) (Inr None) (demo_store ''t'' ''d'')))"
    by (simp add: save_def write_store_def)
qed (simp add: demo_store_def empty_store_def MAX_BASELINE_BYTES_def MAX_BASELINE_TOOLS_def MAX_TOOL_NAME_BYTES_def)

text \<open>
  what a reload of a changed file does to each name: the disk's entry wins over the one in
  memory; memory-only entries survive only if the store has unsaved changes; every revocation
  on disk takes effect; and with unsaved changes a revocation in memory survives even if the
  operator's file lifted it, so an approval made on disk is undone.
\<close>

theorem reload_merges:
  assumes "reload_if_changed mac ser sha parse fs fs' s = (Inr True, s')"
    and "fv_meta fs = Inr l" "fv_read fs' = Inr raw" "parse raw = Some f"
  shows "hm_get (bs_tools s') n = (case hm_get (bf_tools f) n of Some e \<Rightarrow> Some e
           | None \<Rightarrow> if bs_dirty s then hm_get (bs_tools s) n else None) \<and>
         (is_revoked s' n \<longleftrightarrow> n \<in> set (bf_revoked f) \<or> (bs_dirty s \<and> is_revoked s n)) \<and>
         (contains s' n \<longleftrightarrow> hm_contains (bf_tools f) n \<or> (bs_dirty s \<and> contains s n))"
  using assms(1)
proof (cases rule: reload_cases)
  case (Adopted r)
  have "bs_tools r = bf_tools f" "is_revoked r n \<longleftrightarrow> n \<in> set (bf_revoked f)"
    using load_file [OF assms(3,4) Adopted(2)] by (simp_all add: is_revoked_def)
  moreover have "is_revoked (s\<lparr>bs_reload_failure := None, bs_reload_failure_reported := False\<rparr>) n = is_revoked s n"
    by (simp add: is_revoked_def)
  ultimately show ?thesis unfolding Adopted(3)
    by (auto simp: adopt_get contains_def hm_contains_def split: option.splits)
qed (use assms(2) in auto)

theorem reload_merges_witness:
  "let s = (empty_store ''b.json'' ''k'')\<lparr>bs_revoked := [''t''], bs_dirty := True\<rparr>;
       s' = snd (reload_if_changed demo_mac demo_ser (\<lambda>raw. raw) demo_parse (demo_fs ''F'') (demo_fs ''F'') s)
   in hm_get (bs_tools s') ''t'' = Some (demo_entry ''k'' ''t'' ''d'') \<and> is_revoked s' ''t''"
proof -
  let ?s = "(empty_store ''b.json'' ''k'')\<lparr>bs_revoked := [''t''], bs_dirty := True\<rparr>"
  let ?r = "reload_if_changed demo_mac demo_ser (\<lambda>raw. raw) demo_parse (demo_fs ''F'') (demo_fs ''F'') ?s"
  have meta: "fv_meta (demo_fs ''F'') = Inr (1, None)" and read: "fv_read (demo_fs ''F'') = Inr ''F''"
    by (simp_all add: demo_fs_def)
  have "?r = (Inr True, snd ?r)"
    using demo_load by (simp add: reload_if_changed_def meta read) (simp add: empty_store_def)
  from reload_merges [OF this meta read, of demo_file "''t''"] show ?thesis
    by (simp add: demo_parse_def demo_file_def store_file_def demo_store_def empty_store_def is_revoked_def)
qed

text \<open>
  a first sighting counts as trusted only once it is on disk: right after it is registered,
  and after any failed attempt to save, \<open>contains\<close> is false for it, while a later sighting
  with another hash is already a mismatch; after a successful save it is trusted.
\<close>

theorem registration_trusted_once_saved:
  assumes "hm_get (bs_tools s) n = None"
  shows "fst (check now n h d t s) = Registered \<and>
    \<not> contains (snd (check now n h d t s)) n \<and>
    \<not> contains (snd (save_if_dirty pretty sha (Inl err) (snd (check now n h d t s)))) n \<and>
    (h' \<noteq> h \<longrightarrow> fst (check now' n h' d' t' (snd (check now n h d t s))) = Mismatch (make_entry now h d t)) \<and>
    (pretty (store_file (snd (check now n h d t s))) \<noteq> None \<longrightarrow>
      contains (snd (save_if_dirty pretty sha (Inr modified) (snd (check now n h d t s)))) n)"
  using assms
  by (auto simp: check_cases contains_def save_if_dirty_def save_def write_store_def make_entry_def
        split: option.splits)

theorem registration_trusted_once_saved_witness:
  "\<not> contains (snd (check 5 ''t'' ''h'' ''d'' JNull (empty_store ''b'' ''k''))) ''t'' \<and>
   contains (snd (save_if_dirty (\<lambda>f. Some ''F'') (\<lambda>raw. raw) (Inr None)
      (snd (check 5 ''t'' ''h'' ''d'' JNull (empty_store ''b'' ''k''))))) ''t''"
  using registration_trusted_once_saved
    [of "empty_store ''b'' ''k''" "''t''" 5 "''h''" "''d''" JNull "\<lambda>f. Some ''F''" "\<lambda>raw. raw" undefined "''h''" 0 "[]" JNull None]
  by (simp add: empty_store_def)

text \<open>
  revoking a tool while another candidate is parked under its name discards the schema the
  operator had approved: the next approval installs the parked candidate instead. Without such
  a candidate, approving restores exactly what was revoked.
\<close>

theorem approve_after_revoke:
  assumes "hm_get (bs_tools s) n = Some e"
  shows "hm_get (bs_tools (snd (approve n (snd (revoke n s))))) n =
      Some (case hm_get (bs_pending s) n of Some p \<Rightarrow> p | None \<Rightarrow> e) \<and>
    \<not> is_revoked (snd (approve n (snd (revoke n s)))) n"
  using assms by (auto simp: approve_def revoke_def is_revoked_def split: option.splits)

theorem approve_after_revoke_witness:
  "hm_get (bs_tools (snd (approve ''t'' (snd (revoke ''t''
      (snd (register_pending 1 ''t'' ''h2'' ''evil'' JNull (demo_store ''t'' ''good'')))))))) ''t''
   = Some (make_entry 1 ''h2'' ''evil'' JNull)"
  using approve_after_revoke [of "snd (register_pending 1 ''t'' ''h2'' ''evil'' JNull (demo_store ''t'' ''good''))"
      "''t''" "demo_entry ''k'' ''t'' ''good''"]
  by (simp add: register_pending_eq demo_store_def empty_store_def)

end
