(* ===== verification/Shield_Config.thy ===== *)
theory Shield_Config
  imports Events Baseline
begin

section \<open>Configuration of the shield\<close>

text \<open>
  Model of the configuration part of \<^verbatim>\<open>mcp-shield/src/proxy.rs\<close>: the mode and the
  first-contact policy read from the environment, and the variables a wrapped server must
  not inherit. The environment is a function from names to values.
\<close>

datatype ShieldMode = Monitor | Enforce

definition DEFAULT_ENV_SECRET_PREFIX :: string where
  "DEFAULT_ENV_SECRET_PREFIX = ''PBM_SECRET_''"

definition DEV_HMAC_KEY :: string where
  "DEV_HMAC_KEY = ''mcp-shield-dev-key-do-not-use-in-prod''"

definition parse_first_contact :: "string option \<Rightarrow> FirstContact \<times> string option" where
  "parse_first_contact raw =
     (case raw of
        None \<Rightarrow> (Trust, None)
      | Some r \<Rightarrow>
          (let trimmed = trim r; lower = to_ascii_lowercase trimmed in
           if lower = ''trust'' then (Trust, None)
           else if lower = ''approve'' then (Approve, None)
           else (Approve, Some trimmed)))"

definition parse_mode :: "string option \<Rightarrow> ShieldMode" where
  "parse_mode raw =
     (case raw of
        None \<Rightarrow> Enforce
      | Some r \<Rightarrow>
          (let lower = to_ascii_lowercase (trim r) in
           if lower = ''monitor'' then Monitor
           else if lower = ''enforce'' then Enforce
           else Enforce))"

record ShieldConfig =
  cfg_hmac_key :: string
  cfg_baseline_path :: string
  cfg_mode :: ShieldMode
  cfg_first_contact :: FirstContact

text \<open>\<^verbatim>\<open>ShieldConfig::from_env\<close>, with the events it emits.\<close>

definition from_env :: "env \<Rightarrow> ShieldConfig \<times> Event list" where
  "from_env env =
     (let (first_contact, invalid) = parse_first_contact (env ''MCP_SHIELD_FIRST_CONTACT'') in
      (\<lparr>cfg_hmac_key = (case env ''MCP_SHIELD_KEY'' of Some k \<Rightarrow> k | None \<Rightarrow> DEV_HMAC_KEY),
        cfg_baseline_path = (case env ''MCP_SHIELD_BASELINE'' of Some p \<Rightarrow> p | None \<Rightarrow> ''baseline_hashes.json''),
        cfg_mode = parse_mode (env ''MCP_SHIELD_MODE''),
        cfg_first_contact = first_contact\<rparr>,
       case invalid of
         None \<Rightarrow> []
       | Some v \<Rightarrow>
           [emit ''configuration_invalid'' Warning
              (JObj [(''action'', JStr ''failed_closed''), (''applied'', JStr ''approve''),
                     (''expected'', JStr ''trust|approve''), (''value'', JStr v),
                     (''variable'', JStr ''MCP_SHIELD_FIRST_CONTACT'')])]))"

subsection \<open>The environment of a wrapped server\<close>

definition SHIELD_OWNED_ENV :: "string list" where
  "SHIELD_OWNED_ENV =
    [''MCP_SHIELD_KEY'', ''MCP_SHIELD_BASELINE'', ''MCP_SHIELD_MODE'', ''MCP_SHIELD_FIRST_CONTACT'',
     ''MCP_SHIELD_SECRET_BOUNDARY_CONFIG'', ''MONOLITH_DASHBOARD_URL'', ''MONOLITH_EVENT_OUTBOX_PATH'',
     ''MONOLITH_ADMIN_TOKEN'', ''MONOLITH_OPERATOR_TOKEN'', ''MONOLITH_ALLOW_INSECURE_DASHBOARD'']"

definition SHIELD_OWNED_ENV_PREFIXES :: "string list" where
  "SHIELD_OWNED_ENV_PREFIXES = [DEFAULT_ENV_SECRET_PREFIX, ''MONOLITH_EVENT_TOKEN'']"

definition is_shield_owned_env :: "string \<Rightarrow> bool" where
  "is_shield_owned_env name =
     (let upper = to_ascii_uppercase name in
      if list_ex (starts_with upper) SHIELD_OWNED_ENV_PREFIXES then True
      else list_ex (\<lambda>owned. upper = owned) SHIELD_OWNED_ENV)"

text \<open>
  The names removed from the child's environment, and that environment; \<open>vars\<close> lists the
  variables of the process.
\<close>

definition strip_secret_env_vars :: "string list \<Rightarrow> env \<Rightarrow> string list \<times> env" where
  "strip_secret_env_vars vars env =
     (let keys = filter is_shield_owned_env vars in
      (keys, \<lambda>v. if v \<in> set keys then None else env v))"

lemma parse_first_contact_Trust:
  "fst (parse_first_contact raw) = Trust \<longleftrightarrow>
     (case raw of None \<Rightarrow> True | Some r \<Rightarrow> to_ascii_lowercase (trim r) = ''trust'')"
  unfolding parse_first_contact_def Let_def by (cases raw) simp_all

lemma is_shield_owned_env_iff:
  "is_shield_owned_env name \<longleftrightarrow>
     list_ex (starts_with (to_ascii_uppercase name)) SHIELD_OWNED_ENV_PREFIXES \<or>
     to_ascii_uppercase name \<in> set SHIELD_OWNED_ENV"
  unfolding is_shield_owned_env_def Let_def list_ex_iff by auto

lemma stripped_env:
  assumes "\<And>v x. env v = Some x \<Longrightarrow> v \<in> set vars"
  shows "snd (strip_secret_env_vars vars env) v = (if is_shield_owned_env v then None else env v)"
proof -
  have "env v = None" if "v \<notin> set vars" using assms that by (cases "env v") auto
  then show ?thesis by (simp add: strip_secret_env_vars_def Let_def)
qed

text \<open>
  configuration fails closed: first contact is trusted only when the variable is unset or
  says so, and every other value requires approval and is reported; the shield monitors only
  when the mode variable says so; and a wrapped server sees exactly the variables that are not
  the shield's own, with no HMAC key, event token, admin token or \<^verbatim>\<open>PBM_SECRET_\<close> credential.
\<close>

theorem configuration_fails_closed:
  assumes "\<And>v x. env v = Some x \<Longrightarrow> v \<in> set vars"
  shows "(cfg_first_contact (fst (from_env env)) = Trust \<longleftrightarrow>
      (case env ''MCP_SHIELD_FIRST_CONTACT'' of None \<Rightarrow> True
       | Some r \<Rightarrow> to_ascii_lowercase (trim r) = ''trust'')) \<and>
    (snd (from_env env) = [] \<longleftrightarrow>
      (case env ''MCP_SHIELD_FIRST_CONTACT'' of None \<Rightarrow> True
       | Some r \<Rightarrow> to_ascii_lowercase (trim r) \<in> {''trust'', ''approve''})) \<and>
    (cfg_mode (fst (from_env env)) = Monitor \<longleftrightarrow>
      (case env ''MCP_SHIELD_MODE'' of None \<Rightarrow> False | Some r \<Rightarrow> to_ascii_lowercase (trim r) = ''monitor'')) \<and>
    snd (strip_secret_env_vars vars env) v = (if is_shield_owned_env v then None else env v) \<and>
    snd (strip_secret_env_vars vars env) ''MCP_SHIELD_KEY'' = None \<and>
    snd (strip_secret_env_vars vars env) ''MONOLITH_EVENT_TOKEN_MCP_SHIELD'' = None \<and>
    snd (strip_secret_env_vars vars env) (''pbm_secret_'' @ w) = None"
proof -
  have owned: "is_shield_owned_env ''MCP_SHIELD_KEY''" "is_shield_owned_env ''MONOLITH_EVENT_TOKEN_MCP_SHIELD''"
      "is_shield_owned_env (''pbm_secret_'' @ w)"
    by (simp_all add: is_shield_owned_env_def SHIELD_OWNED_ENV_PREFIXES_def SHIELD_OWNED_ENV_def
        DEFAULT_ENV_SECRET_PREFIX_def str_defs)
  have fields: "cfg_first_contact (fst (from_env env)) = fst (parse_first_contact (env ''MCP_SHIELD_FIRST_CONTACT''))"
    "cfg_mode (fst (from_env env)) = parse_mode (env ''MCP_SHIELD_MODE'')"
    "snd (from_env env) = [] \<longleftrightarrow> snd (parse_first_contact (env ''MCP_SHIELD_FIRST_CONTACT'')) = None"
    by (simp_all add: from_env_def split: prod.splits option.splits)
  have invalid: "snd (parse_first_contact raw) = None \<longleftrightarrow>
      (case raw of None \<Rightarrow> True | Some r \<Rightarrow> to_ascii_lowercase (trim r) \<in> {''trust'', ''approve''})" for raw
    unfolding parse_first_contact_def Let_def by (cases raw) simp_all
  have monitor: "parse_mode raw = Monitor \<longleftrightarrow>
      (case raw of None \<Rightarrow> False | Some r \<Rightarrow> to_ascii_lowercase (trim r) = ''monitor'')" for raw
    unfolding parse_mode_def Let_def by (cases raw) simp_all
  have child: "snd (strip_secret_env_vars vars env) u = (if is_shield_owned_env u then None else env u)" for u
    using assms by (rule stripped_env)
  show ?thesis
    unfolding child fields parse_first_contact_Trust invalid monitor
    by (simp only: owned if_True simp_thms)
qed

theorem configuration_fails_closed_witness:
  "cfg_first_contact (fst (from_env (\<lambda>v. if v = ''MCP_SHIELD_FIRST_CONTACT'' then Some ''aprove'' else None))) = Approve"
proof -
  let ?env = "\<lambda>v. if v = ''MCP_SHIELD_FIRST_CONTACT'' then Some ''aprove'' else None"
  have "v \<in> set [''MCP_SHIELD_FIRST_CONTACT'']" if "?env v = Some x" for v x using that by (simp split: if_splits)
  from configuration_fails_closed [of ?env, OF this]
  have "cfg_first_contact (fst (from_env ?env)) = Trust \<longleftrightarrow> to_ascii_lowercase (trim ''aprove'') = ''trust''" by simp
  moreover have "to_ascii_lowercase (trim ''aprove'') \<noteq> ''trust''" by (simp add: str_defs)
  ultimately show ?thesis by (cases "cfg_first_contact (fst (from_env ?env))") simp_all
qed

end
