(* ===== verification/Jsonrpc.thy ===== *)
theory Jsonrpc
  imports Json_Value
begin

section \<open>JSON-RPC messages\<close>

text \<open>
  Model of \<^verbatim>\<open>mcp-shield/src/jsonrpc.rs\<close>. The message struct is a record of optional
  fields. \<^verbatim>\<open>JsonRpcMessage::parse\<close> is \<^verbatim>\<open>serde_json::from_str\<close> and printing a message is
  \<^verbatim>\<open>serde_json::to_string\<close>, so both are parameters of the definitions that use them; so is
  \<open>ser\<close>, the printer of a \<^verbatim>\<open>Value\<close>.
\<close>

record JsonRpcMessage =
  rpc_jsonrpc :: "string option"
  rpc_id :: "json option"
  rpc_method :: "string option"
  rpc_params :: "json option"
  rpc_result :: "json option"
  rpc_error :: "json option"

definition MAX_CORRELATION_ID_BYTES :: nat where
  "MAX_CORRELATION_ID_BYTES = 256"

definition MAX_LOG_FIELD_CHARS :: nat where
  "MAX_LOG_FIELD_CHARS = 128"

definition safe_log_field :: "string \<Rightarrow> string" where
  "safe_log_field v = concat (map (\<lambda>ch. if is_control ch then [CHR 0xEF, CHR 0xBF, CHR 0xBD] else ch)
     (take MAX_LOG_FIELD_CHARS (chars v)))"

fun safe_log_id :: "(json \<Rightarrow> string) \<Rightarrow> json \<Rightarrow> string" where
  "safe_log_id ser (JStr t) = ser (JStr (safe_log_field t))"
| "safe_log_id ser (JNum n) = ser (JNum n)"
| "safe_log_id ser _ = ''<invalid-id>''"

definition is_response :: "JsonRpcMessage \<Rightarrow> bool" where
  "is_response m \<longleftrightarrow> rpc_method m = None \<and> (rpc_result m \<noteq> None \<or> rpc_error m \<noteq> None)"

definition is_jsonrpc_2 :: "JsonRpcMessage \<Rightarrow> bool" where
  "is_jsonrpc_2 m \<longleftrightarrow> rpc_jsonrpc m = Some ''2.0''"

definition id_key :: "(json \<Rightarrow> string) \<Rightarrow> JsonRpcMessage \<Rightarrow> string option" where
  "id_key ser m =
     (case rpc_id m of
        None \<Rightarrow> None
      | Some v \<Rightarrow>
          (case v of
             JStr s \<Rightarrow> if length s \<le> MAX_CORRELATION_ID_BYTES then Some (ser (JStr s)) else None
           | JNum n \<Rightarrow> Some (ser (JNum n))
           | _ \<Rightarrow> None))"

definition describe :: "(json \<Rightarrow> string) \<Rightarrow> JsonRpcMessage \<Rightarrow> string" where
  "describe ser m =
     (case (rpc_method m, rpc_id m) of
        (Some meth, Some i) \<Rightarrow>
          ''request '' @ safe_log_field meth @ '' (id='' @ safe_log_id ser i @ '')''
      | (Some meth, None) \<Rightarrow> ''notification '' @ safe_log_field meth
      | (None, Some i) \<Rightarrow>
          (if rpc_error m \<noteq> None then ''error-response (id='' @ safe_log_id ser i @ '')''
           else ''response (id='' @ safe_log_id ser i @ '')'')
      | (None, None) \<Rightarrow> ''malformed (no method, no id)'')"

subsection \<open>Correlation keys\<close>

text \<open>The ids that can correlate a request with its response.\<close>

definition correlates :: "json \<Rightarrow> bool" where
  "correlates v \<longleftrightarrow> (\<exists>n. v = JNum n) \<or> (\<exists>s. v = JStr s \<and> length s \<le> MAX_CORRELATION_ID_BYTES)"

lemma id_key_Some: "id_key ser m = Some k \<longleftrightarrow> (\<exists>v. rpc_id m = Some v \<and> correlates v \<and> k = ser v)"
  by (auto simp: id_key_def correlates_def split: option.splits json.splits)

lemma id_key_None: "id_key ser m = None \<longleftrightarrow> (\<forall>v. rpc_id m = Some v \<longrightarrow> \<not> correlates v)"
  by (auto simp: id_key_def correlates_def split: option.splits json.splits)

lemma id_key_inj:
  assumes "inj ser" "id_key ser m = Some k" "id_key ser m' = Some k"
  shows "rpc_id m = rpc_id m'"
  using assms by (auto simp: id_key_Some inj_eq)

lemma id_key_cong: "rpc_id m = rpc_id m' \<Longrightarrow> id_key ser m = id_key ser m'"
  by (simp add: id_key_def)

end
