(* ===== verification/Inspect.thy ===== *)
theory Inspect
  imports Pending Shield_Config Jsonrpc
begin

section \<open>Inspection of calls and responses\<close>

text \<open>
  Model of the content inspections in \<^verbatim>\<open>mcp-shield/src/proxy.rs\<close>: the argument scan of an
  outbound \<^verbatim>\<open>tools/call\<close>, the refusal of calls from a revoked session (with the mirror of
  revoked sessions that \<^verbatim>\<open>mcp-shield/src/outbox.rs\<close> keeps), and the inspection of catalogs,
  tool results and error objects in responses. A response built locally is the JSON value that
  is printed; a rewritten response is the message that is printed.
\<close>

subsection \<open>Locally built responses\<close>

definition OUTBOUND_BLOCKED :: string where
  "OUTBOUND_BLOCKED = ''[MCP-Shield] Outbound tool call blocked by security policy''"

definition SESSION_REVOKED :: string where
  "SESSION_REVOKED = ''[MCP-Shield] Agent session revoked by the cross-layer circuit breaker''"

definition blocked_response :: "JsonRpcMessage \<Rightarrow> string \<Rightarrow> json" where
  "blocked_response msg notice =
     JObj [(''id'', unwrap_or (rpc_id msg) JNull),
           (''jsonrpc'', JStr ''2.0''),
           (''result'', JObj [(''content'', JArr [JObj [(''text'', JStr notice), (''type'', JStr ''text'')]]),
                              (''isError'', JBool True)])]"

definition is_tools_call :: "JsonRpcMessage \<Rightarrow> bool" where
  "is_tools_call msg \<longleftrightarrow> is_jsonrpc_2 msg \<and> rpc_method msg = Some ''tools/call''"

subsection \<open>Outbound arguments\<close>

definition blocking_kind :: "string \<Rightarrow> bool" where
  "blocking_kind k \<longleftrightarrow> k = ''credential_exfiltration'' \<or> k = ''instruction_override'' \<or> k = ''invisible_unicode''"

definition inspect_outbound_tool_call :: "JsonRpcMessage \<Rightarrow> ShieldMode \<Rightarrow> json option \<times> Event list" where
  "inspect_outbound_tool_call msg mode =
     (if \<not> is_tools_call msg then (None, [])
      else (case Option.bind (rpc_params msg) as_object of
              None \<Rightarrow> (None, [])
            | Some params \<Rightarrow>
                (let tool_name = unwrap_or (get_str (JObj params) ''name'') ''<unnamed>'';
                     arguments = unwrap_or (jget (JObj params) ''arguments'') JNull;
                     scan = scan_tool_arguments arguments in
                 if \<not> is_suspicious scan then (None, [])
                 else
                   (let blocking = list_ex (\<lambda>f. blocking_kind (kind f)) (findings scan);
                        action_taken = (case (mode, blocking) of
                            (Enforce, True) \<Rightarrow> ''blocked'' | (Enforce, False) \<Rightarrow> ''reported'' | (Monitor, _) \<Rightarrow> ''logged'');
                        severity = (case (mode, blocking) of
                            (Enforce, True) \<Rightarrow> Critical | (Enforce, False) \<Rightarrow> Warning | (Monitor, _) \<Rightarrow> High)
                    in (if mode = Enforce \<and> blocking then Some (blocked_response msg OUTBOUND_BLOCKED) else None,
                        [emit ''tool_call_argument_flagged'' severity
                           (JObj [(''action_taken'', JStr action_taken),
                                  (''findings'', findings_json (findings scan)),
                                  (''reason'', JStr (summary scan)),
                                  (''tool'', JStr tool_name)])])))))"

subsection \<open>Revoked sessions\<close>

text \<open>The two process-wide sets: the mirror of the dashboard's revocations, and what was reported.\<close>

record Revocations =
  rv_sessions :: "string hashset"
  rv_reported :: "string hashset"

definition is_session_revoked :: "string \<Rightarrow> Revocations \<Rightarrow> bool" where
  "is_session_revoked sid st =
     (let s = trim sid in
      if s = [] \<or> 128 < length s then False else s \<in> set (rv_sessions st))"

text \<open>The body is parsed by \<^verbatim>\<open>serde_json::from_str\<close>.\<close>

definition usable_session :: "string \<Rightarrow> bool" where
  "usable_session sid \<longleftrightarrow> sid \<noteq> [] \<and> length sid \<le> 128 \<and> \<not> has_control sid"

definition observe_revoked_sessions ::
  "(string \<Rightarrow> json option) \<Rightarrow> string \<Rightarrow> Revocations \<Rightarrow> nat option \<times> Revocations" where
  "observe_revoked_sessions parse body st =
     (case Option.bind (Option.bind (parse body) (\<lambda>v. jget v ''revoked_sessions'')) as_array of
        None \<Rightarrow> (None, st)
      | Some ids \<Rightarrow>
          (let cleaned = fold hs_insert (filter usable_session (map trim (List.map_filter as_str ids))) []
           in (Some (length cleaned), st\<lparr>rv_sessions := cleaned\<rparr>)))"

definition configured_session_id :: "env \<Rightarrow> string option" where
  "configured_session_id env =
     (case env ''MONOLITH_SESSION_ID'' of
        None \<Rightarrow> None
      | Some v \<Rightarrow> (let t = trim v in if t \<noteq> [] \<and> length t \<le> 128 then Some t else None))"

definition inspect_revoked_session_tool_call ::
  "env \<Rightarrow> JsonRpcMessage \<Rightarrow> ShieldMode \<Rightarrow> Revocations \<Rightarrow> json option \<times> Revocations \<times> Event list" where
  "inspect_revoked_session_tool_call env msg mode st =
     (if \<not> is_tools_call msg then (None, st, [])
      else (case configured_session_id env of
              None \<Rightarrow> (None, st, [])
            | Some sid \<Rightarrow>
                if \<not> is_session_revoked sid st then (None, st, [])
                else
                  (let first_report = (sid \<notin> set (rv_reported st));
                       st' = st\<lparr>rv_reported := hs_insert sid (rv_reported st)\<rparr>;
                       tool_name = unwrap_or
                         (Option.bind (Option.bind (rpc_params msg) as_object) (\<lambda>p. get_str (JObj p) ''name''))
                         ''<unnamed>'';
                       action_taken = (if mode = Enforce then ''blocked'' else ''logged'');
                       events = (if first_report
                         then [emit ''session_quarantined'' Critical
                                 (JObj [(''action_taken'', JStr action_taken), (''refusal'', JStr ''tool_call''),
                                        (''session_id'', JStr sid), (''tool'', JStr tool_name)])]
                         else [])
                   in (if mode = Monitor then None else Some (blocked_response msg SESSION_REVOKED), st', events))))"

subsection \<open>Responses\<close>

definition inspection_kind :: "string \<Rightarrow> InspectionKind option" where
  "inspection_kind method =
     (if method = ''prompts/list'' then Some Prompts
      else if method = ''resources/list'' then Some Resources
      else if method = ''resources/templates/list'' then Some ResourceTemplates
      else if method = ''tools/call'' then Some ToolResult
      else None)"

fun catalog_shape :: "InspectionKind \<Rightarrow> (string \<times> string list) option" where
  "catalog_shape Prompts = Some (''prompts'', [''name'', ''title'', ''description''])"
| "catalog_shape Resources = Some (''resources'', [''name'', ''title'', ''description'', ''mimeType''])"
| "catalog_shape ResourceTemplates =
     Some (''resourceTemplates'', [''name'', ''title'', ''description'', ''mimeType''])"
| "catalog_shape ToolResult = None"

definition ERROR_REDACTION_NOTICE :: string where
  "ERROR_REDACTION_NOTICE = ''[MCP-Shield redacted suspicious error payload]''"

definition OUTPUT_REDACTION_NOTICE :: string where
  "OUTPUT_REDACTION_NOTICE = ''[MCP-Shield redacted suspicious tool output]''"

definition opt_str :: "string option \<Rightarrow> json" where
  "opt_str o' = (case o' of Some s \<Rightarrow> JStr s | None \<Rightarrow> JNull)"

definition rebuild_result_array ::
  "JsonRpcMessage \<Rightarrow> string \<Rightarrow> json list \<Rightarrow> string + JsonRpcMessage" where
  "rebuild_result_array msg key values =
     (case Option.bind (rpc_result msg) as_object of
        None \<Rightarrow> Inl ''rewriting a response that has no object result''
      | Some m \<Rightarrow> Inr (msg\<lparr>rpc_result := Some (JObj (obj_insert key (JArr values) m))\<rparr>))"

text \<open>The value with every flagged string leaf replaced, and the findings in order.\<close>

fun neutralize_error_prose :: "json \<Rightarrow> json \<times> finding list" where
  "neutralize_error_prose (JStr text) =
     (let hits = scan_injection text in
      if hits = [] then (JStr text, []) else (JStr ERROR_REDACTION_NOTICE, hits))"
| "neutralize_error_prose (JArr items) =
     (let rs = map neutralize_error_prose items in (JArr (map fst rs), concat (map snd rs)))"
| "neutralize_error_prose (JObj kvs) =
     (let rs = map (\<lambda>(k, v). (k, neutralize_error_prose v)) kvs in
      (JObj (map (\<lambda>(k, r). (k, fst r)) rs), concat (map (\<lambda>(k, r). snd r) rs)))"
| "neutralize_error_prose other = (other, [])"

definition analyze_error_response ::
  "JsonRpcMessage \<Rightarrow> json \<Rightarrow> PendingInspection \<Rightarrow> ShieldMode \<Rightarrow> string
   \<Rightarrow> (string + JsonRpcMessage option) \<times> Event list" where
  "analyze_error_response msg error inspection mode trace =
     (let (clean_error, fs) = neutralize_error_prose error in
      if fs = [] then (Inr None, [])
      else
        (if mode = Enforce then Inr (Some (msg\<lparr>rpc_error := Some clean_error\<rparr>)) else Inr None,
         [emit_traced ''suspicious_error_payload'' Critical
            (JObj [(''action'', JStr (if mode = Enforce then ''redacted'' else ''reported'')),
                   (''findings'', findings_json fs),
                   (''tool'', opt_str (pi_resource_id inspection))]) trace]))"

text \<open>The text of a block of type \<^verbatim>\<open>text\<close>.\<close>

definition block_text :: "json \<Rightarrow> string option" where
  "block_text block =
     (case get_str block ''text'' of
        None \<Rightarrow> None
      | Some t \<Rightarrow> if get_str block ''type'' = Some ''text'' then Some t else None)"

text \<open>The loop over the content blocks: the new content, whether it changed, and the events.\<close>

fun analyze_blocks ::
  "PendingInspection \<Rightarrow> ShieldMode \<Rightarrow> string \<Rightarrow> nat \<Rightarrow> json list \<Rightarrow> json list \<times> bool \<times> Event list" where
  "analyze_blocks inspection mode trace index [] = ([], False, [])"
| "analyze_blocks inspection mode trace index (block # rest) =
     (let (clean', changed, events) = analyze_blocks inspection mode trace (Suc index) rest in
      case block_text block of
        None \<Rightarrow> (block # clean', changed, events)
      | Some t \<Rightarrow>
          (let fs = scan_description t in
           if fs = [] then (block # clean', changed, events)
           else
             (let event = emit_traced ''suspicious_tool_output'' Critical
                    (JObj [(''action'', JStr (if mode = Enforce then ''redacted'' else ''reported'')),
                           (''content_index'', JNum (PosInt index)),
                           (''findings'', findings_json fs),
                           (''tool'', opt_str (pi_resource_id inspection))]) trace
              in (case (mode, as_object block) of
                    (Enforce, Some m) \<Rightarrow>
                      (JObj (obj_insert ''text'' (JStr OUTPUT_REDACTION_NOTICE) m) # clean', True, event # events)
                  | _ \<Rightarrow> (block # clean', changed, event # events)))))"

definition analyze_tool_result ::
  "JsonRpcMessage \<Rightarrow> PendingInspection \<Rightarrow> ShieldMode \<Rightarrow> string
   \<Rightarrow> (string + JsonRpcMessage option) \<times> Event list" where
  "analyze_tool_result msg inspection mode trace =
     (case Option.bind (Option.bind (rpc_result msg) (\<lambda>r. jget r ''content'')) as_array of
        None \<Rightarrow> (Inr None, [])
      | Some content \<Rightarrow>
          (let (clean', changed, events) = analyze_blocks inspection mode trace 0 content in
           (if changed then map_sum id Some (rebuild_result_array msg ''content'' clean') else Inr None, events)))"

text \<open>The findings of one catalog entry, over the listed fields that are strings.\<close>

definition entry_findings :: "string list \<Rightarrow> json \<Rightarrow> finding list" where
  "entry_findings flds entry = concat (map scan_description (List.map_filter (get_str entry) flds))"

definition entry_label :: "json \<Rightarrow> string" where
  "entry_label entry =
     unwrap_or (Option.bind
       (case jget entry ''name'' of Some v \<Rightarrow> Some v
        | None \<Rightarrow> (case jget entry ''uri'' of Some v \<Rightarrow> Some v | None \<Rightarrow> jget entry ''uriTemplate'')) as_str)
       ''<unnamed>''"

text \<open>The loop over the entries: the indices to remove, and the events.\<close>

fun analyze_entries ::
  "string \<Rightarrow> string list \<Rightarrow> ShieldMode \<Rightarrow> string \<Rightarrow> (nat \<times> json) list \<Rightarrow> nat hashset \<times> Event list" where
  "analyze_entries list_key flds mode trace [] = ([], [])"
| "analyze_entries list_key flds mode trace ((index, entry) # rest) =
     (let (blocked, events) = analyze_entries list_key flds mode trace rest in
      case as_object entry of
        None \<Rightarrow> (hs_insert index blocked, events)
      | Some object \<Rightarrow>
          (let fs = entry_findings flds entry in
           if fs = [] then (blocked, events)
           else (if mode = Enforce then hs_insert index blocked else blocked,
                 emit_traced ''suspicious_catalog_entry'' Warning
                   (JObj [(''action'', JStr (if mode = Enforce then ''blocked'' else ''reported'')),
                          (''catalog'', JStr list_key), (''findings'', findings_json fs),
                          (''resource'', JStr (entry_label entry))]) trace # events)))"

definition analyze_catalog ::
  "JsonRpcMessage \<Rightarrow> string \<Rightarrow> string list \<Rightarrow> ShieldMode \<Rightarrow> string
   \<Rightarrow> (string + JsonRpcMessage option) \<times> Event list" where
  "analyze_catalog msg list_key flds mode trace =
     (case Option.bind (Option.bind (rpc_result msg) (\<lambda>r. jget r list_key)) as_array of
        None \<Rightarrow> (Inr None, [emit_traced ''analysis_error'' Warning
                  (JObj [(''reason'', JStr (''response missing result.'' @ list_key @ '' array''))]) trace])
      | Some entries \<Rightarrow>
          (let (blocked, events) = analyze_entries list_key flds mode trace (enumerate 0 entries) in
           (if blocked = [] then Inr None
            else map_sum id Some (rebuild_result_array msg list_key
                   (map snd (filter (\<lambda>(index, entry). index \<notin> set blocked) (enumerate 0 entries)))),
            events)))"

definition analyze_inspectable_response ::
  "JsonRpcMessage \<Rightarrow> PendingInspection \<Rightarrow> ShieldMode \<Rightarrow> string
   \<Rightarrow> (string + JsonRpcMessage option) \<times> Event list" where
  "analyze_inspectable_response msg inspection mode trace =
     (case rpc_error msg of
        Some error \<Rightarrow> analyze_error_response msg error inspection mode trace
      | None \<Rightarrow>
          (case catalog_shape (pi_kind inspection) of
             None \<Rightarrow> analyze_tool_result msg inspection mode trace
           | Some (list_key, flds) \<Rightarrow> analyze_catalog msg list_key flds mode trace))"

subsection \<open>Which calls are blocked\<close>

lemma blocking_findings:
  "list_ex (\<lambda>f. blocking_kind (kind f)) (scan_description s @ scan_credentials s p) \<longleftrightarrow>
     scan_injection s \<noteq> [] \<or> scan_credentials s p \<noteq> []"
proof -
  have "blocking_kind (kind f) \<longleftrightarrow> kind f \<noteq> ''shell_command''" if "f \<in> set (scan_description s)" for f
    using kinds_of_scan_description [of s] that by (auto simp: blocking_kind_def)
  then have "list_ex (\<lambda>f. blocking_kind (kind f)) (scan_description s) \<longleftrightarrow> scan_injection s \<noteq> []"
    by (auto simp: scan_injection_def list_ex_iff filter_empty_conv)
  moreover have "blocking_kind (kind f)" if "f \<in> set (scan_credentials s p)" for f
    using kinds_of_scan_credentials [of s p] that by (auto simp: blocking_kind_def)
  then have "list_ex (\<lambda>f. blocking_kind (kind f)) (scan_credentials s p) \<longleftrightarrow> scan_credentials s p \<noteq> []"
    by (cases "scan_credentials s p") (auto simp: list_ex_iff)
  ultimately show ?thesis by simp
qed

lemma blocking_arguments:
  "list_ex (\<lambda>f. blocking_kind (kind f)) (findings (scan_tool_arguments args)) \<longleftrightarrow>
     list_ex (\<lambda>(p, s). scan_injection s \<noteq> [] \<or> scan_credentials s p \<noteq> []) (leaves [] args)"
  unfolding scan_tool_arguments_fields collect_argument_findings_leaves blocking_findings [symmetric]
  by (induction "leaves [] args") (auto simp: list_ex_iff)

text \<open>The arguments of a call, as the scan sees them.\<close>

definition call_arguments :: "JsonRpcMessage \<Rightarrow> json option" where
  "call_arguments msg =
     (case rpc_params msg of
        Some (JObj p) \<Rightarrow> Some (case map_of p ''arguments'' of Some a \<Rightarrow> a | None \<Rightarrow> JNull)
      | _ \<Rightarrow> None)"

lemma inspect_outbound_cases:
  "inspect_outbound_tool_call msg mode =
     (if \<not> is_tools_call msg then (None, [])
      else case call_arguments msg of
        None \<Rightarrow> (None, [])
      | Some args \<Rightarrow>
          if clean (scan_tool_arguments args) then (None, [])
          else (if mode = Enforce \<and> list_ex (\<lambda>f. blocking_kind (kind f)) (findings (scan_tool_arguments args))
                then Some (blocked_response msg OUTBOUND_BLOCKED) else None,
                snd (inspect_outbound_tool_call msg mode)))"
  by (auto simp: inspect_outbound_tool_call_def call_arguments_def unwrap_or_def is_suspicious_def Let_def
      split: option.splits json.splits)

text \<open>
  C30: in enforce mode a tool call is answered locally exactly when some string in its arguments,
  at any depth, carries an injection pattern, an invisible character or a credential (shell
  patterns alone are only reported); in monitor mode never; and every flagged call leaves one
  event, every other call none.
\<close>

theorem outbound_call_blocked_iff:
  "(case fst (inspect_outbound_tool_call msg mode) of
      Some r \<Rightarrow> r = blocked_response msg OUTBOUND_BLOCKED \<and> mode = Enforce \<and> is_tools_call msg \<and>
        (case call_arguments msg of
           Some args \<Rightarrow> list_ex (\<lambda>(p, s). \<not> (scan_injection s = [] \<and> scan_credentials s p = [])) (leaves [] args)
         | None \<Rightarrow> False)
    | None \<Rightarrow> if mode = Enforce \<and> is_tools_call msg then
        (case call_arguments msg of
           Some args \<Rightarrow> list_all (\<lambda>(p, s). scan_injection s = [] \<and> scan_credentials s p = []) (leaves [] args)
         | None \<Rightarrow> True) else True) \<and>
   length (snd (inspect_outbound_tool_call msg mode)) =
     (case call_arguments msg of
        Some args \<Rightarrow> if is_tools_call msg \<and> \<not> clean (scan_tool_arguments args) then 1 else 0
      | None \<Rightarrow> 0)"
proof
  have clean: "clean (scan_tool_arguments args) \<Longrightarrow>
      list_all (\<lambda>(p, s). scan_injection s = [] \<and> scan_credentials s p = []) (leaves [] args)" for args
    using clean_leaves [of args] by (auto simp: list_all_iff scan_injection_def)
  have neg: "\<not> list_ex (\<lambda>(p, s). scan_injection s \<noteq> [] \<or> scan_credentials s p \<noteq> []) xs \<Longrightarrow>
      list_all (\<lambda>(p, s). scan_injection s = [] \<and> scan_credentials s p = []) xs" for xs
    by (auto simp: list_all_iff list_ex_iff)
  have ex: "list_ex (\<lambda>(p, s). \<not> (scan_injection s = [] \<and> scan_credentials s p = [])) xs \<longleftrightarrow>
      list_ex (\<lambda>(p, s). scan_injection s \<noteq> [] \<or> scan_credentials s p \<noteq> []) xs" for xs
    by (simp add: list_ex_iff)
  show "case fst (inspect_outbound_tool_call msg mode) of
      Some r \<Rightarrow> r = blocked_response msg OUTBOUND_BLOCKED \<and> mode = Enforce \<and> is_tools_call msg \<and>
        (case call_arguments msg of
           Some args \<Rightarrow> list_ex (\<lambda>(p, s). \<not> (scan_injection s = [] \<and> scan_credentials s p = [])) (leaves [] args)
         | None \<Rightarrow> False)
    | None \<Rightarrow> if mode = Enforce \<and> is_tools_call msg then
        (case call_arguments msg of
           Some args \<Rightarrow> list_all (\<lambda>(p, s). scan_injection s = [] \<and> scan_credentials s p = []) (leaves [] args)
         | None \<Rightarrow> True) else True"
    unfolding ex by (subst inspect_outbound_cases, cases mode)
      (auto simp: blocking_arguments split: option.splits intro: clean neg)
  show "length (snd (inspect_outbound_tool_call msg mode)) =
     (case call_arguments msg of
        Some args \<Rightarrow> if is_tools_call msg \<and> \<not> clean (scan_tool_arguments args) then 1 else 0
      | None \<Rightarrow> 0)"
    by (auto simp: inspect_outbound_tool_call_def call_arguments_def unwrap_or_def is_suspicious_def Let_def
      split: option.splits json.splits)
qed

subsection \<open>Revoked sessions\<close>

lemma fold_hs_insert: "set (fold hs_insert xs ys) = set xs \<union> set ys"
  by (induction xs arbitrary: ys) auto

text \<open>
  C35: in enforce mode a tool call is refused exactly when the configured session is in the
  mirror of revoked sessions, whose contents after a response body are the usable ids of its
  snapshot, or unchanged when the body has no usable snapshot; a refusal changes no
  revocation, and one session is reported once. The configured id must have at most 128
  bytes: a session with a longer one is never refused, although the event envelope accepts
  128 characters.
\<close>

theorem revoked_session_refused:
  "case observe_revoked_sessions parse body st of (adopted, st1) \<Rightarrow>
     set (rv_sessions st1) =
       (case Option.bind (Option.bind (parse body) (\<lambda>v. jget v ''revoked_sessions'')) as_array of
          None \<Rightarrow> set (rv_sessions st)
        | Some ids \<Rightarrow> set (filter usable_session (map trim (List.map_filter as_str ids)))) \<and>
     (case inspect_revoked_session_tool_call env msg mode st1 of (answer, st2, events) \<Rightarrow>
        (answer \<noteq> None \<longleftrightarrow> mode = Enforce \<and> is_tools_call msg \<and>
           (case configured_session_id env of Some sid \<Rightarrow> sid \<in> set (rv_sessions st1) | None \<Rightarrow> False)) \<and>
        rv_sessions st2 = rv_sessions st1 \<and>
        (if events = [] then True else snd (snd (inspect_revoked_session_tool_call env msg' mode' st2)) = []))"
proof -
  obtain adopted st1 where ob: "observe_revoked_sessions parse body st = (adopted, st1)" by fastforce
  have sessions: "set (rv_sessions st1) =
       (case Option.bind (Option.bind (parse body) (\<lambda>v. jget v ''revoked_sessions'')) as_array of
          None \<Rightarrow> set (rv_sessions st)
        | Some ids \<Rightarrow> set (filter usable_session (map trim (List.map_filter as_str ids))))"
    using ob by (auto simp: observe_revoked_sessions_def Let_def fold_hs_insert split: option.splits)
  have "case inspect_revoked_session_tool_call env msg mode st1 of (answer, st2, events) \<Rightarrow>
        (answer \<noteq> None \<longleftrightarrow> mode = Enforce \<and> is_tools_call msg \<and>
           (case configured_session_id env of Some sid \<Rightarrow> sid \<in> set (rv_sessions st1) | None \<Rightarrow> False)) \<and>
        rv_sessions st2 = rv_sessions st1 \<and>
        (if events = [] then True else snd (snd (inspect_revoked_session_tool_call env msg' mode' st2)) = [])"
  proof (cases "is_tools_call msg \<and> configured_session_id env \<noteq> None")
    case True
    then obtain sid where Some: "configured_session_id env = Some sid" by auto
    then have sid: "trim sid = sid" "sid \<noteq> []" "length sid \<le> 128"
      by (auto simp: configured_session_id_def Let_def split: option.splits if_splits)
    have rev: "is_session_revoked sid s \<longleftrightarrow> sid \<in> set (rv_sessions s)" for s
      using sid by (simp add: is_session_revoked_def Let_def)
    show ?thesis
      using True Some by (cases mode) (auto simp: inspect_revoked_session_tool_call_def rev Let_def)
  qed (auto simp: inspect_revoked_session_tool_call_def)
  with sessions show ?thesis by (simp add: ob)
qed

subsection \<open>What a response may carry\<close>

lemma output_notice_clean: "scan_description OUTPUT_REDACTION_NOTICE = []"
  by (simp add: scan_description_Nil_iff OUTPUT_REDACTION_NOTICE_def INSTRUCTION_PHRASES_def SHELL_PATTERNS_def
      INVISIBLE_CHARS_def has_hidden_control_def str_defs)

lemma error_notice_clean: "scan_injection ERROR_REDACTION_NOTICE = []"
  by (simp add: scan_injection_Nil_iff ERROR_REDACTION_NOTICE_def INSTRUCTION_PHRASES_def
      INVISIBLE_CHARS_def has_hidden_control_def str_defs)

lemma neutralize_leaves:
  "leaves path (fst (neutralize_error_prose v)) =
     map (\<lambda>(p, s). (p, if scan_injection s = [] then s else ERROR_REDACTION_NOTICE)) (leaves path v)"
proof (induction path v rule: leaves.induct)
  case (2 path xs)
  then show ?case by (induction xs) (auto simp: Let_def)
next
  case (3 path kvs)
  then show ?case by (induction kvs) (auto simp: Let_def)
qed (auto simp: Let_def)

lemma neutralize_findings:
  "snd (neutralize_error_prose v) = concat (map (\<lambda>(p, s). scan_injection s) (leaves path v))"
proof (induction path v rule: leaves.induct)
  case (2 path xs)
  then show ?case by (induction xs) (auto simp: Let_def)
next
  case (3 path kvs)
  then have "snd (neutralize_error_prose w) = concat (map (\<lambda>(p, s). scan_injection s) (leaves (path @ ''.'' @ k) w))"
    if "(k, w) \<in> set kvs" for k w using that by blast
  then show ?case by (induction kvs) (auto simp: Let_def)
qed (auto simp: Let_def)

text \<open>What is promised of the inspected part of a forwarded response.\<close>

definition clean_error :: "json \<Rightarrow> bool" where
  "clean_error e \<longleftrightarrow> list_all (\<lambda>(p, s). scan_injection s = []) (leaves [] e)"

definition clean_block :: "json \<Rightarrow> bool" where
  "clean_block b \<longleftrightarrow> (case block_text b of Some t \<Rightarrow> scan_description t = [] | None \<Rightarrow> True)"

definition clean_entry :: "string list \<Rightarrow> json \<Rightarrow> bool" where
  "clean_entry flds e \<longleftrightarrow> as_object e \<noteq> None \<and> entry_findings flds e = []"

definition result_array :: "JsonRpcMessage \<Rightarrow> string \<Rightarrow> json list" where
  "result_array msg key =
     unwrap_or (Option.bind (Option.bind (rpc_result msg) (\<lambda>r. jget r key)) as_array) []"

definition clean_response :: "InspectionKind \<Rightarrow> JsonRpcMessage \<Rightarrow> bool" where
  "clean_response kind' msg \<longleftrightarrow>
     (case rpc_error msg of
        Some e \<Rightarrow> clean_error e
      | None \<Rightarrow>
          (case catalog_shape kind' of
             None \<Rightarrow> list_all clean_block (result_array msg ''content'')
           | Some (key, flds) \<Rightarrow> list_all (clean_entry flds) (result_array msg key)))"

lemma result_arrayE:
  assumes "Option.bind (Option.bind (rpc_result msg) (\<lambda>r. jget r key)) as_array = Some xs"
  obtains m where "rpc_result msg = Some (JObj m)" "map_of m key = Some (JArr xs)"
proof (cases "rpc_result msg")
  case (Some v)
  with assms that show ?thesis by (cases v) (auto simp: bind_eq_Some_conv)
qed (use assms in simp)

lemma rebuild_ok:
  assumes "Option.bind (Option.bind (rpc_result msg) (\<lambda>r. jget r key)) as_array = Some xs"
  shows "\<exists>msg'. rebuild_result_array msg key ys = Inr msg' \<and> result_array msg' key = ys \<and> rpc_error msg' = rpc_error msg"
  using assms by (elim result_arrayE) (auto simp: rebuild_result_array_def result_array_def unwrap_or_def)

lemma redacted_block_clean:
  assumes "block_text b = Some t" "as_object b = Some m"
  shows "clean_block (JObj (obj_insert ''text'' (JStr OUTPUT_REDACTION_NOTICE) m))"
  using assms output_notice_clean
  by (auto simp: clean_block_def block_text_def get_str_def split: option.splits if_splits)

lemma block_text_object: "block_text b = Some t \<Longrightarrow> \<exists>m. as_object b = Some m"
  by (cases b) (auto simp: block_text_def get_str_def split: option.splits)

lemma analyze_blocks_enforce:
  assumes "analyze_blocks inspection Enforce trace i bs = (bs', changed, events)"
  shows "list_all clean_block bs' \<and> (changed \<longleftrightarrow> \<not> list_all clean_block bs) \<and>
    list_all2 (\<lambda>b b'. clean_block b \<longrightarrow> b' = b) bs bs'"
  using assms
proof (induction bs arbitrary: i bs' changed events)
  case (Cons b bs)
  obtain r c e where r: "analyze_blocks inspection Enforce trace (Suc i) bs = (r, c, e)" by (metis prod_cases3)
  note IH = Cons.IH [OF r]
  show ?case
  proof (cases "clean_block b")
    case True
    then have "analyze_blocks inspection Enforce trace i (b # bs) = (b # r, c, e)"
      by (auto simp: r clean_block_def split: option.splits)
    from Cons.prems [unfolded this] show ?thesis using IH True by auto
  next
    case False
    then obtain t where t: "block_text b = Some t" "scan_description t \<noteq> []"
      by (auto simp: clean_block_def split: option.splits)
    then obtain m where m: "as_object b = Some m" using block_text_object by blast
    then show ?thesis using Cons.prems IH False redacted_block_clean [OF t(1) m] t by (auto simp: r Let_def)
  qed
qed auto

lemma analyze_entries_enforce:
  "(i \<in> set (fst (analyze_entries key flds Enforce trace its))) \<longleftrightarrow> (\<exists>e. (i, e) \<in> set its \<and> \<not> clean_entry flds e)"
  by (induction key flds Enforce trace its rule: analyze_entries.induct)
    (auto simp: clean_entry_def Let_def split: option.splits prod.splits)

text \<open>The three kinds of inspection, in enforce mode.\<close>

definition sanitized :: "(JsonRpcMessage \<Rightarrow> bool) \<Rightarrow> JsonRpcMessage \<Rightarrow> string + JsonRpcMessage option \<Rightarrow> bool" where
  "sanitized ok msg out \<longleftrightarrow>
     (case out of
        Inl e \<Rightarrow> False
      | Inr None \<Rightarrow> ok msg
      | Inr (Some msg') \<Rightarrow> ok msg' \<and> \<not> ok msg)"

lemma sanitized_error:
  assumes "rpc_error msg = Some e"
  shows "sanitized (\<lambda>m. case rpc_error m of Some e \<Rightarrow> clean_error e | None \<Rightarrow> False) msg
    (fst (analyze_error_response msg e inspection Enforce trace))"
proof -
  obtain e' fs where n: "neutralize_error_prose e = (e', fs)" by fastforce
  have "fs = [] \<longleftrightarrow> clean_error e"
    using neutralize_findings [of e "[]"] by (auto simp: n clean_error_def list_all_iff)
  moreover have "clean_error e'"
    using neutralize_leaves [of "[]" e] error_notice_clean by (auto simp: n clean_error_def list_all_iff)
  ultimately show ?thesis using assms by (simp add: sanitized_def analyze_error_response_def n)
qed

lemma sanitized_tool_result:
  "sanitized (\<lambda>m. rpc_error m = rpc_error msg \<and> list_all clean_block (result_array m ''content'')) msg
    (fst (analyze_tool_result msg inspection Enforce trace))"
proof (cases "Option.bind (Option.bind (rpc_result msg) (\<lambda>r. jget r ''content'')) as_array")
  case None
  show ?thesis unfolding sanitized_def analyze_tool_result_def result_array_def None by (simp add: unwrap_or_def)
next
  case (Some content)
  obtain bs changed ev where b: "analyze_blocks inspection Enforce trace 0 content = (bs, changed, ev)"
    by (metis prod_cases3)
  obtain msg' where m: "rebuild_result_array msg ''content'' bs = Inr msg'" "result_array msg' ''content'' = bs"
      "rpc_error msg' = rpc_error msg" using rebuild_ok [OF Some] by blast
  have arr: "result_array msg ''content'' = content" unfolding result_array_def Some by (simp add: unwrap_or_def)
  have r: "fst (analyze_tool_result msg inspection Enforce trace) = (if changed then Inr (Some msg') else Inr None)"
    unfolding analyze_tool_result_def Some by (simp add: b m(1))
  show ?thesis unfolding r sanitized_def using analyze_blocks_enforce [OF b] m(2,3) arr by simp
qed

lemma sanitized_catalog:
  "sanitized (\<lambda>m. rpc_error m = rpc_error msg \<and> list_all (clean_entry flds) (result_array m key)) msg
    (fst (analyze_catalog msg key flds Enforce trace))"
proof (cases "Option.bind (Option.bind (rpc_result msg) (\<lambda>r. jget r key)) as_array")
  case None
  show ?thesis unfolding sanitized_def analyze_catalog_def result_array_def None by (simp add: unwrap_or_def)
next
  case (Some entries)
  obtain blocked ev where b: "analyze_entries key flds Enforce trace (enumerate 0 entries) = (blocked, ev)" by fastforce
  have bl: "i \<in> set blocked \<longleftrightarrow> i < length entries \<and> \<not> clean_entry flds (entries ! i)" for i
    using analyze_entries_enforce [of i key flds trace "enumerate 0 entries"] by (auto simp: b in_set_enumerate_eq)
  let ?kept = "map snd (filter (\<lambda>(index, entry). index \<notin> set blocked) (enumerate 0 entries))"
  obtain msg' where m: "rebuild_result_array msg key ?kept = Inr msg'" "result_array msg' key = ?kept"
      "rpc_error msg' = rpc_error msg" using rebuild_ok [OF Some] by blast
  have arr: "result_array msg key = entries" unfolding result_array_def Some by (simp add: unwrap_or_def)
  have kept: "list_all (clean_entry flds) ?kept" by (auto simp: list_all_iff in_set_enumerate_eq bl)
  have "blocked = [] \<longleftrightarrow> set blocked = {}" by simp
  also have "\<dots> \<longleftrightarrow> (\<forall>i < length entries. clean_entry flds (entries ! i))"
  proof -
    have "set blocked = {i. i < length entries \<and> \<not> clean_entry flds (entries ! i)}" by (simp add: set_eq_iff bl)
    then show ?thesis by simp
  qed
  also have "\<dots> \<longleftrightarrow> list_all (clean_entry flds) entries" by (simp add: list_all_length)
  finally have none: "blocked = [] \<longleftrightarrow> list_all (clean_entry flds) entries" .
  have r: "fst (analyze_catalog msg key flds Enforce trace) = (if blocked = [] then Inr None else Inr (Some msg'))"
    unfolding analyze_catalog_def Some by (simp add: b m(1) split_beta)
  show ?thesis unfolding r sanitized_def using none kept m(2,3) arr by simp
qed

text \<open>
  C28: in enforce mode no inspected response reaches the agent with flagged prose: the response
  forwarded, rewritten or not, has no injection in any string of its error object, at any
  depth; without an error, no flagged text block in a tool result, and no non-object or flagged
  entry in a catalog. It is rewritten exactly when the received one was not clean, and the
  analysis never fails. (When there is an error object, the result beside it is not inspected.)
\<close>

theorem enforced_response_clean:
  "case fst (analyze_inspectable_response msg inspection Enforce trace) of
     Inl e \<Rightarrow> False
   | Inr None \<Rightarrow> clean_response (pi_kind inspection) msg
   | Inr (Some msg') \<Rightarrow> clean_response (pi_kind inspection) msg' \<and> \<not> clean_response (pi_kind inspection) msg"
proof (cases "rpc_error msg")
  case (Some e)
  have "sanitized (\<lambda>m. case rpc_error m of Some e \<Rightarrow> clean_error e | None \<Rightarrow> False) msg
      (fst (analyze_inspectable_response msg inspection Enforce trace))"
    using sanitized_error [OF Some] by (simp add: analyze_inspectable_response_def Some)
  then show ?thesis using Some
    by (auto simp: sanitized_def clean_response_def split: sum.splits option.splits)
next
  case None
  show ?thesis
  proof (cases "catalog_shape (pi_kind inspection)")
    case shape: None
    have "sanitized (\<lambda>m. rpc_error m = rpc_error msg \<and> list_all clean_block (result_array m ''content'')) msg
        (fst (analyze_inspectable_response msg inspection Enforce trace))"
      using sanitized_tool_result [of msg inspection trace] None by (simp add: analyze_inspectable_response_def None shape)
    then show ?thesis
      by (auto simp: sanitized_def clean_response_def None shape split: sum.splits option.splits)
  next
    case (Some shape)
    obtain key flds where sh: "shape = (key, flds)" by (cases shape)
    have "sanitized (\<lambda>m. rpc_error m = rpc_error msg \<and> list_all (clean_entry flds) (result_array m key)) msg
        (fst (analyze_inspectable_response msg inspection Enforce trace))"
      using sanitized_catalog [of msg flds key trace] None by (simp add: analyze_inspectable_response_def None Some sh)
    then show ?thesis
      by (auto simp: sanitized_def clean_response_def None Some sh split: sum.splits option.splits)
  qed
qed

lemma analyze_blocks_monitor:
  "fst (snd (analyze_blocks inspection Monitor trace i bs)) = False"
  by (induction inspection Monitor trace i bs rule: analyze_blocks.induct)
    (auto simp: Let_def split: option.splits prod.splits)

lemma analyze_entries_monitor:
  "i \<in> set (fst (analyze_entries key flds Monitor trace its)) \<longleftrightarrow> (\<exists>e. (i, e) \<in> set its \<and> as_object e = None)"
  by (induction key flds Monitor trace its rule: analyze_entries.induct)
    (auto simp: Let_def split: option.splits prod.splits)

text \<open>
  monitor mode never rewrites an inspected response, with one exception: a catalog with an
  entry that is not an object loses that entry in monitor mode as well.
\<close>

theorem monitor_rewrites_iff:
  "fst (analyze_inspectable_response msg inspection Monitor trace) = Inr None \<longleftrightarrow>
     (case rpc_error msg of
        Some _ \<Rightarrow> True
      | None \<Rightarrow>
         (case catalog_shape (pi_kind inspection) of
            None \<Rightarrow> True
          | Some (key, flds) \<Rightarrow> list_all (\<lambda>e. as_object e \<noteq> None) (result_array msg key)))"
proof (cases "rpc_error msg")
  case (Some e)
  then show ?thesis
    by (simp add: analyze_inspectable_response_def analyze_error_response_def split: prod.split)
next
  case None
  show ?thesis
  proof (cases "catalog_shape (pi_kind inspection)")
    case shape: None
    show ?thesis
      using analyze_blocks_monitor [of inspection trace 0]
      by (auto simp: analyze_inspectable_response_def analyze_tool_result_def None shape split: option.splits prod.splits)
        (metis fst_conv snd_conv)
  next
    case (Some shape)
    obtain key flds where sh: "shape = (key, flds)" by (cases shape)
    show ?thesis
    proof (cases "Option.bind (Option.bind (rpc_result msg) (\<lambda>r. jget r key)) as_array")
      case none: None
      show ?thesis
        unfolding analyze_inspectable_response_def analyze_catalog_def result_array_def None Some sh none option.case prod.case
        by (simp add: unwrap_or_def)
    next
      case entries: (Some entries)
      obtain blocked ev where b: "analyze_entries key flds Monitor trace (enumerate 0 entries) = (blocked, ev)" by fastforce
      have bl: "set blocked = {i. i < length entries \<and> as_object (entries ! i) = None}"
        using analyze_entries_monitor [of _ key flds trace "enumerate 0 entries"] by (auto simp: b in_set_enumerate_eq)
      have "blocked = [] \<longleftrightarrow> set blocked = {}" by simp
      then have none: "blocked = [] \<longleftrightarrow> list_all (\<lambda>e. as_object e \<noteq> None) entries"
        unfolding bl list_all_length by auto
      have arr: "result_array msg key = entries" unfolding result_array_def entries by (simp add: unwrap_or_def)
      obtain msg' where m: "rebuild_result_array msg key (map snd (filter (\<lambda>(index, entry). index \<notin> set blocked)
          (enumerate 0 entries))) = Inr msg'" using rebuild_ok [OF entries] by blast
      show ?thesis
        unfolding analyze_inspectable_response_def analyze_catalog_def None Some sh entries option.case prod.case arr
        using none by (simp add: b m)
    qed
  qed
qed

end
