(* ===== verification/Spool.thy ===== *)
theory Spool
  imports Line_Reader Inspect "HOL-Library.Word"
begin

section \<open>The spool of undelivered events\<close>

text \<open>
  Model of the record and file layer of \<^verbatim>\<open>mcp-shield/src/outbox.rs\<close>. A file is absent or a
  string of bytes. The derived \<^verbatim>\<open>serde\<close> printer and parser of a record are parameters (the
  printer cannot fail on these types); what the operating system refuses during one operation
  is a record of faults: a torn append leaves a prefix of the line, a rewrite goes through a
  temporary file and a rename, so it leaves the old file. Arithmetic is that of a release build.
\<close>

unbundle bit_operations_syntax

definition MAX_ATTEMPTS :: "32 word" where "MAX_ATTEMPTS = 10"
definition MAX_SPOOL_RECORDS :: nat where "MAX_SPOOL_RECORDS = 10000"
definition MAX_SPOOL_BYTES :: nat where "MAX_SPOOL_BYTES = 16 * 1024 * 1024"
definition MIN_EVENT_TOKEN_LENGTH :: nat where "MIN_EVENT_TOKEN_LENGTH = 16"
definition MAX_EVENT_TOKEN_LENGTH :: nat where "MAX_EVENT_TOKEN_LENGTH = 512"

definition is_permanent :: "nat \<Rightarrow> bool" where
  "is_permanent status \<longleftrightarrow> status = 400 \<or> status = 401 \<or> status = 403 \<or> status = 413 \<or> status = 422"

definition token_byte :: "char \<Rightarrow> bool" where
  "token_byte b \<longleftrightarrow> is_ascii_alphanumeric b \<or> b \<in> set ''-._~+/=''"

definition valid_event_token :: "string \<Rightarrow> bool" where
  "valid_event_token token \<longleftrightarrow>
     MIN_EVENT_TOKEN_LENGTH \<le> length token \<and> length token \<le> MAX_EVENT_TOKEN_LENGTH \<and> list_all token_byte token"

subsection \<open>Records\<close>

record SpoolRecord =
  sr_event_id :: string
  sr_payload :: string
  sr_attempts :: "32 word"
  sr_next_attempt_ms :: nat
  sr_last_error :: "string option"
  sr_created_ms :: nat

text \<open>\<open>now\<close> is the clock in milliseconds at the call.\<close>

definition backoff_ms :: "32 word \<Rightarrow> nat" where
  "backoff_ms attempts = min (1000 * 2 ^ unat (min attempts 8)) 300000"

definition jitter_ms :: "string \<Rightarrow> nat" where
  "jitter_ms event_id = (sum_list (map ord event_id) mod 2 ^ 32) mod 1000"

definition defer_record :: "nat \<Rightarrow> string \<Rightarrow> SpoolRecord \<Rightarrow> SpoolRecord" where
  "defer_record now error r =
     (let attempts = sr_attempts r + 1 in
      r\<lparr>sr_attempts := attempts,
        sr_next_attempt_ms := now + backoff_ms attempts + jitter_ms (sr_event_id r),
        sr_last_error := Some error\<rparr>)"

text \<open>Both read the payload; \<open>parse\<close> is \<^verbatim>\<open>serde_json::from_str\<close>.\<close>

definition record_created_ms :: "(string \<Rightarrow> json option) \<Rightarrow> SpoolRecord \<Rightarrow> nat option" where
  "record_created_ms parse r =
     (if 0 < sr_created_ms r then Some (sr_created_ms r)
      else
        (case Option.bind (Option.bind (parse (sr_payload r)) (\<lambda>v. jget v ''timestamp_ms'')) as_u64 of
           Some ts \<Rightarrow>
             if 0 < ts then Some ts
             else if sr_attempts r = 0 \<and> 0 < sr_next_attempt_ms r then Some (sr_next_attempt_ms r) else None
         | None \<Rightarrow>
             if sr_attempts r = 0 \<and> 0 < sr_next_attempt_ms r then Some (sr_next_attempt_ms r) else None))"

definition record_tenant :: "(string \<Rightarrow> json option) \<Rightarrow> SpoolRecord \<Rightarrow> string option" where
  "record_tenant parse r =
     (case Option.bind (Option.bind (parse (sr_payload r)) (\<lambda>v. jget v ''tenant_id'')) as_str of
        None \<Rightarrow> None
      | Some t \<Rightarrow>
          (let tenant = trim t in
           if tenant = [] \<or> 128 < length tenant then None
           else if has_control tenant then None
           else Some tenant))"

subsection \<open>Bounds\<close>

record Codec =
  cd_ser :: "SpoolRecord \<Rightarrow> string"
  cd_parse :: "string \<Rightarrow> SpoolRecord option"

definition record_bytes :: "Codec \<Rightarrow> SpoolRecord \<Rightarrow> nat" where
  "record_bytes c r = length (cd_ser c r) + 1"

text \<open>The loop over the sizes: how many records to drop from the front.\<close>

fun byte_drops :: "nat \<Rightarrow> nat \<Rightarrow> nat list \<Rightarrow> nat" where
  "byte_drops max_bytes total_bytes [] = 0"
| "byte_drops max_bytes total_bytes (sz # sizes) =
     (if max_bytes < total_bytes then Suc (byte_drops max_bytes (total_bytes - sz) sizes) else 0)"

definition enforce_spool_bounds :: "Codec \<Rightarrow> nat \<Rightarrow> nat \<Rightarrow> SpoolRecord list \<Rightarrow> SpoolRecord list \<times> nat" where
  "enforce_spool_bounds c max_records max_bytes records =
     (let kept = (if max_records < length records then drop (length records - max_records) records else records);
          sizes = map (record_bytes c) kept;
          result = drop (byte_drops max_bytes (sum_list sizes) sizes) kept
      in (result, length records - length result))"

subsection \<open>Files\<close>

type_synonym spool_file = "bytes option"

record Faults =
  ft_lock :: "string option"
  ft_read_spool :: "string option"
  ft_read_dead :: "string option"
  ft_write_spool :: "string option"
  ft_write_dead :: "string option"
  ft_append :: "(nat \<times> string) option"
  ft_metadata :: bool

definition no_faults :: Faults where
  "no_faults = \<lparr>ft_lock = None, ft_read_spool = None, ft_read_dead = None, ft_write_spool = None,
     ft_write_dead = None, ft_append = None, ft_metadata = False\<rparr>"

text \<open>\<^verbatim>\<open>BufRead::lines\<close>: the lines without their endings.\<close>

definition file_lines :: "bytes \<Rightarrow> bytes list" where
  "file_lines s =
     (let parts = split_ch LF s;
          whole = (if last parts = [] then butlast parts else parts)
      in map (\<lambda>(l, ended). if ended \<and> l \<noteq> [] \<and> last l = CR then butlast l else l)
           (zip whole (replicate (length parts - 1) True @ [False])))"

text \<open>The loop over the lines: an undecodable line is an error, an unreadable record is skipped.\<close>

fun collect_records :: "Codec \<Rightarrow> bytes list \<Rightarrow> string + SpoolRecord list" where
  "collect_records c [] = Inr []"
| "collect_records c (line # rest) =
     (if \<not> valid_utf8 line then Inl ''stream did not contain valid UTF-8''
      else if trim line = [] then collect_records c rest
      else (case cd_parse c line of
              None \<Rightarrow> collect_records c rest
            | Some r \<Rightarrow> map_sum id ((#) r) (collect_records c rest)))"

definition read_records :: "Codec \<Rightarrow> string option \<Rightarrow> spool_file \<Rightarrow> string + SpoolRecord list" where
  "read_records c fault f =
     (case f of
        None \<Rightarrow> Inr []
      | Some content \<Rightarrow>
          (case fault of Some e \<Rightarrow> Inl e | None \<Rightarrow> collect_records c (file_lines content)))"

definition file_of :: "Codec \<Rightarrow> SpoolRecord list \<Rightarrow> bytes" where
  "file_of c records = concat (map (\<lambda>r. cd_ser c r @ [LF]) records)"

definition write_records_atomically ::
  "Codec \<Rightarrow> string option \<Rightarrow> SpoolRecord list \<Rightarrow> spool_file \<Rightarrow> (string + unit) \<times> spool_file" where
  "write_records_atomically c fault records f =
     (if records = []
      then (case f of
              None \<Rightarrow> (Inr (), None)
            | Some _ \<Rightarrow> (case fault of Some e \<Rightarrow> (Inl e, f) | None \<Rightarrow> (Inr (), None)))
      else (case fault of Some e \<Rightarrow> (Inl e, f) | None \<Rightarrow> (Inr (), Some (file_of c records))))"

text \<open>\<^verbatim>\<open>write_all\<close> and the sync may fail after any number of bytes.\<close>

definition append_record :: "Codec \<Rightarrow> (nat \<times> string) option \<Rightarrow> SpoolRecord \<Rightarrow> spool_file \<Rightarrow> (string + unit) \<times> spool_file" where
  "append_record c fault r f =
     (let content = (case f of Some b \<Rightarrow> b | None \<Rightarrow> []); line = cd_ser c r @ [LF] in
      case fault of
        None \<Rightarrow> (Inr (), Some (content @ line))
      | Some (n, e) \<Rightarrow> (Inl e, if f = None \<and> n = 0 then None else Some (content @ take n line)))"

definition append_record_bounded ::
  "Codec \<Rightarrow> Faults \<Rightarrow> nat \<Rightarrow> nat \<Rightarrow> SpoolRecord \<Rightarrow> spool_file \<Rightarrow> (string + unit) \<times> spool_file" where
  "append_record_bounded c ft max_records max_bytes r f =
     (let existing_len = (if ft_metadata ft then 0 else (case f of Some b \<Rightarrow> length b | None \<Rightarrow> 0)) in
      if max_bytes < existing_len + length (cd_ser c r) + 1
      then (case read_records c (ft_read_spool ft) f of
              Inl e \<Rightarrow> (Inl e, f)
            | Inr records \<Rightarrow>
                write_records_atomically c (ft_write_spool ft)
                  (fst (enforce_spool_bounds c max_records max_bytes (records @ [r]))) f)
      else append_record c (ft_append ft) r f)"

definition append_dead_records_bounded ::
  "Codec \<Rightarrow> Faults \<Rightarrow> nat \<Rightarrow> nat \<Rightarrow> SpoolRecord list \<Rightarrow> spool_file \<Rightarrow> (string + unit) \<times> spool_file" where
  "append_dead_records_bounded c ft max_records max_bytes new_dead f =
     (if new_dead = [] then (Inr (), f)
      else (case read_records c (ft_read_dead ft) f of
              Inl e \<Rightarrow> (Inl e, f)
            | Inr records \<Rightarrow>
                write_records_atomically c (ft_write_dead ft)
                  (fst (enforce_spool_bounds c max_records max_bytes (records @ new_dead))) f))"

end
