(* ===== verification/Outbox.thy ===== *)
theory Outbox
  imports Spool
begin

section \<open>The outbox\<close>

text \<open>
  Model of the operations of \<^verbatim>\<open>Outbox\<close> in \<^verbatim>\<open>mcp-shield/src/outbox.rs\<close>. The mutex and the
  advisory lock make every access to the files one step; a drain is three of them: it loads the
  spool, posts records without holding a lock, and reconciles the outcome with what the spool
  holds by then. What the dashboard answers and what the clocks show is an argument.
\<close>

record Files =
  f_spool :: spool_file
  f_dead :: spool_file

text \<open>The process lock is taken first, and its failure is the result.\<close>

definition new_record :: "nat \<Rightarrow> string \<Rightarrow> string \<Rightarrow> SpoolRecord" where
  "new_record now event_id payload =
     \<lparr>sr_event_id = event_id, sr_payload = payload, sr_attempts = 0, sr_next_attempt_ms = now,
      sr_last_error = None, sr_created_ms = now\<rparr>"

definition enqueue :: "Codec \<Rightarrow> Faults \<Rightarrow> nat \<Rightarrow> string \<Rightarrow> string \<Rightarrow> Files \<Rightarrow> (string + unit) \<times> Files" where
  "enqueue c ft now event_id payload fs =
     (let r = new_record now event_id payload in
      case ft_lock ft of
        Some e \<Rightarrow> (Inl e, fs)
      | None \<Rightarrow>
          (let (res, f) = append_record_bounded c ft MAX_SPOOL_RECORDS MAX_SPOOL_BYTES r (f_spool fs) in
           (res, fs\<lparr>f_spool := f\<rparr>)))"

definition load_pending :: "Codec \<Rightarrow> Faults \<Rightarrow> Files \<Rightarrow> string + SpoolRecord list" where
  "load_pending c ft fs =
     (case ft_lock ft of Some e \<Rightarrow> Inl e | None \<Rightarrow> read_records c (ft_read_spool ft) (f_spool fs))"

subsection \<open>Delivery\<close>

definition MAX_INGEST_RESPONSE_BYTES :: nat where
  "MAX_INGEST_RESPONSE_BYTES = 64 * 1024"

text \<open>The chunks that arrive until the end, an error, or the first that would pass the bound.\<close>

fun bounded_body :: "bytes \<Rightarrow> bytes list \<Rightarrow> bytes" where
  "bounded_body body [] = body"
| "bounded_body body (chunk # rest) =
     (if MAX_INGEST_RESPONSE_BYTES < length body + length chunk then body else bounded_body (body @ chunk) rest)"

definition read_bounded_response :: "bytes list \<Rightarrow> string" where
  "read_bounded_response chunks = from_utf8_lossy (bounded_body [] chunks)"

text \<open>The answer to one request: an error, or a status and the chunks of its body.\<close>

type_synonym answer = "string + nat \<times> bytes list"

definition is_2xx :: "nat \<Rightarrow> bool" where
  "is_2xx status \<longleftrightarrow> 200 \<le> status \<and> status < 300"

definition post ::
  "(string \<Rightarrow> json option) \<Rightarrow> answer \<Rightarrow> Revocations \<Rightarrow> (string + nat \<times> string) \<times> Revocations" where
  "post parse a rv =
     (case a of
        Inl e \<Rightarrow> (Inl e, rv)
      | Inr (status, chunks) \<Rightarrow>
          (let body = read_bounded_response chunks in
           (Inr (status, body), if is_2xx status then snd (observe_revoked_sessions parse body rv) else rv)))"

record DrainOutcome =
  do_delivered :: "string hashset"
  do_updated :: "(string, SpoolRecord) hashmap"
  do_dead :: "SpoolRecord list"

definition no_outcome :: DrainOutcome where
  "no_outcome = \<lparr>do_delivered = [], do_updated = [], do_dead = []\<rparr>"

text \<open>\<open>retry\<close> is the end of the loop body, after a failure that may pass.\<close>

definition retry :: "nat \<Rightarrow> string \<Rightarrow> SpoolRecord \<Rightarrow> DrainOutcome \<Rightarrow> DrainOutcome" where
  "retry now error r out =
     (let r' = defer_record now error r in
      if MAX_ATTEMPTS \<le> sr_attempts r' then out\<lparr>do_dead := do_dead out @ [r']\<rparr>
      else out\<lparr>do_updated := hm_insert (sr_event_id r') r' (do_updated out)\<rparr>)"

definition settle :: "nat \<Rightarrow> string + nat \<times> string \<Rightarrow> SpoolRecord \<Rightarrow> DrainOutcome \<Rightarrow> DrainOutcome" where
  "settle now result r out =
     (case result of
        Inr (status, _) \<Rightarrow>
          if is_2xx status then out\<lparr>do_delivered := hs_insert (sr_event_id r) (do_delivered out)\<rparr>
          else if is_permanent status
          then out\<lparr>do_dead := do_dead out @ [r\<lparr>sr_last_error := Some (''http '' @ show_nat status)\<rparr>]\<rparr>
          else retry now (''http '' @ show_nat status) r out
      | Inl e \<Rightarrow> retry now e r out)"

text \<open>
  One turn of the loop: whether the budget is used up, the answer to the request if one is made,
  and the clock afterwards. With no turn left the task was aborted, and nothing is reconciled.
\<close>

record Turn =
  tn_expired :: bool
  tn_answer :: answer
  tn_clock :: nat

fun drain_loop ::
  "(string \<Rightarrow> json option) \<Rightarrow> bool \<Rightarrow> nat \<Rightarrow> SpoolRecord list \<Rightarrow> Turn list \<Rightarrow> DrainOutcome \<Rightarrow> Revocations
   \<Rightarrow> DrainOutcome option \<times> Revocations" where
  "drain_loop parse force now [] ts out rv = (Some out, rv)"
| "drain_loop parse force now (r # rs) [] out rv = (None, rv)"
| "drain_loop parse force now (r # rs) (t # ts) out rv =
     (if tn_expired t then (Some out, rv)
      else if \<not> force \<and> now < sr_next_attempt_ms r then drain_loop parse force now rs ts out rv
      else (let (result, rv') = post parse (tn_answer t) rv in
            drain_loop parse force now rs ts (settle (tn_clock t) result r out) rv'))"

definition outcome_empty :: "DrainOutcome \<Rightarrow> bool" where
  "outcome_empty out \<longleftrightarrow> do_delivered out = [] \<and> do_updated out = [] \<and> do_dead out = []"

subsection \<open>Reconciling\<close>

definition settled :: "DrainOutcome \<Rightarrow> SpoolRecord \<Rightarrow> bool" where
  "settled out r \<longleftrightarrow>
     sr_event_id r \<in> set (do_delivered out) \<or> sr_event_id r \<in> sr_event_id ` set (do_dead out)"

definition updated_record :: "DrainOutcome \<Rightarrow> SpoolRecord \<Rightarrow> SpoolRecord" where
  "updated_record out r = unwrap_or (hm_get (do_updated out) (sr_event_id r)) r"

definition reconcile :: "Codec \<Rightarrow> Faults \<Rightarrow> DrainOutcome \<Rightarrow> Files \<Rightarrow> (string + unit) \<times> Files" where
  "reconcile c ft out fs =
     (case ft_lock ft of
        Some e \<Rightarrow> (Inl e, fs)
      | None \<Rightarrow>
          (case read_records c (ft_read_spool ft) (f_spool fs) of
             Inl e \<Rightarrow> (Inl e, fs)
           | Inr records \<Rightarrow>
               (let keep = map (updated_record out) (filter (\<lambda>r. \<not> settled out r) records);
                    keep' = fst (enforce_spool_bounds c MAX_SPOOL_RECORDS MAX_SPOOL_BYTES keep);
                    (_, dead) = append_dead_records_bounded c ft MAX_SPOOL_RECORDS MAX_SPOOL_BYTES
                                  (do_dead out) (f_dead fs);
                    (res, spool) = write_records_atomically c (ft_write_spool ft) keep' (f_spool fs)
                in (res, \<lparr>f_spool = spool, f_dead = dead\<rparr>))))"

text \<open>
  A whole drain: \<open>between\<close> is what other tasks and processes do to the files while the records
  are posted. A failed reconciliation is only logged.
\<close>

definition drain ::
  "Codec \<Rightarrow> (string \<Rightarrow> json option) \<Rightarrow> Faults \<Rightarrow> Faults \<Rightarrow> bool \<Rightarrow> nat \<Rightarrow> Turn list \<Rightarrow> (Files \<Rightarrow> Files)
   \<Rightarrow> Files \<Rightarrow> Revocations \<Rightarrow> Files \<times> Revocations" where
  "drain c parse ft ft' force now ts between fs rv =
     (case load_pending c ft fs of
        Inl e \<Rightarrow> (fs, rv)
      | Inr pending \<Rightarrow>
          if pending = [] then (fs, rv)
          else
            (let (out, rv') = drain_loop parse force now pending ts no_outcome rv in
             case out of
               None \<Rightarrow> (between fs, rv')
             | Some out \<Rightarrow>
                 if outcome_empty out then (between fs, rv')
                 else (snd (reconcile c ft' out (between fs)), rv')))"

subsection \<open>Replaying and counting\<close>

definition replayed_record :: "nat \<Rightarrow> SpoolRecord \<Rightarrow> SpoolRecord" where
  "replayed_record now r =
     r\<lparr>sr_attempts := 0, sr_next_attempt_ms := 0, sr_last_error := None,
       sr_created_ms := (if sr_created_ms r = 0 then now else sr_created_ms r)\<rparr>"

definition of_tenant :: "(string \<Rightarrow> json option) \<Rightarrow> string option \<Rightarrow> SpoolRecord \<Rightarrow> bool" where
  "of_tenant parse tenant r \<longleftrightarrow> (case tenant of None \<Rightarrow> True | Some scope \<Rightarrow> record_tenant parse r = Some scope)"

definition replay_dead_letters ::
  "Codec \<Rightarrow> (string \<Rightarrow> json option) \<Rightarrow> Faults \<Rightarrow> nat \<Rightarrow> string option \<Rightarrow> Files \<Rightarrow> (string + nat) \<times> Files" where
  "replay_dead_letters c parse ft now tenant fs =
     (case ft_lock ft of
        Some e \<Rightarrow> (Inl e, fs)
      | None \<Rightarrow>
          (case read_records c (ft_read_dead ft) (f_dead fs) of
             Inl e \<Rightarrow> (Inl e, fs)
           | Inr dead_records \<Rightarrow>
               (let selected = filter (of_tenant parse tenant) dead_records;
                    left_behind = filter (\<lambda>r. \<not> of_tenant parse tenant r) dead_records in
                if selected = [] then (Inr 0, fs)
                else
                  (case read_records c (ft_read_spool ft) (f_spool fs) of
                     Inl e \<Rightarrow> (Inl e, fs)
                   | Inr pending \<Rightarrow>
                       (let projected_records = length pending + length selected;
                            projected_bytes = sum_list (map (record_bytes c) (pending @ selected)) in
                        if MAX_SPOOL_RECORDS < projected_records \<or> MAX_SPOOL_BYTES < projected_bytes
                        then (Inl (''the outbox spool is at its bound ('' @ show_nat projected_records @ '' records, ''
                                @ show_nat projected_bytes @ '' bytes); the dead letters were not replayed and ''
                                @ ''no pending event was discarded''), fs)
                        else
                          (let all = pending @ map (replayed_record now) selected;
                               bounded = fst (enforce_spool_bounds c MAX_SPOOL_RECORDS MAX_SPOOL_BYTES all) in
                           case write_records_atomically c (ft_write_spool ft) bounded (f_spool fs) of
                             (Inl e, spool) \<Rightarrow> (Inl e, fs\<lparr>f_spool := spool\<rparr>)
                           | (Inr _, spool) \<Rightarrow>
                               (case write_records_atomically c (ft_write_dead ft) left_behind (f_dead fs) of
                                  (Inl e, dead) \<Rightarrow> (Inl e, \<lparr>f_spool = spool, f_dead = dead\<rparr>)
                                | (Inr _, dead) \<Rightarrow>
                                    (Inr (length selected), \<lparr>f_spool = spool, f_dead = dead\<rparr>))))))))"

record OutboxStats =
  outbox_pending :: nat
  outbox_dead_letter :: nat
  oldest_pending_age_seconds :: nat

text \<open>\<^verbatim>\<open>stats\<close> goes on without the process lock, and a file that cannot be read counts as empty.\<close>

definition stats :: "Codec \<Rightarrow> (string \<Rightarrow> json option) \<Rightarrow> Faults \<Rightarrow> nat \<Rightarrow> Files \<Rightarrow> OutboxStats" where
  "stats c parse ft now fs =
     (let pending = (case read_records c (ft_read_spool ft) (f_spool fs) of Inr rs \<Rightarrow> rs | Inl _ \<Rightarrow> []);
          dead = (case read_records c (ft_read_dead ft) (f_dead fs) of Inr rs \<Rightarrow> rs | Inl _ \<Rightarrow> []);
          ages = map (\<lambda>created. ((now - created) div 1000) mod 2 ^ 64)
                   (List.map_filter (record_created_ms parse) pending)
      in \<lparr>outbox_pending = length pending, outbox_dead_letter = length dead,
          oldest_pending_age_seconds = fold max ages 0\<rparr>)"

end
