(* ===== verification/Outbox_Spec.thy ===== *)
theory Outbox_Spec
  imports Outbox
begin

section \<open>What the spool promises\<close>

text \<open>
  A spool file stands for a list of records. Every operation of the file layer is shown to be the
  list operation it implements, the bounds drop as few of the oldest records as they can, and
  the retry schedule is bounded.
\<close>

subsection \<open>A codec for one line\<close>

text \<open>What the spool relies on: one line per record, which reads back.\<close>

definition codec_ok :: "Codec \<Rightarrow> bool" where
  "codec_ok c \<longleftrightarrow> (\<forall>r. cd_parse c (cd_ser c r) = Some r \<and> LF \<notin> set (cd_ser c r) \<and> valid_utf8 (cd_ser c r) \<and>
     trim (cd_ser c r) \<noteq> [] \<and> last (cd_ser c r) \<noteq> CR)"

lemma codec_okD:
  assumes "codec_ok c"
  shows "cd_parse c (cd_ser c r) = Some r" "LF \<notin> set (cd_ser c r)" "valid_utf8 (cd_ser c r)"
    "trim (cd_ser c r) \<noteq> []" "cd_ser c r \<noteq> []" "last (cd_ser c r) \<noteq> CR"
  using assms unfolding codec_ok_def by (auto simp: trim_Nil) (metis trim_Nil)

lemma split_ch_line: "d \<notin> set x \<Longrightarrow> split_ch d (x @ d # s) = x # split_ch d s"
  by (induction x) auto

lemma split_lines_single: "d \<notin> set x \<Longrightarrow> split_ch d x = [x]"
  by (induction x) auto

lemma split_file_of:
  "codec_ok c \<Longrightarrow> split_ch LF (file_of c rs @ s) = map (cd_ser c) rs @ split_ch LF s"
  by (induction rs) (auto simp: file_of_def split_ch_line codec_okD)

lemma file_lines_tail:
  assumes "codec_ok c" "LF \<notin> set s"
  shows "file_lines (file_of c rs @ s) = map (cd_ser c) rs @ (if s = [] then [] else [s])"
proof -
  let ?f = "\<lambda>(l, ended). if ended \<and> l \<noteq> [] \<and> last l = CR then butlast l else l"
  have parts: "split_ch LF (file_of c rs @ s) = map (cd_ser c) rs @ [s]"
    by (simp add: split_file_of assms split_lines_single)
  have whole: "map ?f (zip (map (cd_ser c) rs) (replicate (length rs) True)) = map (cd_ser c) rs"
    using codec_okD(6) [OF assms(1)] by (intro nth_equalityI) auto
  show ?thesis
  proof (cases "s = []")
    case True
    have "zip (map (cd_ser c) rs) (replicate (length rs) True @ [False]) =
        zip (map (cd_ser c) rs) (replicate (length rs) True)"
      by (simp add: zip_append2)
    then show ?thesis using True whole unfolding file_lines_def Let_def parts by simp
  next
    case False
    then show ?thesis using whole unfolding file_lines_def Let_def parts by simp
  qed
qed

lemma collect_append:
  assumes "codec_ok c"
  shows "collect_records c (map (cd_ser c) rs @ ls) = map_sum id ((@) rs) (collect_records c ls)"
proof (induction rs)
  case Nil
  show ?case by (cases "collect_records c ls") simp_all
next
  case (Cons r rs)
  then show ?case
    by (cases "collect_records c ls") (simp_all add: codec_okD [OF assms])
qed

text \<open>A file that holds exactly these records.\<close>

definition holds :: "Codec \<Rightarrow> spool_file \<Rightarrow> SpoolRecord list \<Rightarrow> bool" where
  "holds c f rs \<longleftrightarrow> (case f of None \<Rightarrow> rs = [] | Some b \<Rightarrow> b = file_of c rs)"

lemma read_holds:
  assumes "codec_ok c" "holds c f rs"
  shows "read_records c None f = Inr rs"
proof (cases f)
  case (Some b)
  then have "file_lines b = map (cd_ser c) rs"
    using file_lines_tail [OF assms(1), of "[]" rs] assms(2) by (simp add: holds_def)
  then show ?thesis using collect_append [OF assms(1), of rs "[]"] Some by (simp add: read_records_def)
qed (use assms in \<open>simp add: read_records_def holds_def\<close>)

lemma read_fault:
  "codec_ok c \<Longrightarrow> holds c f rs \<Longrightarrow> read_records c fault f = Inr rs' \<Longrightarrow> rs' = rs"
  using read_holds [of c f rs] by (cases f; cases fault) (auto simp: read_records_def)

lemma write_holds:
  "write_records_atomically c fault rs f = (res, f') \<Longrightarrow> holds c f rs0 \<Longrightarrow>
     holds c f' (case res of Inr _ \<Rightarrow> rs | Inl _ \<Rightarrow> rs0)"
  by (auto simp: write_records_atomically_def holds_def file_of_def split: if_splits option.splits)

lemma append_holds:
  "append_record c fault r f = (res, f') \<Longrightarrow> holds c f rs \<Longrightarrow> (case fault of Some (n, e) \<Rightarrow> n = 0 | None \<Rightarrow> True) \<Longrightarrow>
     holds c f' (case res of Inr _ \<Rightarrow> rs @ [r] | Inl _ \<Rightarrow> rs)"
  by (auto simp: append_record_def holds_def file_of_def Let_def split: option.splits if_splits)

subsection \<open>Torn appends\<close>

text \<open>
  A torn last line without its line feed swallows the next record that is appended: the append
  succeeds and the record is not read back.
\<close>

lemma torn_line_swallows_next:
  assumes "codec_ok c" "0 < n" "n \<le> length (cd_ser c r)"
    and "valid_utf8 (take n (cd_ser c r) @ cd_ser c r')" "cd_parse c (take n (cd_ser c r) @ cd_ser c r') = None"
    and "f = snd (append_record c (Some (n, e)) r (Some (file_of c rs)))"
  shows "fst (append_record c None r' f) = Inr () \<and>
    read_records c None (snd (append_record c None r' f)) = Inr rs"
proof -
  let ?t = "take n (cd_ser c r)"
  have nl: "LF \<notin> set ?t" "LF \<notin> set (cd_ser c r')"
    using codec_okD(2) [OF assms(1)] by (meson in_set_takeD, simp)
  have "last (?t @ cd_ser c r') \<noteq> CR" using codec_okD(5,6) [OF assms(1)] by simp
  have f: "f = Some (file_of c rs @ ?t)" using assms(3,6) by (simp add: append_record_def Let_def)
  have parts: "split_ch LF ((file_of c rs @ ?t) @ cd_ser c r' @ [LF]) = map (cd_ser c) rs @ [?t @ cd_ser c r', []]"
    using split_file_of [OF assms(1), of rs "(?t @ cd_ser c r') @ LF # []"] split_ch_line [of LF "?t @ cd_ser c r'" "[]"] nl
    by simp
  let ?f = "\<lambda>(l, ended). if ended \<and> l \<noteq> [] \<and> last l = CR then butlast l else l"
  let ?ls = "map (cd_ser c) rs @ [?t @ cd_ser c r']"
  have "map ?f (zip ?ls (replicate (Suc (length rs)) True @ [False])) = ?ls"
  proof (rule nth_equalityI)
    show "length (map ?f (zip ?ls (replicate (Suc (length rs)) True @ [False]))) = length ?ls" by simp
    fix i assume "i < length (map ?f (zip ?ls (replicate (Suc (length rs)) True @ [False])))"
    then have i: "i < Suc (length rs)" by simp
    have "last (?ls ! i) \<noteq> CR" using i codec_okD(5,6) [OF assms(1)] by (simp add: nth_append)
    then show "map ?f (zip ?ls (replicate (Suc (length rs)) True @ [False])) ! i = ?ls ! i"
      using i by (simp add: nth_append)
  qed
  then have "file_lines ((file_of c rs @ ?t) @ cd_ser c r' @ [LF]) = ?ls"
    unfolding file_lines_def Let_def parts by (simp add: butlast_append)
  moreover have "collect_records c ?ls = Inr rs"
    using collect_append [OF assms(1), of rs "[?t @ cd_ser c r']"] assms(4,5) by simp
  ultimately show ?thesis by (simp add: f append_record_def Let_def read_records_def)
qed

text \<open>A line torn inside a character makes the whole file unreadable.\<close>

lemma torn_character_poisons:
  assumes "codec_ok c" "n \<le> length (cd_ser c r)" "\<not> valid_utf8 (take n (cd_ser c r))"
    and "f = snd (append_record c (Some (n, e)) r (Some (file_of c rs)))"
  shows "read_records c None f = Inl ''stream did not contain valid UTF-8''"
proof -
  let ?t = "take n (cd_ser c r)"
  have "LF \<notin> set ?t" "?t \<noteq> []"
    using codec_okD(2) [OF assms(1)] assms(3) by (meson in_set_takeD, metis valid_utf8.simps)
  then have "file_lines (file_of c rs @ ?t) = map (cd_ser c) rs @ [?t]"
    using file_lines_tail [OF assms(1)] by simp
  then show ?thesis
    using collect_append [OF assms(1), of rs "[?t]"] assms(2-4)
    by (simp add: append_record_def Let_def read_records_def)
qed

subsection \<open>Bounds\<close>

lemma byte_drops_le: "byte_drops m t sizes \<le> length sizes"
  by (induction sizes arbitrary: t) auto

lemma byte_drops_spec:
  "sum_list (drop (byte_drops m (sum_list sizes) sizes) sizes) \<le> m \<and>
   (byte_drops m (sum_list sizes) sizes = 0 \<or>
      m < sum_list (drop (byte_drops m (sum_list sizes) sizes - 1) sizes))"
proof (induction sizes)
  case (Cons a sizes)
  then show ?case by (cases "byte_drops m (sum_list sizes) sizes") (auto simp: not_less)
qed simp

definition spool_bytes :: "Codec \<Rightarrow> SpoolRecord list \<Rightarrow> nat" where
  "spool_bytes c rs = sum_list (map (record_bytes c) rs)"

definition within_bounds :: "Codec \<Rightarrow> nat \<Rightarrow> nat \<Rightarrow> SpoolRecord list \<Rightarrow> bool" where
  "within_bounds c mr mb rs \<longleftrightarrow> length rs \<le> mr \<and> spool_bytes c rs \<le> mb"

lemma enforce_bounds_cases:
  obtains n where "n \<le> length rs" "enforce_spool_bounds c mr mb rs = (drop n rs, n)"
    "within_bounds c mr mb (drop n rs)" "n = 0 \<or> \<not> within_bounds c mr mb (drop (n - 1) rs)"
proof -
  define k where "k = length rs - mr"
  define kept where "kept = drop k rs"
  define d where "d = byte_drops mb (sum_list (map (record_bytes c) kept)) (map (record_bytes c) kept)"
  have kept: "(if mr < length rs then drop (length rs - mr) rs else rs) = kept"
    by (simp add: kept_def k_def)
  have d: "d \<le> length kept" unfolding d_def using byte_drops_le [of mb _ "map (record_bytes c) kept"] by simp
  have e: "enforce_spool_bounds c mr mb rs = (drop (k + d) rs, k + d)"
    using d by (simp add: enforce_spool_bounds_def Let_def kept d_def [symmetric]) (simp add: kept_def k_def add.commute)
  have spec: "spool_bytes c (drop d kept) \<le> mb" "d = 0 \<or> mb < spool_bytes c (drop (d - 1) kept)"
    using byte_drops_spec [of mb "map (record_bytes c) kept"] by (simp_all add: spool_bytes_def d_def drop_map)
  have "within_bounds c mr mb (drop (k + d) rs)"
    using spec(1) by (auto simp: within_bounds_def kept_def k_def add.commute)
  moreover have "k + d = 0 \<or> \<not> within_bounds c mr mb (drop (k + d - 1) rs)"
  proof (cases "d = 0")
    case True
    then show ?thesis by (auto simp: within_bounds_def k_def)
  next
    case False
    then have "drop (k + d - 1) rs = drop (d - 1) kept" by (simp add: kept_def add.commute)
    then show ?thesis using spec(2) False by (simp add: within_bounds_def)
  qed
  moreover have "k + d \<le> length rs" using d by (simp add: kept_def k_def)
  ultimately show ?thesis using that e by blast
qed

lemma enforce_id: "enforce_spool_bounds c mr mb rs = (rs', n) \<Longrightarrow> rs' = drop n rs \<and> n \<le> length rs"
  by (cases rule: enforce_bounds_cases [of rs c mr mb]) auto

text \<open>
  C24: a bounded file keeps the newest records and as many as fit: what is kept is the input
  without its first \<open>n\<close> records, within both bounds, and with one record more it would break
  one of them; the count reported is the number dropped.
\<close>

theorem bounds_drop_fewest_oldest:
  "case enforce_spool_bounds c max_records max_bytes records of
     (kept, n) \<Rightarrow>
       kept = drop n records \<and> n \<le> length records \<and>
       length kept \<le> max_records \<and> sum_list (map (record_bytes c) kept) \<le> max_bytes \<and>
       (if n = 0 then True
        else max_records < length (drop (n - 1) records) \<or>
             max_bytes < sum_list (map (record_bytes c) (drop (n - 1) records)))"
  by (cases rule: enforce_bounds_cases [of records c max_records max_bytes])
    (auto simp: within_bounds_def spool_bytes_def not_le)

subsection \<open>Retries\<close>

lemma unat_min_8: "unat (min (a :: 32 word) 8) = min (unat a) 8"
  by (simp add: min_def word_le_nat_alt)

lemma backoff_range: "1000 \<le> backoff_ms a" "backoff_ms a \<le> 256000"
proof -
  have "(2 :: nat) ^ min (unat a) 8 \<le> 2 ^ 8" by (rule power_increasing) simp_all
  then show "1000 \<le> backoff_ms a" "backoff_ms a \<le> 256000"
    unfolding backoff_ms_def unat_min_8 by (simp_all add: min_def split: if_splits)
qed

lemma jitter_range: "jitter_ms i < 1000"
  by (simp add: jitter_ms_def)

text \<open>The record after a series of failed attempts, each at its clock and with its error.\<close>

definition after_failures :: "(nat \<times> string) list \<Rightarrow> SpoolRecord \<Rightarrow> SpoolRecord" where
  "after_failures fs r = fold (\<lambda>(now, e). defer_record now e) fs r"

lemma after_failures_attempts:
  "sr_attempts (after_failures fs r) = sr_attempts r + of_nat (length fs) \<and>
   sr_event_id (after_failures fs r) = sr_event_id r \<and> sr_payload (after_failures fs r) = sr_payload r"
  unfolding after_failures_def
  by (induction fs arbitrary: r) (auto simp: defer_record_def Let_def)

text \<open>
  C10: retrying is bounded: a record that was enqueued stays in the spool for its first nine
  failures, each of which schedules the next attempt 1 to 257 seconds ahead, and the tenth
  puts it among the dead letters, with its event unchanged. (The cap of five minutes is never
  reached: the shift stops at 256 seconds.)
\<close>

theorem retries_bounded:
  "case after_failures failures (r\<lparr>sr_attempts := 0\<rparr>) of rk \<Rightarrow>
     (let r' = defer_record now error rk in
      now + 1000 \<le> sr_next_attempt_ms r' \<and> sr_next_attempt_ms r' < now + 257000 \<and>
      backoff_ms (sr_attempts r') < 300000 \<and>
      sr_event_id r' = sr_event_id r \<and> sr_payload r' = sr_payload r \<and>
      (if length failures < 9
       then retry now error rk out = out\<lparr>do_updated := hm_insert (sr_event_id r) r' (do_updated out)\<rparr>
       else if length failures = 9 then retry now error rk out = out\<lparr>do_dead := do_dead out @ [r']\<rparr>
       else True))"
proof -
  define rk where "rk = after_failures failures (r\<lparr>sr_attempts := 0\<rparr>)"
  have rk: "sr_attempts rk = of_nat (length failures)" "sr_event_id rk = sr_event_id r" "sr_payload rk = sr_payload r"
    using after_failures_attempts [of failures "r\<lparr>sr_attempts := 0\<rparr>"] by (simp_all add: rk_def)
  let ?r' = "defer_record now error rk"
  have sched: "now + 1000 \<le> sr_next_attempt_ms ?r'" "sr_next_attempt_ms ?r' < now + 257000"
    using backoff_range [of "sr_attempts rk + 1"] jitter_range [of "sr_event_id rk"]
    by (simp_all add: defer_record_def Let_def)
  have att: "sr_attempts ?r' = of_nat (Suc (length failures))" "sr_event_id ?r' = sr_event_id r" "sr_payload ?r' = sr_payload r"
    by (simp_all add: defer_record_def Let_def rk)
  have cap: "backoff_ms (sr_attempts ?r') < 300000"
    using backoff_range(2) [of "sr_attempts ?r'"] by simp
  have "MAX_ATTEMPTS \<le> sr_attempts ?r' \<longleftrightarrow> 9 \<le> length failures" if "length failures < 10"
    using that unfolding att MAX_ATTEMPTS_def word_le_nat_alt by (simp add: unat_of_nat take_bit_eq_mod del: of_nat_Suc)
  then have "retry now error rk out =
      (if length failures < 9 then out\<lparr>do_updated := hm_insert (sr_event_id r) ?r' (do_updated out)\<rparr>
       else out\<lparr>do_dead := do_dead out @ [?r']\<rparr>)" if "length failures < 10"
    using that att(2) by (auto simp: retry_def Let_def)
  then show ?thesis unfolding rk_def [symmetric] using sched cap att(2,3) by (simp add: Let_def)
qed

end
