(* ===== verification/Outbox_Ledger.thy ===== *)
theory Outbox_Ledger
  imports Outbox_Spec
begin

section \<open>No event is lost\<close>

text \<open>
  Histories of the spool: processes enqueue, drain and replay in any order, with any pending list
  a drain loaded before, any answers of the dashboard, and faults of the file system. A ledger
  notes, beside the files, which events were accepted (\<^verbatim>\<open>enqueue\<close> returned without an
  error), which the dashboard took, and which a bound dropped.
\<close>

datatype spool_op =
    EnqueueOp nat string string Faults
  | DrainOp "SpoolRecord list" bool nat "Turn list" Faults
  | ReplayOp nat "string option" Faults

record Ledger =
  lg_files :: Files
  lg_revocations :: Revocations
  lg_accepted :: "string list"
  lg_delivered :: "string list"
  lg_dropped :: "string list"

definition dropped_from :: "Codec \<Rightarrow> SpoolRecord list \<Rightarrow> string list" where
  "dropped_from c rs =
     map sr_event_id (take (snd (enforce_spool_bounds c MAX_SPOOL_RECORDS MAX_SPOOL_BYTES rs)) rs)"

definition enqueue_drops :: "Codec \<Rightarrow> Faults \<Rightarrow> SpoolRecord \<Rightarrow> spool_file \<Rightarrow> string list" where
  "enqueue_drops c ft r f =
     (if MAX_SPOOL_BYTES < (if ft_metadata ft then 0 else (case f of Some b \<Rightarrow> length b | None \<Rightarrow> 0)) + length (cd_ser c r) + 1
      then (case read_records c (ft_read_spool ft) f of Inr rs \<Rightarrow> dropped_from c (rs @ [r]) | Inl e \<Rightarrow> [])
      else [])"

definition kept_records :: "DrainOutcome \<Rightarrow> SpoolRecord list \<Rightarrow> SpoolRecord list" where
  "kept_records out rs = map (updated_record out) (filter (\<lambda>r. \<not> settled out r) rs)"

definition reconcile_drops :: "Codec \<Rightarrow> Faults \<Rightarrow> DrainOutcome \<Rightarrow> Files \<Rightarrow> string list" where
  "reconcile_drops c ft out fs =
     (case read_records c (ft_read_spool ft) (f_spool fs) of Inr rs \<Rightarrow> dropped_from c (kept_records out rs) | Inl e \<Rightarrow> []) @
     (if do_dead out = [] then []
      else case read_records c (ft_read_dead ft) (f_dead fs) of Inr ds \<Rightarrow> dropped_from c (ds @ do_dead out) | Inl e \<Rightarrow> [])"

definition replay_drops ::
  "Codec \<Rightarrow> (string \<Rightarrow> json option) \<Rightarrow> Faults \<Rightarrow> nat \<Rightarrow> string option \<Rightarrow> Files \<Rightarrow> string list" where
  "replay_drops c parse ft now tenant fs =
     (case (read_records c (ft_read_spool ft) (f_spool fs), read_records c (ft_read_dead ft) (f_dead fs)) of
        (Inr rs, Inr ds) \<Rightarrow> dropped_from c (rs @ map (replayed_record now) (filter (of_tenant parse tenant) ds))
      | _ \<Rightarrow> [])"

fun ledger_step :: "Codec \<Rightarrow> (string \<Rightarrow> json option) \<Rightarrow> spool_op \<Rightarrow> Ledger \<Rightarrow> Ledger" where
  "ledger_step c parse (EnqueueOp now event_id payload ft) L =
     (case enqueue c ft now event_id payload (lg_files L) of
        (Inl e, fs) \<Rightarrow> L\<lparr>lg_files := fs\<rparr>
      | (Inr _, fs) \<Rightarrow>
          L\<lparr>lg_files := fs, lg_accepted := event_id # lg_accepted L,
            lg_dropped := lg_dropped L @ enqueue_drops c ft (new_record now event_id payload) (f_spool (lg_files L))\<rparr>)"
| "ledger_step c parse (DrainOp pending force now ts ft) L =
     (case drain_loop parse force now pending ts no_outcome (lg_revocations L) of
        (None, rv) \<Rightarrow> L\<lparr>lg_revocations := rv\<rparr>
      | (Some out, rv) \<Rightarrow>
          if outcome_empty out then L\<lparr>lg_revocations := rv\<rparr>
          else L\<lparr>lg_files := snd (reconcile c ft out (lg_files L)), lg_revocations := rv,
                 lg_delivered := lg_delivered L @ do_delivered out,
                 lg_dropped := lg_dropped L @ reconcile_drops c ft out (lg_files L)\<rparr>)"
| "ledger_step c parse (ReplayOp now tenant ft) L =
     L\<lparr>lg_files := snd (replay_dead_letters c parse ft now tenant (lg_files L)),
       lg_dropped := lg_dropped L @ replay_drops c parse ft now tenant (lg_files L)\<rparr>"

definition empty_ledger :: Ledger where
  "empty_ledger = \<lparr>lg_files = \<lparr>f_spool = None, f_dead = None\<rparr>,
     lg_revocations = \<lparr>rv_sessions = [], rv_reported = []\<rparr>, lg_accepted = [], lg_delivered = [], lg_dropped = []\<rparr>"

text \<open>
  The two faults that do lose events are excluded: an append torn after its first byte, and a
  dead-letter file that cannot be read or written.
\<close>

fun careful :: "spool_op \<Rightarrow> bool" where
  "careful (EnqueueOp now event_id payload ft) = (case ft_append ft of Some (n, e) \<Rightarrow> n = 0 | None \<Rightarrow> True)"
| "careful (DrainOp pending force now ts ft) = (ft_read_dead ft = None \<and> ft_write_dead ft = None)"
| "careful (ReplayOp now tenant ft) = True"

subsection \<open>What each operation keeps\<close>

lemma enforce_ids:
  "set (map sr_event_id rs) \<subseteq>
     set (map sr_event_id (fst (enforce_spool_bounds c MAX_SPOOL_RECORDS MAX_SPOOL_BYTES rs))) \<union> set (dropped_from c rs)"
proof -
  obtain rs' n where e: "enforce_spool_bounds c MAX_SPOOL_RECORDS MAX_SPOOL_BYTES rs = (rs', n)" by fastforce
  have "set rs = set (take n rs) \<union> set (drop n rs)" by (metis append_take_drop_id set_append)
  then show ?thesis using enforce_id [OF e] by (auto simp: dropped_from_def e)
qed

lemma settle_updates:
  "(\<forall>(k, u) \<in> set (do_updated out). sr_event_id u = k) \<Longrightarrow>
     \<forall>(k, u) \<in> set (do_updated (settle now result r out)). sr_event_id u = k"
  by (auto simp: settle_def retry_def Let_def defer_record_def dest!: set_hm_insert split: sum.splits prod.splits if_splits)

lemma drain_updates:
  "drain_loop parse force now rs ts out rv = (Some out', rv') \<Longrightarrow>
     \<forall>(k, u) \<in> set (do_updated out). sr_event_id u = k \<Longrightarrow> \<forall>(k, u) \<in> set (do_updated out'). sr_event_id u = k"
proof (induction parse force now rs ts out rv rule: drain_loop.induct)
  case (3 parse force now r rs t ts out rv)
  obtain result rv1 where p: "post parse (tn_answer t) rv = (result, rv1)" by fastforce
  from 3 p show ?case using settle_updates [OF 3(4), of "tn_clock t" result r] by (auto split: if_splits)
qed auto

lemma updated_id:
  "\<forall>(k, u) \<in> set (do_updated out). sr_event_id u = k \<Longrightarrow> sr_event_id (updated_record out r) = sr_event_id r"
  by (auto simp: updated_record_def unwrap_or_def split: option.splits dest!: map_of_SomeD)

definition accounted :: "Codec \<Rightarrow> Ledger \<Rightarrow> bool" where
  "accounted c L \<longleftrightarrow> (\<exists>rs ds. holds c (f_spool (lg_files L)) rs \<and> holds c (f_dead (lg_files L)) ds \<and>
     set (lg_accepted L) \<subseteq> sr_event_id ` set rs \<union> sr_event_id ` set ds \<union> set (lg_delivered L) \<union> set (lg_dropped L))"

lemma append_bounded_holds:
  assumes "codec_ok c" "holds c f rs" "append_record_bounded c ft MAX_SPOOL_RECORDS MAX_SPOOL_BYTES r f = (res, f')"
    and "case ft_append ft of Some (n, e) \<Rightarrow> n = 0 | None \<Rightarrow> True"
  shows "\<exists>rs'. holds c f' rs' \<and> sr_event_id ` set rs \<subseteq> sr_event_id ` set rs' \<union> set (if res = Inr () then enqueue_drops c ft r f else []) \<and>
    (res = Inr () \<longrightarrow> sr_event_id r \<in> sr_event_id ` set rs' \<union> set (enqueue_drops c ft r f))"
proof (cases "MAX_SPOOL_BYTES < (if ft_metadata ft then 0 else (case f of Some b \<Rightarrow> length b | None \<Rightarrow> 0)) + length (cd_ser c r) + 1")
  case False
  then have "append_record c (ft_append ft) r f = (res, f')"
    using assms(3) by (simp add: append_record_bounded_def Let_def)
  from append_holds [OF this assms(2,4)] show ?thesis
    by (intro exI [of _ "case res of Inr _ \<Rightarrow> rs @ [r] | Inl _ \<Rightarrow> rs"]) (auto split: sum.splits)
next
  case True
  show ?thesis
  proof (cases "read_records c (ft_read_spool ft) f")
    case (Inl e)
    then show ?thesis using True assms(2,3) by (intro exI [of _ rs]) (auto simp: append_record_bounded_def Let_def)
  next
    case (Inr rs0)
    then have rs0: "rs0 = rs" using read_fault [OF assms(1,2)] by simp
    let ?new = "fst (enforce_spool_bounds c MAX_SPOOL_RECORDS MAX_SPOOL_BYTES (rs @ [r]))"
    have w: "write_records_atomically c (ft_write_spool ft) ?new f = (res, f')"
      using True assms(3) Inr rs0 by (simp add: append_record_bounded_def Let_def)
    have d: "enqueue_drops c ft r f = dropped_from c (rs @ [r])" using True Inr rs0 by (simp add: enqueue_drops_def)
    show ?thesis using write_holds [OF w assms(2)] enforce_ids [of "rs @ [r]" c] unfolding d
      by (intro exI [of _ "case res of Inr _ \<Rightarrow> ?new | Inl _ \<Rightarrow> rs"]) (auto split: sum.splits)
  qed
qed

lemma account_grow:
  "A \<subseteq> R \<union> D \<union> V \<union> P \<Longrightarrow> R \<subseteq> R' \<union> Q \<Longrightarrow> i \<in> R' \<union> Q \<Longrightarrow> insert i A \<subseteq> R' \<union> D \<union> V \<union> (P \<union> Q)"
  "A \<subseteq> R \<union> D \<union> V \<union> P \<Longrightarrow> R \<subseteq> R' \<Longrightarrow> A \<subseteq> R' \<union> D \<union> V \<union> P"
  "A \<subseteq> R \<union> D \<union> V \<union> P \<Longrightarrow> R \<union> D \<subseteq> R' \<union> D' \<union> W \<union> Q \<Longrightarrow> A \<subseteq> R' \<union> D' \<union> (V \<union> W) \<union> (P \<union> Q)"
  by blast+

lemma enqueue_accounted:
  assumes "codec_ok c" "accounted c L" "careful (EnqueueOp now i p ft)"
  shows "accounted c (ledger_step c parse (EnqueueOp now i p ft) L)"
proof -
  obtain rs ds where h: "holds c (f_spool (lg_files L)) rs" "holds c (f_dead (lg_files L)) ds"
    "set (lg_accepted L) \<subseteq> sr_event_id ` set rs \<union> sr_event_id ` set ds \<union> set (lg_delivered L) \<union> set (lg_dropped L)"
    using assms(2) by (auto simp: accounted_def)
  show ?thesis
  proof (cases "ft_lock ft")
    case (Some e)
    then show ?thesis using assms(2) by (simp add: enqueue_def accounted_def)
  next
    case None
    obtain res f where a: "append_record_bounded c ft MAX_SPOOL_RECORDS MAX_SPOOL_BYTES (new_record now i p)
        (f_spool (lg_files L)) = (res, f)" by fastforce
    have i: "sr_event_id (new_record now i p) = i" by (simp add: new_record_def)
    from append_bounded_holds [OF assms(1) h(1) a] assms(3) obtain rs' where rs': "holds c f rs'"
      "sr_event_id ` set rs \<subseteq> sr_event_id ` set rs' \<union>
         set (if res = Inr () then enqueue_drops c ft (new_record now i p) (f_spool (lg_files L)) else [])"
      "res = Inr () \<longrightarrow> i \<in> sr_event_id ` set rs' \<union> set (enqueue_drops c ft (new_record now i p) (f_spool (lg_files L)))"
      unfolding i by auto
    have e: "enqueue c ft now i p (lg_files L) = (res, (lg_files L)\<lparr>f_spool := f\<rparr>)"
      by (simp add: enqueue_def None a)
    let ?L = "ledger_step c parse (EnqueueOp now i p ft) L"
    have files: "f_spool (lg_files ?L) = f" "f_dead (lg_files ?L) = f_dead (lg_files L)" "lg_delivered ?L = lg_delivered L"
      by (cases res; simp add: e)+
    have "set (lg_accepted ?L) \<subseteq> sr_event_id ` set rs' \<union> sr_event_id ` set ds \<union> set (lg_delivered L) \<union> set (lg_dropped ?L)"
    proof (cases res)
      case (Inl err)
      have "sr_event_id ` set rs \<subseteq> sr_event_id ` set rs'" using rs'(2) by (simp add: Inl)
      from account_grow(2) [OF h(3) this] show ?thesis by (simp add: e Inl)
    next
      case (Inr u)
      let ?q = "set (enqueue_drops c ft (new_record now i p) (f_spool (lg_files L)))"
      have "sr_event_id ` set rs \<subseteq> sr_event_id ` set rs' \<union> ?q" "i \<in> sr_event_id ` set rs' \<union> ?q"
        using rs'(2,3) by (simp_all add: Inr)
      from account_grow(1) [OF h(3) this] show ?thesis by (simp add: e Inr)
    qed
    then show ?thesis unfolding accounted_def files using rs'(1) h(2) by blast
  qed
qed

lemma reconcile_accounted:
  assumes "codec_ok c" "holds c (f_spool fs) rs" "holds c (f_dead fs) ds"
    and "\<forall>(k, u) \<in> set (do_updated out). sr_event_id u = k" "ft_read_dead ft = None" "ft_write_dead ft = None"
  shows "\<exists>rs' ds'. holds c (f_spool (snd (reconcile c ft out fs))) rs' \<and> holds c (f_dead (snd (reconcile c ft out fs))) ds' \<and>
    sr_event_id ` set rs \<union> sr_event_id ` set ds \<subseteq>
      sr_event_id ` set rs' \<union> sr_event_id ` set ds' \<union> set (do_delivered out) \<union> set (reconcile_drops c ft out fs)"
proof (cases "ft_lock ft = None \<and> (\<exists>x. read_records c (ft_read_spool ft) (f_spool fs) = Inr x)")
  case False
  then have "snd (reconcile c ft out fs) = fs" by (auto simp: reconcile_def split: option.splits sum.splits)
  then show ?thesis using assms(2,3) by (intro exI [of _ rs] exI [of _ ds]) auto
next
  case True
  then have r: "read_records c (ft_read_spool ft) (f_spool fs) = Inr rs"
    using read_fault [OF assms(1,2)] by auto
  let ?keep = "kept_records out rs"
  let ?keep' = "fst (enforce_spool_bounds c MAX_SPOOL_RECORDS MAX_SPOOL_BYTES ?keep)"
  obtain res spool where w: "write_records_atomically c (ft_write_spool ft) ?keep' (f_spool fs) = (res, spool)" by fastforce
  obtain res' dead where d: "append_dead_records_bounded c ft MAX_SPOOL_RECORDS MAX_SPOOL_BYTES (do_dead out) (f_dead fs) = (res', dead)"
    by fastforce
  have rec: "snd (reconcile c ft out fs) = \<lparr>f_spool = spool, f_dead = dead\<rparr>"
    using True r w d by (simp add: reconcile_def Let_def kept_records_def)
  define ds' where "ds' = (if do_dead out = [] then ds
      else fst (enforce_spool_bounds c MAX_SPOOL_RECORDS MAX_SPOOL_BYTES (ds @ do_dead out)))"
  have hd: "holds c dead ds'"
    using d assms(3,5,6) read_holds [OF assms(1,3)]
    by (auto simp: append_dead_records_bounded_def ds'_def write_records_atomically_def holds_def file_of_def
        split: if_splits option.splits)
  define rs' where "rs' = (case res of Inr _ \<Rightarrow> ?keep' | Inl _ \<Rightarrow> rs)"
  have hs: "holds c spool rs'" unfolding rs'_def by (rule write_holds [OF w assms(2)])
  have drops: "set (reconcile_drops c ft out fs) = set (dropped_from c ?keep) \<union>
      (if do_dead out = [] then {} else set (dropped_from c (ds @ do_dead out)))"
    using assms(5) read_holds [OF assms(1,3)] by (auto simp: reconcile_drops_def r)
  have dead: "sr_event_id ` set ds \<union> sr_event_id ` set (do_dead out) \<subseteq> sr_event_id ` set ds' \<union> set (reconcile_drops c ft out fs)"
    using enforce_ids [of "ds @ do_dead out" c] unfolding drops ds'_def by auto
  have keep: "sr_event_id ` set ?keep \<subseteq> sr_event_id ` set ?keep' \<union> set (reconcile_drops c ft out fs)"
    using enforce_ids [of ?keep c] unfolding drops by auto
  have "sr_event_id x \<in> sr_event_id ` set ?keep \<union> set (do_delivered out) \<union> sr_event_id ` set (do_dead out)" if "x \<in> set rs" for x
  proof (cases "settled out x")
    case False
    then have "updated_record out x \<in> set ?keep" using that by (simp add: kept_records_def)
    then show ?thesis using updated_id [OF assms(4), of x] by (metis UnI1 image_eqI)
  qed (auto simp: settled_def)
  then have "sr_event_id ` set rs \<subseteq> sr_event_id ` set ?keep' \<union> sr_event_id ` set ds' \<union> set (do_delivered out) \<union> set (reconcile_drops c ft out fs)"
    using keep dead by blast
  then have "sr_event_id ` set rs \<union> sr_event_id ` set ds \<subseteq>
      sr_event_id ` set rs' \<union> sr_event_id ` set ds' \<union> set (do_delivered out) \<union> set (reconcile_drops c ft out fs)"
    using dead unfolding rs'_def by (cases res) auto
  then show ?thesis using hs hd unfolding rec by (intro exI [of _ rs'] exI [of _ ds']) simp
qed

lemma drain_accounted:
  assumes "codec_ok c" "accounted c L" "careful (DrainOp pending force now ts ft)"
  shows "accounted c (ledger_step c parse (DrainOp pending force now ts ft) L)"
proof -
  obtain rs ds where h: "holds c (f_spool (lg_files L)) rs" "holds c (f_dead (lg_files L)) ds"
    "set (lg_accepted L) \<subseteq> sr_event_id ` set rs \<union> sr_event_id ` set ds \<union> set (lg_delivered L) \<union> set (lg_dropped L)"
    using assms(2) by (auto simp: accounted_def)
  obtain out rv where d: "drain_loop parse force now pending ts no_outcome (lg_revocations L) = (out, rv)" by fastforce
  show ?thesis
  proof (cases "\<exists>o'. out = Some o' \<and> \<not> outcome_empty o'")
    case False
    then show ?thesis using assms(2) by (auto simp: d accounted_def split: option.splits)
  next
    case True
    then obtain o' where o': "out = Some o'" "\<not> outcome_empty o'" by blast
    have upd: "\<forall>(k, u) \<in> set (do_updated o'). sr_event_id u = k"
      using drain_updates [OF d [unfolded o']] by (simp add: no_outcome_def)
    have ft: "ft_read_dead ft = None" "ft_write_dead ft = None" using assms(3) by simp_all
    obtain rs' ds' where r: "holds c (f_spool (snd (reconcile c ft o' (lg_files L)))) rs'"
      "holds c (f_dead (snd (reconcile c ft o' (lg_files L)))) ds'"
      "sr_event_id ` set rs \<union> sr_event_id ` set ds \<subseteq>
        sr_event_id ` set rs' \<union> sr_event_id ` set ds' \<union> set (do_delivered o') \<union> set (reconcile_drops c ft o' (lg_files L))"
      using reconcile_accounted [OF assms(1) h(1,2) upd ft] by blast
    from account_grow(3) [OF h(3) r(3)] r(1,2) show ?thesis
      unfolding accounted_def by (intro exI [of _ rs'] exI [of _ ds']) (simp add: d o')
  qed
qed

lemma replay_holds:
  assumes "codec_ok c" "holds c (f_spool fs) rs" "holds c (f_dead fs) ds"
  shows "\<exists>rs' ds'. holds c (f_spool (snd (replay_dead_letters c parse ft now tenant fs))) rs' \<and>
    holds c (f_dead (snd (replay_dead_letters c parse ft now tenant fs))) ds' \<and>
    sr_event_id ` set rs \<union> sr_event_id ` set ds \<subseteq>
      sr_event_id ` set rs' \<union> sr_event_id ` set ds' \<union> set (replay_drops c parse ft now tenant fs)"
proof (cases "snd (replay_dead_letters c parse ft now tenant fs) = fs")
  case True
  then show ?thesis using assms(2,3) by (intro exI [of _ rs] exI [of _ ds]) auto
next
  case False
  then have rd: "read_records c (ft_read_dead ft) (f_dead fs) = Inr ds" and lock: "ft_lock ft = None"
    and rsp: "read_records c (ft_read_spool ft) (f_spool fs) = Inr rs"
    using read_fault [OF assms(1,3), of "ft_read_dead ft"] read_fault [OF assms(1,2), of "ft_read_spool ft"]
    by (auto simp: replay_dead_letters_def Let_def split: option.splits sum.splits if_splits)
  let ?sel = "filter (of_tenant parse tenant) ds" and ?left = "filter (\<lambda>r. \<not> of_tenant parse tenant r) ds"
  let ?all = "rs @ map (replayed_record now) ?sel"
  let ?new = "fst (enforce_spool_bounds c MAX_SPOOL_RECORDS MAX_SPOOL_BYTES ?all)"
  obtain r1 spool where w1: "write_records_atomically c (ft_write_spool ft) ?new (f_spool fs) = (r1, spool)" by fastforce
  obtain r2 dead where w2: "write_records_atomically c (ft_write_dead ft) ?left (f_dead fs) = (r2, dead)" by fastforce
  have drops: "replay_drops c parse ft now tenant fs = dropped_from c ?all" by (simp add: replay_drops_def rd rsp)
  have new: "sr_event_id ` set rs \<union> sr_event_id ` set ?sel \<subseteq> sr_event_id ` set ?new \<union> set (dropped_from c ?all)"
    using enforce_ids [of ?all c] by (auto simp: replayed_record_def image_Un image_image)
  have hs: "holds c spool (case r1 of Inr _ \<Rightarrow> ?new | Inl _ \<Rightarrow> rs)" by (rule write_holds [OF w1 assms(2)])
  have hd: "holds c dead (case r2 of Inr _ \<Rightarrow> ?left | Inl _ \<Rightarrow> ds)" by (rule write_holds [OF w2 assms(3)])
  have ds: "sr_event_id ` set ds = sr_event_id ` set ?sel \<union> sr_event_id ` set ?left" by auto
  have files: "snd (replay_dead_letters c parse ft now tenant fs) =
      (case r1 of Inl e \<Rightarrow> fs\<lparr>f_spool := spool\<rparr> | Inr _ \<Rightarrow> \<lparr>f_spool = spool, f_dead = dead\<rparr>)"
    using False w1 w2 by (auto simp: replay_dead_letters_def Let_def lock rd rsp split: if_splits sum.splits)
  show ?thesis
  proof (cases r1)
    case (Inl e)
    then show ?thesis using hs assms(3) unfolding files by (intro exI [of _ rs] exI [of _ ds]) auto
  next
    case (Inr u)
    have sub: "sr_event_id ` set ?left \<subseteq> sr_event_id ` set (case r2 of Inr _ \<Rightarrow> ?left | Inl _ \<Rightarrow> ds)"
      by (cases r2) auto
    have "sr_event_id ` set rs \<union> sr_event_id ` set ds \<subseteq> sr_event_id ` set ?new \<union>
        sr_event_id ` set (case r2 of Inr _ \<Rightarrow> ?left | Inl _ \<Rightarrow> ds) \<union> set (dropped_from c ?all)"
      using new sub unfolding ds by blast
    then show ?thesis using hs hd unfolding files drops Inr by (intro exI) auto
  qed
qed

lemma replay_accounted:
  assumes "codec_ok c" "accounted c L"
  shows "accounted c (ledger_step c parse (ReplayOp now tenant ft) L)"
proof -
  obtain rs ds where h: "holds c (f_spool (lg_files L)) rs" "holds c (f_dead (lg_files L)) ds"
    "set (lg_accepted L) \<subseteq> sr_event_id ` set rs \<union> sr_event_id ` set ds \<union> set (lg_delivered L) \<union> set (lg_dropped L)"
    using assms(2) by (auto simp: accounted_def)
  obtain rs' ds' where r: "holds c (f_spool (snd (replay_dead_letters c parse ft now tenant (lg_files L)))) rs'"
    "holds c (f_dead (snd (replay_dead_letters c parse ft now tenant (lg_files L)))) ds'"
    "sr_event_id ` set rs \<union> sr_event_id ` set ds \<subseteq> sr_event_id ` set rs' \<union> sr_event_id ` set ds' \<union> {} \<union>
      set (replay_drops c parse ft now tenant (lg_files L))"
    using replay_holds [OF assms(1) h(1,2), of parse ft now tenant] by auto
  from account_grow(3) [OF h(3) r(3)] r(1,2) show ?thesis
    unfolding accounted_def by (intro exI [of _ rs'] exI [of _ ds']) simp
qed

lemma ledger_accounted:
  assumes "codec_ok c" "list_all careful ops" "accounted c L"
  shows "accounted c (fold (ledger_step c parse) ops L)"
  using assms(2,3)
proof (induction ops arbitrary: L)
  case (Cons op ops)
  then have "accounted c (ledger_step c parse op L)"
    using enqueue_accounted [OF assms(1)] drain_accounted [OF assms(1)] replay_accounted [OF assms(1)]
    by (cases op) auto
  with Cons show ?case by simp
qed simp

subsection \<open>A concrete codec\<close>

text \<open>
  Six fields separated by dots: strings as two letters a byte, numbers in unary. It shows that
  the contract of the codec can hold, and the witnesses run on it.
\<close>

definition letters :: "char \<Rightarrow> string" where
  "letters ch = [char_of (65 + ord ch div 16), char_of (65 + ord ch mod 16)]"

definition hex_text :: "string \<Rightarrow> string" where
  "hex_text s = concat (map letters s)"

fun text_of_hex :: "string \<Rightarrow> string" where
  "text_of_hex (a # b # r) = char_of ((ord a - 65) * 16 + (ord b - 65)) # text_of_hex r"
| "text_of_hex _ = []"

definition unary_text :: "nat \<Rightarrow> string" where
  "unary_text n = replicate n CHR ''1''"

definition demo_fields :: "SpoolRecord \<Rightarrow> string list" where
  "demo_fields r = [CHR ''r'' # hex_text (sr_event_id r), hex_text (sr_payload r), unary_text (unat (sr_attempts r)),
     unary_text (sr_next_attempt_ms r), (case sr_last_error r of None \<Rightarrow> [] | Some e \<Rightarrow> CHR ''e'' # hex_text e),
     unary_text (sr_created_ms r) @ ''z'']"

fun demo_record :: "string list \<Rightarrow> SpoolRecord option" where
  "demo_record [a, b, c, d, e, f] = Some
     \<lparr>sr_event_id = text_of_hex (tl a), sr_payload = text_of_hex b, sr_attempts = of_nat (length c),
      sr_next_attempt_ms = length d, sr_last_error = (if e = [] then None else Some (text_of_hex (tl e))),
      sr_created_ms = length f - 1\<rparr>"
| "demo_record _ = None"

definition demo_codec :: Codec where
  "demo_codec = \<lparr>cd_ser = (\<lambda>r. join_str ''.'' (demo_fields r)), cd_parse = (\<lambda>l. demo_record (split_ch CHR ''.'' l))\<rparr>"

lemma ord_less_256: "ord ch < 256"
  by (metis of_char_mod_256 mod_less_divisor zero_less_numeral)

lemma letters_ord: "x \<in> set (letters ch) \<Longrightarrow> 65 \<le> ord x \<and> ord x < 81"
proof -
  have "ord ch div 16 < 16" by (rule less_mult_imp_div_less) (simp add: ord_less_256)
  then show "x \<in> set (letters ch) \<Longrightarrow> 65 \<le> ord x \<and> ord x < 81" by (auto simp: letters_def)
qed

lemma hex_ord: "x \<in> set (hex_text s) \<Longrightarrow> 65 \<le> ord x \<and> ord x < 81"
  by (auto simp: hex_text_def dest: letters_ord)

lemma text_of_hex_hex [simp]: "text_of_hex (hex_text s) = s"
proof (induction s)
  case (Cons ch s)
  have "ord ch div 16 < 16" by (rule less_mult_imp_div_less) (simp add: ord_less_256)
  then have "((65 + ord ch div 16) mod 256 - 65) * 16 + ord ch mod 16 = ord ch" by simp
  then show ?case using Cons by (simp add: hex_text_def letters_def)
qed (simp add: hex_text_def)

lemma split_fields_join: "xs \<noteq> [] \<Longrightarrow> \<forall>x \<in> set xs. d \<notin> set x \<Longrightarrow> split_ch d (join_str [d] xs) = xs"
proof (induction xs)
  case (Cons x xs)
  then show ?case by (cases xs) (simp_all add: split_ch_line split_lines_single)
qed simp

lemma demo_fields_chars: "f \<in> set (demo_fields r) \<Longrightarrow> x \<in> set f \<Longrightarrow> 48 < ord x \<and> ord x < 128"
  by (auto simp: demo_fields_def unary_text_def split: option.splits) (drule hex_ord, simp)+

lemma demo_ser_chars: "x \<in> set (cd_ser demo_codec r) \<Longrightarrow> 45 < ord x \<and> ord x < 128"
proof -
  have "x \<in> set (join_str ''.'' xs) \<Longrightarrow> x = CHR ''.'' \<or> (\<exists>f \<in> set xs. x \<in> set f)" for xs
  proof (induction xs)
    case (Cons y ys)
    then show ?case by (cases ys) auto
  qed simp
  then show "x \<in> set (cd_ser demo_codec r) \<Longrightarrow> 45 < ord x \<and> ord x < 128"
    using demo_fields_chars [of _ r x] by (fastforce simp: demo_codec_def)
qed

lemma demo_ser_shape: "\<exists>t. cd_ser demo_codec r = CHR ''r'' # t @ ''z''"
  by (simp add: demo_codec_def demo_fields_def)

lemma trim_visible:
  assumes "\<forall>x \<in> set s. 32 < ord x \<and> ord x < 128" "s \<noteq> []"
  shows "trim s \<noteq> []"
proof -
  have c: "chars s = map (\<lambda>c. [c]) s" using assms(1) by (intro chars_ascii) (auto simp: is_ascii_def)
  obtain x t where s: "s = x # t" using assms(2) by (cases s) auto
  have nw: "\<not> is_whitespace [y]" if "y \<in> set s" for y using assms(1) that by auto
  have "dropWhile is_whitespace (chars s) = chars s" using nw [of x] unfolding c by (auto simp: s)
  moreover have "dropWhile is_whitespace (rev (chars s)) = rev (chars s)"
  proof -
    obtain y u where u: "rev s = y # u" using assms(2) by (cases "rev s") auto
    then have "y \<in> set s" by (metis list.set_intros(1) set_rev)
    then show ?thesis using nw [of y] unfolding c rev_map u by auto
  qed
  ultimately have "trim s = s" by (simp add: trim_def)
  then show ?thesis using assms(2) by simp
qed

lemma demo_codec_ok: "codec_ok demo_codec"
  unfolding codec_ok_def
proof (intro allI conjI)
  fix r
  obtain t where t: "cd_ser demo_codec r = CHR ''r'' # t @ ''z''" using demo_ser_shape by blast
  have dot: "\<forall>f \<in> set (demo_fields r). CHR ''.'' \<notin> set f" using demo_fields_chars [of _ r "CHR ''.''"] by auto
  have "split_ch CHR ''.'' (cd_ser demo_codec r) = demo_fields r"
    using split_fields_join [OF _ dot] by (simp add: demo_codec_def demo_fields_def)
  then show "cd_parse demo_codec (cd_ser demo_codec r) = Some r"
    by (simp add: demo_codec_def) (simp add: demo_fields_def unary_text_def split: option.splits)
  show "LF \<notin> set (cd_ser demo_codec r)" using demo_ser_chars [of LF r] by (auto simp: LF_def)
  show "valid_utf8 (cd_ser demo_codec r)"
    using demo_ser_chars [of _ r] by (intro valid_utf8_ascii) (auto simp: is_ascii_def)
  show "trim (cd_ser demo_codec r) \<noteq> []"
    using demo_ser_chars [of _ r] t by (intro trim_visible) (fastforce, simp)
  show "last (cd_ser demo_codec r) \<noteq> CR" by (simp add: t CR_def)
qed

subsection \<open>Properties\<close>

text \<open>
  C7: no accepted event is lost: after any history of enqueues, drains and replays by any
  number of processes, with any answers of the dashboard and any faults of the locks, of reading
  and rewriting the spool, every event whose enqueue succeeded is in the spool, among the dead
  letters, was taken by the dashboard, or was dropped by a bound; and both files can be read.
  (A torn append, or a dead-letter file that cannot be written, does lose events.)
\<close>

theorem no_event_lost:
  assumes "codec_ok c" "list_all careful ops"
  shows "let L = fold (ledger_step c parse) ops empty_ledger in
    (case (read_records c None (f_spool (lg_files L)), read_records c None (f_dead (lg_files L))) of
       (Inr rs, Inr ds) \<Rightarrow>
         set (lg_accepted L) \<subseteq> set (map sr_event_id (rs @ ds) @ lg_delivered L @ lg_dropped L)
     | _ \<Rightarrow> False)"
proof -
  have "accounted c empty_ledger" by (auto simp: accounted_def empty_ledger_def holds_def)
  from ledger_accounted [OF assms this, of parse] show ?thesis
    using read_holds [OF assms(1)] by (fastforce simp: accounted_def Let_def)
qed

definition demo_ops :: "spool_op list" where
  "demo_ops = [EnqueueOp 5 ''a'' ''p'' no_faults, EnqueueOp 6 ''b'' ''q'' no_faults,
     DrainOp [new_record 5 ''a'' ''p''] True 7 [\<lparr>tn_expired = False, tn_answer = Inr (200, []), tn_clock = 8\<rparr>] no_faults]"

theorem no_event_lost_witness:
  "let L = fold (ledger_step demo_codec (\<lambda>s. None)) demo_ops empty_ledger in
    (case (read_records demo_codec None (f_spool (lg_files L)), read_records demo_codec None (f_dead (lg_files L))) of
       (Inr rs, Inr ds) \<Rightarrow>
         set (lg_accepted L) \<subseteq> set (map sr_event_id (rs @ ds) @ lg_delivered L @ lg_dropped L)
     | _ \<Rightarrow> False)"
  by (rule no_event_lost [OF demo_codec_ok]) (simp add: demo_ops_def no_faults_def)



text \<open>A dead letter that cannot be written is dropped: the spool is rewritten without it.\<close>

lemma unwritable_dead_letter_lost:
  assumes "codec_ok c" "out = no_outcome\<lparr>do_dead := [r]\<rparr>" "ft = no_faults\<lparr>ft_write_dead := Some e\<rparr>"
  shows "reconcile c ft out \<lparr>f_spool = Some (file_of c [r]), f_dead = None\<rparr> =
    (Inr (), \<lparr>f_spool = None, f_dead = None\<rparr>)"
proof -
  have r: "read_records c None (Some (file_of c [r])) = Inr [r]"
    by (rule read_holds [OF assms(1)]) (simp add: holds_def)
  have e: "fst (enforce_spool_bounds c MAX_SPOOL_RECORDS MAX_SPOOL_BYTES []) = []" by (simp add: enforce_spool_bounds_def)
  have w: "snd (write_records_atomically c (Some e) xs None) = None" for xs
    by (simp add: write_records_atomically_def)
  have d: "snd (append_dead_records_bounded c ft MAX_SPOOL_RECORDS MAX_SPOOL_BYTES [r] None) = None"
    using w by (simp add: append_dead_records_bounded_def read_records_def assms(3) no_faults_def)
  show ?thesis using d
    by (auto simp: reconcile_def assms(2,3) no_outcome_def no_faults_def r settled_def e Let_def
        write_records_atomically_def split: prod.splits)
qed

end
