(* ===== verification/Policy.thy ===== *)
theory Policy
  imports Prelude
begin

section \<open>The authorization policy of the secret boundary\<close>

text \<open>
  Model of \<^verbatim>\<open>error.rs\<close>, \<^verbatim>\<open>policy.rs\<close> and the request and response types of
  \<^verbatim>\<open>operation/mod.rs\<close> in \<^verbatim>\<open>crates/pbm-secret-boundary/src\<close>. Parsing a URL is the work of the
  \<^verbatim>\<open>url\<close> package: the parser is a parameter \<open>url_parse\<close> that yields what the source reads of a
  parsed URL. Times are those of the \<^verbatim>\<open>chrono\<close> package, compared as integers and printed by
  the parameter \<open>show_time\<close>.
\<close>

subsection \<open>Errors, rules, requests\<close>

datatype BoundaryError =
    PolicyDenied string
  | SecretNotFound string
  | ProviderError string
  | OperationNotAllowed string
  | DestinationViolation string
  | SsrfBlocked string
  | ExecutionFailed string
  | TransportError string
  | SerializationError string
  | InvalidRequest string
  | ConfigurationError string

fun error_text :: "BoundaryError \<Rightarrow> string" where
  "error_text (PolicyDenied m) = ''Authorization policy denied request: '' @ m"
| "error_text (SecretNotFound m) = ''Secret reference not found: '' @ m"
| "error_text (ProviderError m) = ''Credential provider failure: '' @ m"
| "error_text (OperationNotAllowed m) = ''Operation is not allowed: '' @ m"
| "error_text (DestinationViolation m) = ''Destination violates security policy: '' @ m"
| "error_text (SsrfBlocked m) = ''Blocked potential SSRF or forbidden network destination: '' @ m"
| "error_text (ExecutionFailed m) = ''Operation execution failed: '' @ m"
| "error_text (TransportError m) = ''Network transport failure: '' @ m"
| "error_text (SerializationError m) = ''Serialization or schema error: '' @ m"
| "error_text (InvalidRequest m) = ''Invalid request parameters or payload: '' @ m"
| "error_text (ConfigurationError m) = ''Configuration error: '' @ m"

record PolicyRule =
  rule_agent_id :: string
  rule_operation_id :: string
  approved_credential_ref :: string
  destination_host :: string
  destination_port :: "nat option"
  allowed_methods :: "string list"
  allowed_path_prefix :: string
  permitted_query_params :: "string list"
  valid_until :: "int option"
  require_https :: bool

definition new_rule :: "string \<Rightarrow> string \<Rightarrow> string \<Rightarrow> string \<Rightarrow> PolicyRule" where
  "new_rule agent operation ref host =
     \<lparr>rule_agent_id = agent, rule_operation_id = operation, approved_credential_ref = ref,
      destination_host = host, destination_port = None, allowed_methods = [''GET''],
      allowed_path_prefix = ''/'', permitted_query_params = [], valid_until = None,
      require_https = True\<rparr>"

record OperationRequest =
  req_agent_id :: string
  req_operation_id :: string
  destination_url :: string
  req_method :: string
  req_headers :: "(string, string) hashmap"
  req_body :: "bytes option"

record OperationResponse =
  status_code :: nat
  sanitized_body :: bytes
  sanitized_headers :: "(string, string) hashmap"
  duration_ms :: nat

text \<open>What the source reads of a parsed URL.\<close>

record Url =
  url_scheme :: string
  url_username :: string
  url_password :: "string option"
  url_host_str :: "string option"
  url_port :: "nat option"
  url_path :: string
  url_query :: "string option"
  url_query_pairs :: "(string \<times> string) list"

subsection \<open>Paths\<close>

definition path_matches_prefix :: "string \<Rightarrow> string \<Rightarrow> bool" where
  "path_matches_prefix path allowed =
     (let prefix = trim_end_matches (\<lambda>c. c = ''/'') allowed in
      if prefix = [] then True
      else if path = prefix then True
      else starts_with path prefix \<and> starts_with (drop (length prefix) path) ''/'')"

definition path_contains_traversal :: "string \<Rightarrow> bool" where
  "path_contains_traversal path \<longleftrightarrow>
     contains_str path ''..'' \<or> contains_str path ''%2e'' \<or> contains_str path ''%2E''"

subsection \<open>The engine\<close>

record PolicyEngine =
  pe_rules :: "PolicyRule list"

definition new_engine :: PolicyEngine where
  "new_engine = \<lparr>pe_rules = []\<rparr>"

definition add_rule :: "PolicyRule \<Rightarrow> PolicyEngine \<Rightarrow> BoundaryError + PolicyEngine" where
  "add_rule rule e =
     (if list_ex (\<lambda>r. rule_agent_id r = rule_agent_id rule \<and> rule_operation_id r = rule_operation_id rule)
           (pe_rules e)
      then Inl (ConfigurationError
             (''Ambiguous policy: duplicate rule for agent '' @ squote (rule_agent_id rule)
              @ '' and operation '' @ squote (rule_operation_id rule)))
      else Inr (e\<lparr>pe_rules := pe_rules e @ [rule]\<rparr>))"

text \<open>Any of carriage return, line feed and NUL.\<close>

definition has_crlf_nul :: "string \<Rightarrow> bool" where
  "has_crlf_nul s \<longleftrightarrow> contains_str s [CHR 0x0D] \<or> contains_str s [CHR 0x0A] \<or> contains_str s [CHR 0x00]"

definition forbidden_header :: "string \<Rightarrow> bool" where
  "forbidden_header key \<longleftrightarrow>
     (let key_lower = to_ascii_lowercase key in
      key_lower = ''authorization'' \<or> key_lower = ''proxy-authorization'' \<or>
      key_lower = ''host'' \<or> key_lower = ''cookie'')"

text \<open>The loop over the headers: the first offending one decides.\<close>

fun check_headers :: "(string \<times> string) list \<Rightarrow> BoundaryError option" where
  "check_headers [] = None"
| "check_headers ((k, v) # rest) =
     (if forbidden_header k
      then Some (PolicyDenied (''Agent is prohibited from supplying header '' @ squote k))
      else if has_crlf_nul k \<or> has_crlf_nul v
      then Some (InvalidRequest ''Header contains forbidden control characters (CRLF / null bytes)'')
      else check_headers rest)"

fun check_query :: "PolicyRule \<Rightarrow> (string \<times> string) list \<Rightarrow> BoundaryError option" where
  "check_query rule [] = None"
| "check_query rule ((k, v) # rest) =
     (if \<not> list_ex (\<lambda>p. eq_ignore_ascii_case p k) (permitted_query_params rule)
      then Some (InvalidRequest (''Query parameter '' @ squote k
             @ '' is not permitted by policy for operation '' @ squote (rule_operation_id rule)))
      else check_query rule rest)"

definition default_port :: "string \<Rightarrow> nat" where
  "default_port scheme = (if scheme = ''https'' then 443 else if scheme = ''http'' then 80 else 0)"

definition check_destination ::
  "(string \<Rightarrow> string + Url) \<Rightarrow> OperationRequest \<Rightarrow> PolicyRule \<Rightarrow> BoundaryError + PolicyRule" where
  "check_destination url_parse request rule =
     (case url_parse (destination_url request) of
        Inl e \<Rightarrow> Inl (DestinationViolation (''Malformed destination URL: '' @ e))
      | Inr u \<Rightarrow>
          if require_https rule \<and> url_scheme u \<noteq> ''https''
          then Inl (DestinationViolation (''Insecure scheme '' @ squote (url_scheme u)
                 @ '' rejected; HTTPS is required for operation '' @ squote (rule_operation_id rule)))
          else
            (case url_host_str u of
               None \<Rightarrow> Inl (DestinationViolation ''Destination URL lacks a valid host'')
             | Some host \<Rightarrow>
                 if \<not> eq_ignore_ascii_case host (destination_host rule)
                 then Inl (DestinationViolation (''Destination host '' @ squote host
                        @ '' does not match policy approved host '' @ squote (destination_host rule)))
                 else
                   (let effective = (case url_port u of Some p \<Rightarrow> p | None \<Rightarrow> default_port (url_scheme u));
                        expected = (case destination_port rule of Some p \<Rightarrow> p
                                    | None \<Rightarrow> default_port (url_scheme u)) in
                    if effective \<noteq> expected
                    then Inl (DestinationViolation (''Destination port '' @ squote (show_nat effective)
                           @ '' violates policy expected port '' @ squote (show_nat expected)))
                    else if \<not> list_ex (\<lambda>m. eq_ignore_ascii_case m (to_ascii_uppercase (req_method request)))
                               (allowed_methods rule)
                    then Inl (OperationNotAllowed (''Method '' @ squote (req_method request)
                           @ '' is not in approved list: '' @ debug_strs (allowed_methods rule)))
                    else if path_contains_traversal (url_path u)
                    then Inl (OperationNotAllowed
                           (''Path contains forbidden traversal sequence ('' @ squote ''..'' @ '')''))
                    else if \<not> path_matches_prefix (url_path u) (allowed_path_prefix rule)
                    then Inl (OperationNotAllowed (''Path '' @ squote (url_path u)
                           @ '' does not match approved prefix '' @ squote (allowed_path_prefix rule)))
                    else (case check_query rule (url_query_pairs u) of
                            Some e \<Rightarrow> Inl e
                          | None \<Rightarrow> Inr rule))))"

definition evaluate ::
  "(string \<Rightarrow> string + Url) \<Rightarrow> (int \<Rightarrow> string) \<Rightarrow> PolicyEngine \<Rightarrow> OperationRequest \<Rightarrow> int
   \<Rightarrow> BoundaryError + PolicyRule" where
  "evaluate url_parse show_time e request now =
     (case check_headers (req_headers request) of
        Some err \<Rightarrow> Inl err
      | None \<Rightarrow>
          (case filter (\<lambda>r. rule_agent_id r = req_agent_id request \<and>
                           rule_operation_id r = req_operation_id request) (pe_rules e) of
             [] \<Rightarrow> Inl (PolicyDenied (''No policy rule authorizes agent '' @ squote (req_agent_id request)
                     @ '' for operation '' @ squote (req_operation_id request)))
           | rule # others \<Rightarrow>
               if others \<noteq> []
               then Inl (PolicyDenied (''Ambiguous authorization: multiple rules match agent ''
                      @ squote (req_agent_id request) @ '' and operation ''
                      @ squote (req_operation_id request)))
               else if (case valid_until rule of Some expiry \<Rightarrow> expiry < now | None \<Rightarrow> False)
               then Inl (PolicyDenied (''Policy authorization for operation ''
                      @ squote (rule_operation_id rule) @ '' expired at ''
                      @ show_time (the (valid_until rule))))
               else check_destination url_parse request rule))"

subsection \<open>Paths are matched by whole segments\<close>

lemma path_matches_prefix_iff:
  "path_matches_prefix path allowed \<longleftrightarrow>
     (let prefix = trim_end_matches (\<lambda>c. c = ''/'') allowed in
      prefix = [] \<or> path = prefix \<or> (\<exists>rest. path = prefix @ ''/'' @ rest))"
proof -
  have "starts_with path p \<and> starts_with (drop (length p) path) ''/'' \<longleftrightarrow>
      (\<exists>rest. path = p @ ''/'' @ rest)" for p
    by (auto simp: starts_with_iff)
  then show ?thesis by (auto simp: path_matches_prefix_def Let_def)
qed

subsection \<open>What the engine authorizes\<close>

lemma has_crlf_nul_iff: "has_crlf_nul s \<longleftrightarrow> CHR 0x0D \<in> set s \<or> CHR 0x0A \<in> set s \<or> CHR 0x00 \<in> set s"
  by (simp add: has_crlf_nul_def)

lemma check_headers_None:
  "check_headers hs = None \<longleftrightarrow>
     list_all (\<lambda>(k, v). \<not> forbidden_header k \<and> \<not> has_crlf_nul k \<and> \<not> has_crlf_nul v) hs"
  by (induction hs rule: check_headers.induct) auto

lemma check_query_None:
  "check_query rule qs = None \<longleftrightarrow>
     list_all (\<lambda>(k, v). list_ex (\<lambda>p. eq_ignore_ascii_case p k) (permitted_query_params rule)) qs"
  by (induction rule qs rule: check_query.induct) auto

definition effective_port :: "Url \<Rightarrow> nat" where
  "effective_port u = (case url_port u of Some p \<Rightarrow> p | None \<Rightarrow> default_port (url_scheme u))"

definition destination_ok :: "PolicyRule \<Rightarrow> string \<Rightarrow> Url \<Rightarrow> bool" where
  "destination_ok rule meth u \<longleftrightarrow>
     (require_https rule \<longrightarrow> url_scheme u = ''https'') \<and>
     (\<exists>host. url_host_str u = Some host \<and> eq_ignore_ascii_case host (destination_host rule)) \<and>
     effective_port u = (case destination_port rule of Some p \<Rightarrow> p | None \<Rightarrow> default_port (url_scheme u)) \<and>
     list_ex (\<lambda>m. eq_ignore_ascii_case m meth) (allowed_methods rule) \<and>
     \<not> path_contains_traversal (url_path u) \<and>
     path_matches_prefix (url_path u) (allowed_path_prefix rule) \<and>
     list_all (\<lambda>(k, v). list_ex (\<lambda>p. eq_ignore_ascii_case p k) (permitted_query_params rule)) (url_query_pairs u)"

lemma check_destination_Inr:
  "check_destination url_parse request rule = Inr r \<longleftrightarrow>
     r = rule \<and> (\<exists>u. url_parse (destination_url request) = Inr u \<and> destination_ok rule (req_method request) u)"
  unfolding check_destination_def destination_ok_def effective_port_def Let_def check_query_None [symmetric]
  by (auto split: sum.splits option.splits if_splits)

lemma evaluate_Inr:
  "evaluate url_parse show_time e request now = Inr rule \<longleftrightarrow>
     check_headers (req_headers request) = None \<and>
     filter (\<lambda>r. rule_agent_id r = req_agent_id request \<and> rule_operation_id r = req_operation_id request)
       (pe_rules e) = [rule] \<and>
     (\<forall>expiry. valid_until rule = Some expiry \<longrightarrow> now \<le> expiry) \<and>
     check_destination url_parse request rule = Inr rule"
proof (cases "filter (\<lambda>r. rule_agent_id r = req_agent_id request \<and> rule_operation_id r = req_operation_id request)
       (pe_rules e)")
  case (Cons r rs)
  then show ?thesis unfolding evaluate_def
    by (auto simp: check_destination_Inr split: option.splits if_splits)
qed (auto simp: evaluate_def split: option.splits)

lemma evaluate_member:
  assumes "evaluate url_parse show_time e request now = Inr rule"
  shows "rule \<in> set (pe_rules e) \<and> rule_agent_id rule = req_agent_id request \<and>
    rule_operation_id rule = req_operation_id request"
proof -
  have "rule \<in> set (filter (\<lambda>r. rule_agent_id r = req_agent_id request \<and>
      rule_operation_id r = req_operation_id request) (pe_rules e))"
    using assms unfolding evaluate_Inr by simp
  then show ?thesis by simp
qed

subsection \<open>Rules are unambiguous\<close>

definition rule_key :: "PolicyRule \<Rightarrow> string \<times> string" where
  "rule_key r = (rule_agent_id r, rule_operation_id r)"

definition engine_ok :: "PolicyEngine \<Rightarrow> bool" where
  "engine_ok e \<longleftrightarrow> distinct (map rule_key (pe_rules e))"

lemma new_engine_ok: "engine_ok new_engine"
  by (simp add: engine_ok_def new_engine_def)

lemma add_rule_ok:
  assumes "engine_ok e" "add_rule rule e = Inr e'"
  shows "engine_ok e' \<and> set (pe_rules e') = insert rule (set (pe_rules e))"
  using assms by (force simp: add_rule_def engine_ok_def rule_key_def list_ex_iff split: if_splits)

lemma distinct_keys_filter:
  "distinct (map f xs) \<Longrightarrow> length (filter (\<lambda>x. f x = k) xs) \<le> 1"
proof (induction xs)
  case (Cons x xs)
  have "filter (\<lambda>y. f y = k) xs = []" if "f x = k"
    using Cons.prems that by (auto simp: filter_empty_conv image_iff)
  with Cons show ?case by auto
qed simp

lemma engine_ok_filter:
  assumes "engine_ok e"
  shows "length (filter (\<lambda>r. rule_agent_id r = a \<and> rule_operation_id r = op) (pe_rules e)) \<le> 1"
  using distinct_keys_filter [of rule_key "pe_rules e" "(a, op)"] assms
  by (simp add: engine_ok_def rule_key_def)

lemma filter_single:
  "x \<in> set xs \<Longrightarrow> P x \<Longrightarrow> length (filter P xs) \<le> 1 \<Longrightarrow> filter P xs = [x]"
proof -
  assume "x \<in> set xs" "P x" "length (filter P xs) \<le> 1"
  moreover from this have "x \<in> set (filter P xs)" by simp
  ultimately show "filter P xs = [x]" by (cases "filter P xs") auto
qed

text \<open>Registering a list of rules, as the loading of a configuration does.\<close>

fun add_rules :: "PolicyRule list \<Rightarrow> PolicyEngine \<Rightarrow> BoundaryError + PolicyEngine" where
  "add_rules [] e = Inr e"
| "add_rules (r # rs) e = (case add_rule r e of Inl err \<Rightarrow> Inl err | Inr e' \<Rightarrow> add_rules rs e')"

lemma add_rules_ok:
  "engine_ok e \<Longrightarrow> add_rules rs e = Inr e' \<Longrightarrow>
    engine_ok e' \<and> set (pe_rules e') = set rs \<union> set (pe_rules e)"
proof (induction rs arbitrary: e)
  case (Cons r rs)
  then obtain e1 where e1: "add_rule r e = Inr e1" "add_rules rs e1 = Inr e'"
    by (auto split: sum.splits)
  from add_rule_ok [OF Cons.prems(1) e1(1)] Cons.IH [OF _ e1(2)] show ?case by auto
qed simp

lemma consulted:
  assumes "add_rules rs new_engine = Inr e" "r \<in> set rs"
  shows "filter (\<lambda>q. rule_agent_id q = rule_agent_id r \<and> rule_operation_id q = rule_operation_id r)
    (pe_rules e) = [r]"
proof (rule filter_single)
  show "r \<in> set (pe_rules e)" using add_rules_ok [OF new_engine_ok assms(1)] assms(2) by simp
  show "length (filter (\<lambda>q. rule_agent_id q = rule_agent_id r \<and> rule_operation_id q = rule_operation_id r)
      (pe_rules e)) \<le> 1"
    by (rule engine_ok_filter) (use add_rules_ok [OF new_engine_ok assms(1)] in simp)
qed simp

subsection \<open>Properties\<close>

text \<open>
  C19: the engine authorizes a request exactly when no header is forbidden or carries CR, LF or
  NUL, exactly one rule names the agent and the operation, that rule has not expired, and the
  parsed destination satisfies the rule: scheme, host, effective port, method, a path without
  traversal under the approved prefix, and only permitted query parameters.
\<close>

theorem policy_authorizes_iff:
  "evaluate url_parse show_time e request now = Inr rule \<longleftrightarrow>
     list_all (\<lambda>(k, v). \<not> forbidden_header k \<and> \<not> has_crlf_nul k \<and> \<not> has_crlf_nul v) (req_headers request) \<and>
     filter (\<lambda>r. rule_agent_id r = req_agent_id request \<and> rule_operation_id r = req_operation_id request)
       (pe_rules e) = [rule] \<and>
     (case valid_until rule of None \<Rightarrow> True | Some expiry \<Rightarrow> now \<le> expiry) \<and>
     (\<exists>u. url_parse (destination_url request) = Inr u \<and> destination_ok rule (to_ascii_uppercase (req_method request)) u)"
  unfolding evaluate_Inr check_destination_Inr check_headers_None
  by (auto simp: destination_ok_def split: option.splits)

text \<open>
  an authorized path lies below the approved prefix by whole segments: after removing
  trailing slashes from the prefix, the path is the prefix or the prefix followed by a slash
  and more (so \<^verbatim>\<open>/v1/forecast-admin\<close> is never covered by \<^verbatim>\<open>/v1/forecast\<close>), and no spelling of
  a dot-dot segment occurs in it.
\<close>

theorem authorized_path_below_prefix:
  assumes "evaluate url_parse show_time e request now = Inr rule"
  shows "\<exists>u prefix. url_parse (destination_url request) = Inr u \<and>
    prefix = trim_end_matches (\<lambda>c. c = ''/'') (allowed_path_prefix rule) \<and>
    (prefix = [] \<or> url_path u = prefix \<or> (\<exists>rest. url_path u = prefix @ ''/'' @ rest)) \<and>
    \<not> contains_str (url_path u) ''..'' \<and> \<not> contains_str (url_path u) ''%2e'' \<and> \<not> contains_str (url_path u) ''%2E''"
  using assms unfolding evaluate_Inr check_destination_Inr destination_ok_def
    path_matches_prefix_iff path_contains_traversal_def Let_def by blast

definition demo_rule :: PolicyRule where
  "demo_rule = (new_rule ''a'' ''op'' ''op://v/i/f'' ''api.test'')\<lparr>allowed_path_prefix := ''/v1/forecast/''\<rparr>"

definition demo_request :: OperationRequest where
  "demo_request = \<lparr>req_agent_id = ''a'', req_operation_id = ''op'', destination_url = ''U'',
     req_method = ''get'', req_headers = [], req_body = None\<rparr>"

definition demo_url :: "string \<Rightarrow> Url" where
  "demo_url path = \<lparr>url_scheme = ''https'', url_username = [], url_password = None,
     url_host_str = Some ''API.test'', url_port = None, url_path = path, url_query = None, url_query_pairs = []\<rparr>"

lemma demo_evaluate:
  "evaluate (\<lambda>u. Inr (demo_url ''/v1/forecast/today'')) (\<lambda>t. []) \<lparr>pe_rules = [demo_rule]\<rparr> demo_request 0 = Inr demo_rule"
  by (simp add: evaluate_def check_destination_def demo_rule_def new_rule_def demo_request_def demo_url_def
      default_port_def path_contains_traversal_def path_matches_prefix_def str_defs bit_Suc_0_iff)

theorem authorized_path_below_prefix_witness:
  "\<exists>u prefix. (Inr (demo_url ''/v1/forecast/today'') :: string + Url) = Inr u \<and>
    prefix = trim_end_matches (\<lambda>c. c = ''/'') (allowed_path_prefix demo_rule) \<and>
    (prefix = [] \<or> url_path u = prefix \<or> (\<exists>rest. url_path u = prefix @ ''/'' @ rest)) \<and>
    \<not> contains_str (url_path u) ''..'' \<and> \<not> contains_str (url_path u) ''%2e'' \<and> \<not> contains_str (url_path u) ''%2E''"
  using authorized_path_below_prefix [OF demo_evaluate] .

text \<open>
  rules are never ambiguous: when a list of rules is accepted into an empty engine, every
  one of them is the single rule consulted for its agent and operation, so no request is ever
  denied as ambiguous and none is decided by a shadowing rule.
\<close>

theorem registered_rule_is_consulted:
  assumes "add_rules rs new_engine = Inr e" "r \<in> set rs"
  shows "filter (\<lambda>q. rule_agent_id q = rule_agent_id r \<and> rule_operation_id q = rule_operation_id r)
    (pe_rules e) = [r]"
  using assms by (rule consulted)

theorem registered_rule_is_consulted_witness:
  "filter (\<lambda>q. rule_agent_id q = rule_agent_id demo_rule \<and> rule_operation_id q = rule_operation_id demo_rule)
    [new_rule ''a'' ''other'' ''r'' ''h'', demo_rule] = [demo_rule]"
  using registered_rule_is_consulted [of "[new_rule ''a'' ''other'' ''r'' ''h'', demo_rule]"
      "\<lparr>pe_rules = [new_rule ''a'' ''other'' ''r'' ''h'', demo_rule]\<rparr>" demo_rule]
  by (simp add: add_rule_def new_engine_def demo_rule_def new_rule_def)

end
