(* ===== verification/Ip_Address.thy ===== *)
theory Ip_Address
  imports Policy "HOL-Library.Word"
begin

section \<open>IP addresses and the ranges the boundary refuses\<close>

text \<open>
  Model of the address checks of \<^verbatim>\<open>operation/http.rs\<close> in \<^verbatim>\<open>crates/pbm-secret-boundary/src\<close>
  (\<^verbatim>\<open>is_dangerous_ipv4\<close>, \<^verbatim>\<open>is_dangerous_ipv6\<close>, \<^verbatim>\<open>validate_ip_safety\<close>), with what the standard
  library provides for them: the addresses, at the width of their octets and segments, and
  their parsing and printing.
\<close>

unbundle bit_operations_syntax

subsection \<open>Addresses of the standard library\<close>

datatype Ipv4Addr = Ipv4 "8 word" "8 word" "8 word" "8 word"

datatype Ipv6Addr = Ipv6 "16 word" "16 word" "16 word" "16 word" "16 word" "16 word" "16 word" "16 word"

datatype IpAddr = V4 Ipv4Addr | V6 Ipv6Addr

type_synonym SocketAddr = "IpAddr \<times> nat"

definition hi_octet :: "16 word \<Rightarrow> 8 word" where
  [str_defs]: "hi_octet s = ucast (drop_bit 8 s)"

definition lo_octet :: "16 word \<Rightarrow> 8 word" where
  [str_defs]: "lo_octet s = ucast s"

fun to_ipv4_mapped :: "Ipv6Addr \<Rightarrow> Ipv4Addr option" where
  "to_ipv4_mapped (Ipv6 a b c d e f g h) =
     (if a = 0 \<and> b = 0 \<and> c = 0 \<and> d = 0 \<and> e = 0 \<and> f = 0xffff
      then Some (Ipv4 (hi_octet g) (lo_octet g) (hi_octet h) (lo_octet h)) else None)"

fun is_private4 :: "Ipv4Addr \<Rightarrow> bool" where
  "is_private4 (Ipv4 a b c d) \<longleftrightarrow> a = 10 \<or> (a = 172 \<and> 16 \<le> b \<and> b \<le> 31) \<or> (a = 192 \<and> b = 168)"

subsection \<open>Dangerous addresses\<close>

fun is_dangerous_ipv4 :: "bool \<Rightarrow> Ipv4Addr \<Rightarrow> bool" where
  "is_dangerous_ipv4 allow_private (Ipv4 a b c d) =
     (if a = 127 then True
      else if a = 0 then True
      else if a = 169 \<and> b = 254 then True
      else if a = 255 \<and> b = 255 \<and> c = 255 \<and> d = 255 then True
      else if 224 \<le> a \<and> a \<le> 239 then True
      else if 240 \<le> a then True
      else if (a = 192 \<and> b = 0 \<and> c = 2) \<or> (a = 198 \<and> b = 51 \<and> c = 100) \<or> (a = 203 \<and> b = 0 \<and> c = 113) then True
      else if a = 198 \<and> b AND 0xFE = 18 then True
      else if \<not> allow_private \<and> is_private4 (Ipv4 a b c d) then True
      else if \<not> allow_private \<and> a = 100 \<and> b AND 0xC0 = 64 then True
      else False)"

fun is_dangerous_ipv6 :: "bool \<Rightarrow> Ipv6Addr \<Rightarrow> bool" where
  "is_dangerous_ipv6 allow_private (Ipv6 a b c d e f g h) =
     (if a = 0 \<and> b = 0 \<and> c = 0 \<and> d = 0 \<and> e = 0 \<and> f = 0 \<and> g = 0 \<and> (h = 1 \<or> h = 0) then True
      else
        (case to_ipv4_mapped (Ipv6 a b c d e f g h) of
           Some mapped \<Rightarrow> is_dangerous_ipv4 allow_private mapped
         | None \<Rightarrow>
             if a = 0 \<and> b = 0 \<and> c = 0 \<and> d = 0 \<and> e = 0 \<and> f = 0
             then is_dangerous_ipv4 allow_private (Ipv4 (hi_octet g) (lo_octet g) (hi_octet h) (lo_octet h))
             else if a AND 0xffc0 = 0xfe80 then True
             else if a AND 0xff00 = 0xff00 then True
             else if a = 0xfd00 \<and> b = 0x0ec2 then True
             else if \<not> allow_private \<and> a AND 0xfe00 = 0xfc00 then True
             else if a = 0x2001 \<and> b = 0x0db8 then True
             else False))"

subsection \<open>Printing\<close>

fun show_ipv4 :: "Ipv4Addr \<Rightarrow> string" where
  "show_ipv4 (Ipv4 a b c d) =
     join_str ''.'' (map (\<lambda>o'. show_nat (unat o')) [a, b, c, d])"

text \<open>\<^verbatim>\<open>{:x}\<close>\<close>

fun show_hex :: "nat \<Rightarrow> string" where
  "show_hex n = (if n < 16 then [hex_digit n] else show_hex (n div 16) @ [hex_digit (n mod 16)])"

declare show_hex.simps [simp del]

definition show_groups :: "16 word list \<Rightarrow> string" where
  "show_groups gs = join_str '':'' (map (\<lambda>g. show_hex (unat g)) gs)"

text \<open>The first longest run of zero segments, as its start and its length.\<close>

fun zero_run :: "nat \<Rightarrow> nat \<times> nat \<Rightarrow> nat \<times> nat \<Rightarrow> 16 word list \<Rightarrow> nat \<times> nat" where
  "zero_run i current longest [] = longest"
| "zero_run i (cs, cl) (ls, ll) (g # gs) =
     (if g = 0
      then (let current = (if cl = 0 then i else cs, cl + 1) in
            zero_run (i + 1) current (if ll < snd current then current else (ls, ll)) gs)
      else zero_run (i + 1) (0, 0) (ls, ll) gs)"

fun show_ipv6 :: "Ipv6Addr \<Rightarrow> string" where
  "show_ipv6 (Ipv6 a b c d e f g h) =
     (case to_ipv4_mapped (Ipv6 a b c d e f g h) of
        Some v4 \<Rightarrow> ''::ffff:'' @ show_ipv4 v4
      | None \<Rightarrow>
          (let gs = [a, b, c, d, e, f, g, h];
               (start, len) = zero_run 0 (0, 0) (0, 0) gs in
           if 1 < len
           then show_groups (take start gs) @ ''::'' @ show_groups (drop (start + len) gs)
           else show_groups gs))"

subsection \<open>Parsing\<close>

text \<open>One decimal octet without a leading zero, and one group of at most four hexadecimal digits.\<close>

definition span :: "(char \<Rightarrow> bool) \<Rightarrow> string \<Rightarrow> string \<times> string" where
  [str_defs]: "span P s = (takeWhile P s, dropWhile P s)"

definition read_octet :: "string \<Rightarrow> (8 word \<times> string) option" where
  "read_octet s =
     (case span is_ascii_digit s of (ds, rest) \<Rightarrow>
        let v = foldl (\<lambda>acc c. 10 * acc + (ord c - 48)) 0 ds in
        if ds = [] \<or> 3 < length ds \<or> (1 < length ds \<and> hd ds = CHR 0x30) \<or> 255 < v then None
        else Some (of_nat v, rest))"

definition read_char :: "char \<Rightarrow> string \<Rightarrow> string option" where
  "read_char c s = (case s of d # rest \<Rightarrow> if d = c then Some rest else None | [] \<Rightarrow> None)"

definition read_ipv4 :: "string \<Rightarrow> (Ipv4Addr \<times> string) option" where
  "read_ipv4 s =
     (case read_octet s of None \<Rightarrow> None | Some (a, s) \<Rightarrow>
     (case Option.bind (read_char CHR 0x2E s) read_octet of None \<Rightarrow> None | Some (b, s) \<Rightarrow>
     (case Option.bind (read_char CHR 0x2E s) read_octet of None \<Rightarrow> None | Some (c, s) \<Rightarrow>
     (case Option.bind (read_char CHR 0x2E s) read_octet of None \<Rightarrow> None | Some (d, s) \<Rightarrow>
        Some (Ipv4 a b c d, s)))))"

definition hex_val :: "char \<Rightarrow> nat" where
  "hex_val c = (if is_ascii_digit c then ord c - 48 else if is_ascii_uppercase c then ord c - 55 else ord c - 87)"

definition read_group :: "string \<Rightarrow> (16 word \<times> string) option" where
  "read_group s =
     (case span is_ascii_hexdigit s of (ds, rest) \<Rightarrow>
        if ds = [] \<or> 4 < length ds then None
        else Some (of_nat (foldl (\<lambda>acc c. 16 * acc + hex_val c) 0 ds), rest))"

text \<open>
  \<open>limit\<close> groups at most, the first without a leading colon; an IPv4 address may stand for the
  last two. The result has the groups, whether an IPv4 address ended them, and the rest.
\<close>

fun read_groups :: "bool \<Rightarrow> nat \<Rightarrow> string \<Rightarrow> 16 word list \<times> bool \<times> string" where
  "read_groups first 0 s = ([], False, s)"
| "read_groups first (Suc n) s =
     (let start = (if first then Some s else read_char CHR 0x3A s) in
      case (if 0 < n then Option.bind start read_ipv4 else None) of
        Some (Ipv4 a b c d, rest) \<Rightarrow>
          ([of_nat (unat a * 256 + unat b), of_nat (unat c * 256 + unat d)], True, rest)
      | None \<Rightarrow>
          (case Option.bind start read_group of
             Some (g, rest) \<Rightarrow> (case read_groups False n rest of (gs, v4, rest') \<Rightarrow> (g # gs, v4, rest'))
           | None \<Rightarrow> ([], False, s)))"

definition ipv6_of :: "16 word list \<Rightarrow> Ipv6Addr option" where
  "ipv6_of gs = (case gs of [a, b, c, d, e, f, g, h] \<Rightarrow> Some (Ipv6 a b c d e f g h) | _ \<Rightarrow> None)"

definition read_ipv6 :: "string \<Rightarrow> (Ipv6Addr \<times> string) option" where
  "read_ipv6 s =
     (case read_groups True 8 s of (head, v4, rest) \<Rightarrow>
        if length head = 8 then map_option (\<lambda>ip. (ip, rest)) (ipv6_of head)
        else if v4 then None
        else if \<not> starts_with rest ''::'' then None
        else (case read_groups True (7 - length head) (drop 2 rest) of (tail, _, rest') \<Rightarrow>
                map_option (\<lambda>ip. (ip, rest'))
                  (ipv6_of (head @ replicate (8 - length head - length tail) 0 @ tail))))"

definition parse_ip :: "string \<Rightarrow> IpAddr option" where
  "parse_ip s =
     (case (case read_ipv4 s of Some (ip, rest) \<Rightarrow> Some (V4 ip, rest)
            | None \<Rightarrow> map_option (\<lambda>(ip, rest). (V6 ip, rest)) (read_ipv6 s)) of
        Some (ip, []) \<Rightarrow> Some ip
      | _ \<Rightarrow> None)"

subsection \<open>The check\<close>

fun validate_ip_safety :: "bool \<Rightarrow> IpAddr \<Rightarrow> BoundaryError + unit" where
  "validate_ip_safety allow_private (V4 ip) =
     (if is_dangerous_ipv4 allow_private ip
      then Inl (SsrfBlocked (''Destination IPv4 '' @ squote (show_ipv4 ip) @ '' is blocked by SSRF defense''))
      else Inr ())"
| "validate_ip_safety allow_private (V6 ip) =
     (if is_dangerous_ipv6 allow_private ip
      then Inl (SsrfBlocked (''Destination IPv6 '' @ squote (show_ipv6 ip) @ '' is blocked by SSRF defense''))
      else Inr ())"

subsection \<open>The refused ranges, as network prefixes\<close>

fun ip4_value :: "Ipv4Addr \<Rightarrow> nat" where
  "ip4_value (Ipv4 a b c d) = ((unat a * 256 + unat b) * 256 + unat c) * 256 + unat d"

definition in_net4 :: "Ipv4Addr \<Rightarrow> Ipv4Addr \<times> nat \<Rightarrow> bool" where
  "in_net4 ip net \<longleftrightarrow> ip4_value ip div 2 ^ (32 - snd net) = ip4_value (fst net) div 2 ^ (32 - snd net)"

definition ALWAYS_REFUSED4 :: "(Ipv4Addr \<times> nat) list" where
  "ALWAYS_REFUSED4 =
     [(Ipv4 0 0 0 0, 8), (Ipv4 127 0 0 0, 8), (Ipv4 169 254 0 0, 16), (Ipv4 192 0 2 0, 24),
      (Ipv4 198 51 100 0, 24), (Ipv4 203 0 113 0, 24), (Ipv4 198 18 0 0, 15), (Ipv4 224 0 0 0, 4),
      (Ipv4 240 0 0 0, 4)]"

definition PRIVATE4 :: "(Ipv4Addr \<times> nat) list" where
  "PRIVATE4 = [(Ipv4 10 0 0 0, 8), (Ipv4 172 16 0 0, 12), (Ipv4 192 168 0 0, 16), (Ipv4 100 64 0 0, 10)]"

definition refused4 :: "bool \<Rightarrow> Ipv4Addr \<Rightarrow> bool" where
  "refused4 allow_private ip \<longleftrightarrow>
     list_ex (in_net4 ip) (ALWAYS_REFUSED4 @ (if allow_private then [] else PRIVATE4))"

text \<open>The leading bits of an IPv4 address, octet by octet.\<close>

lemma octet_less: "unat (x :: 8 word) < 256"
  using unsigned_less [of x] by simp

lemma ip4_div:
  "ip4_value (Ipv4 a b c d) div 268435456 = unat a div 16"
  "ip4_value (Ipv4 a b c d) div 16777216 = unat a"
  "ip4_value (Ipv4 a b c d) div 4194304 = unat a * 4 + unat b div 64"
  "ip4_value (Ipv4 a b c d) div 1048576 = unat a * 16 + unat b div 16"
  "ip4_value (Ipv4 a b c d) div 131072 = unat a * 128 + unat b div 2"
  "ip4_value (Ipv4 a b c d) div 65536 = unat a * 256 + unat b"
  "ip4_value (Ipv4 a b c d) div 256 = (unat a * 256 + unat b) * 256 + unat c"
  using octet_less [of a] octet_less [of b] octet_less [of c] octet_less [of d] by (simp_all; linarith)+

lemma and_not_mask: "(x :: 'a::len word) AND NOT (mask n) = push_bit n (drop_bit n x)"
  by (rule bit_eqI) (auto simp: bit_simps)

lemma drop_push_drop: "drop_bit n (push_bit n (drop_bit n x)) = drop_bit n (x :: 'a::len word)"
  by (rule bit_eqI) (auto simp: bit_simps dest: bit_imp_le_length)

lemma and_mask_iff:
  assumes "m = NOT (mask n)"
  shows "(x :: 'a::len word) AND m = push_bit n (drop_bit n y) \<longleftrightarrow> unat x div 2 ^ n = unat y div 2 ^ n"
proof -
  have inj: "push_bit n (drop_bit n x) = push_bit n (drop_bit n y) \<longleftrightarrow> drop_bit n x = drop_bit n y"
    by (metis drop_push_drop)
  show ?thesis unfolding assms and_not_mask inj
    by (simp only: word_unat_eq_iff unat_drop_bit_eq) (simp only: drop_bit_eq_div)
qed

lemma octet_masks:
  "(b :: 8 word) AND 0xFE = 18 \<longleftrightarrow> unat b div 2 = 9"
  "(b :: 8 word) AND 0xC0 = 64 \<longleftrightarrow> unat b div 64 = 1"
  using and_mask_iff [of "0xFE" 1 b 18] and_mask_iff [of "0xC0" 6 b 64]
  by (simp_all add: mask_eq_exp_minus_1)

lemma if_else_False: "(if P then True else Q) = (P \<or> Q)"
  by simp

lemma high_nibble: "(n :: nat) < 256 \<Longrightarrow> 224 \<le> n \<longleftrightarrow> n div 16 = 14 \<or> n div 16 = 15"
  by (rule iffI; linarith)

lemma nibble_one: "16 \<le> (n :: nat) \<and> n \<le> 31 \<longleftrightarrow> n div 16 = 1"
  by (rule iffI; linarith)

lemma digit: "(b :: nat) < k \<Longrightarrow> a * k + b = c \<longleftrightarrow> a = c div k \<and> b = c mod k"
  by auto

lemma digit3:
  "(b :: nat) < 256 \<Longrightarrow> c < 256 \<Longrightarrow>
     65536 * a + b * 256 + c = v \<longleftrightarrow> a = v div 65536 \<and> b = v div 256 mod 256 \<and> c = v mod 256"
  using digit [of c 256 "a * 256 + b" v] digit [of b 256 a "v div 256"]
  by (simp add: algebra_simps div_mult2_eq [symmetric])

lemma dangerous4_iff: "is_dangerous_ipv4 allow_private ip = refused4 allow_private ip"
proof (cases ip)
  case (Ipv4 a b c d)
  have lt: "unat a < 256" "unat b < 256" "unat c < 256" "unat b div 2 < 128" "unat b div 16 < 16" "unat b div 64 < 4"
    using octet_less [of a] octet_less [of b] octet_less [of c] by linarith+
  have nets: "in_net4 (Ipv4 a b c d) (Ipv4 0 0 0 0, 8) \<longleftrightarrow> unat a = 0"
    "in_net4 (Ipv4 a b c d) (Ipv4 127 0 0 0, 8) \<longleftrightarrow> unat a = 127"
    "in_net4 (Ipv4 a b c d) (Ipv4 10 0 0 0, 8) \<longleftrightarrow> unat a = 10"
    "in_net4 (Ipv4 a b c d) (Ipv4 169 254 0 0, 16) \<longleftrightarrow> unat a = 169 \<and> unat b = 254"
    "in_net4 (Ipv4 a b c d) (Ipv4 192 168 0 0, 16) \<longleftrightarrow> unat a = 192 \<and> unat b = 168"
    "in_net4 (Ipv4 a b c d) (Ipv4 192 0 2 0, 24) \<longleftrightarrow> unat a = 192 \<and> unat b = 0 \<and> unat c = 2"
    "in_net4 (Ipv4 a b c d) (Ipv4 198 51 100 0, 24) \<longleftrightarrow> unat a = 198 \<and> unat b = 51 \<and> unat c = 100"
    "in_net4 (Ipv4 a b c d) (Ipv4 203 0 113 0, 24) \<longleftrightarrow> unat a = 203 \<and> unat b = 0 \<and> unat c = 113"
    "in_net4 (Ipv4 a b c d) (Ipv4 198 18 0 0, 15) \<longleftrightarrow> unat a = 198 \<and> unat b div 2 = 9"
    "in_net4 (Ipv4 a b c d) (Ipv4 224 0 0 0, 4) \<longleftrightarrow> unat a div 16 = 14"
    "in_net4 (Ipv4 a b c d) (Ipv4 240 0 0 0, 4) \<longleftrightarrow> unat a div 16 = 15"
    "in_net4 (Ipv4 a b c d) (Ipv4 172 16 0 0, 12) \<longleftrightarrow> unat a = 172 \<and> unat b div 16 = 1"
    "in_net4 (Ipv4 a b c d) (Ipv4 100 64 0 0, 10) \<longleftrightarrow> unat a = 100 \<and> unat b div 64 = 1"
    unfolding in_net4_def fst_conv snd_conv by (simp_all add: ip4_div del: ip4_value.simps)
      (use lt in \<open>simp_all add: digit digit3\<close>)
  have code: "is_dangerous_ipv4 allow_private (Ipv4 a b c d) \<longleftrightarrow>
      unat a = 127 \<or> unat a = 0 \<or> (unat a = 169 \<and> unat b = 254) \<or> 224 \<le> unat a \<or>
      (unat a = 192 \<and> unat b = 0 \<and> unat c = 2) \<or> (unat a = 198 \<and> unat b = 51 \<and> unat c = 100) \<or>
      (unat a = 203 \<and> unat b = 0 \<and> unat c = 113) \<or> (unat a = 198 \<and> unat b div 2 = 9) \<or>
      (\<not> allow_private \<and> (unat a = 10 \<or> (unat a = 172 \<and> 16 \<le> unat b \<and> unat b \<le> 31) \<or>
         (unat a = 192 \<and> unat b = 168) \<or> (unat a = 100 \<and> unat b div 64 = 1)))"
    unfolding is_dangerous_ipv4.simps is_private4.simps octet_masks if_else_False
    unfolding word_unat_eq_iff word_le_nat_alt
    by (rule iffI; elim disjE conjE; simp; linarith?)
  note tops = high_nibble [OF lt(1)] nibble_one
  show ?thesis
    unfolding Ipv4 code refused4_def ALWAYS_REFUSED4_def PRIVATE4_def tops
    by (cases allow_private; simp add: nets; rule iffI; elim disjE conjE; simp)
qed

text \<open>IPv6: an address that embeds an IPv4 address is judged as that one.\<close>

fun embedded4 :: "Ipv6Addr \<Rightarrow> Ipv4Addr option" where
  "embedded4 (Ipv6 a b c d e f g h) =
     (if a = 0 \<and> b = 0 \<and> c = 0 \<and> d = 0 \<and> e = 0 \<and> (f = 0 \<or> f = 0xffff)
      then Some (Ipv4 (hi_octet g) (lo_octet g) (hi_octet h) (lo_octet h)) else None)"

fun top32 :: "Ipv6Addr \<Rightarrow> nat" where
  "top32 (Ipv6 a b c d e f g h) = unat a * 65536 + unat b"

definition in_net6 :: "Ipv6Addr \<Rightarrow> nat \<times> nat \<Rightarrow> bool" where
  "in_net6 ip net \<longleftrightarrow> top32 ip div 2 ^ (32 - snd net) = fst net div 2 ^ (32 - snd net)"

definition ALWAYS_REFUSED6 :: "(nat \<times> nat) list" where
  "ALWAYS_REFUSED6 = [(0xfe800000, 10), (0xff000000, 8), (0xfd000ec2, 32), (0x20010db8, 32)]"

definition PRIVATE6 :: "(nat \<times> nat) list" where
  "PRIVATE6 = [(0xfc000000, 7)]"

definition refused6 :: "bool \<Rightarrow> Ipv6Addr \<Rightarrow> bool" where
  "refused6 allow_private ip \<longleftrightarrow>
     (case embedded4 ip of
        Some v4 \<Rightarrow> refused4 allow_private v4
      | None \<Rightarrow> list_ex (in_net6 ip) (ALWAYS_REFUSED6 @ (if allow_private then [] else PRIVATE6)))"

lemma segment_less: "unat (x :: 16 word) < 65536"
  using unsigned_less [of x] by simp

lemma segment_masks:
  "(a :: 16 word) AND 0xffc0 = 0xfe80 \<longleftrightarrow> unat a div 64 = 1018"
  "(a :: 16 word) AND 0xff00 = 0xff00 \<longleftrightarrow> unat a div 256 = 255"
  "(a :: 16 word) AND 0xfe00 = 0xfc00 \<longleftrightarrow> unat a div 512 = 126"
  using and_mask_iff [of "0xffc0" 6 a "0xfe80"] and_mask_iff [of "0xff00" 8 a "0xff00"]
    and_mask_iff [of "0xfe00" 9 a "0xfc00"]
  by (simp_all add: mask_eq_exp_minus_1)

lemma top32_div:
  "b < 65536 \<Longrightarrow> (a * 65536 + b) div 4194304 = a div (64 :: nat)"
  "b < 65536 \<Longrightarrow> (a * 65536 + b) div 16777216 = a div (256 :: nat)"
  "b < 65536 \<Longrightarrow> (a * 65536 + b) div 33554432 = a div (512 :: nat)"
  by linarith+

lemma dangerous6_iff: "is_dangerous_ipv6 allow_private ip = refused6 allow_private ip"
proof (cases ip)
  case (Ipv6 a b c d e f g h)
  have b: "unat b < 65536" by (rule segment_less)
  have nets: "in_net6 ip (0xfe800000, 10) \<longleftrightarrow> unat a div 64 = 1018"
    "in_net6 ip (0xff000000, 8) \<longleftrightarrow> unat a div 256 = 255"
    "in_net6 ip (0xfc000000, 7) \<longleftrightarrow> unat a div 512 = 126"
    "in_net6 ip (0xfd000ec2, 32) \<longleftrightarrow> a = 0xfd00 \<and> b = 0x0ec2"
    "in_net6 ip (0x20010db8, 32) \<longleftrightarrow> a = 0x2001 \<and> b = 0x0db8"
    using b by (simp_all add: in_net6_def Ipv6 top32_div digit word_unat_eq_iff)
  have any: "refused4 allow_private (Ipv4 0 0 0 x)" for x
    unfolding dangerous4_iff [symmetric] by simp
  show ?thesis
  proof (cases "a = 0 \<and> b = 0 \<and> c = 0 \<and> d = 0 \<and> e = 0 \<and> (f = 0 \<or> f = 0xffff)")
    case True
    have low: "hi_octet 0 = 0" "lo_octet 0 = 0" "hi_octet 1 = 0" by (simp_all add: hi_octet_def lo_octet_def)
    show ?thesis
    proof (cases "f = 0 \<and> g = 0 \<and> (h = 0 \<or> h = 1)")
      case special: True
      with True have "is_dangerous_ipv6 allow_private ip" by (auto simp: Ipv6)
      moreover have "refused6 allow_private ip" using True special any low by (auto simp: refused6_def Ipv6)
      ultimately show ?thesis by simp
    next
      case False
      then show ?thesis using True by (auto simp: refused6_def Ipv6 dangerous4_iff)
    qed
  next
    case False
    have code: "is_dangerous_ipv6 allow_private ip \<longleftrightarrow> unat a div 64 = 1018 \<or> unat a div 256 = 255 \<or>
        (a = 0xfd00 \<and> b = 0x0ec2) \<or> (\<not> allow_private \<and> unat a div 512 = 126) \<or> (a = 0x2001 \<and> b = 0x0db8)"
    proof -
      have m: "to_ipv4_mapped (Ipv6 a b c d e f g h) = None"
        unfolding to_ipv4_mapped.simps by (rule if_not_P) (use False in blast)
      have ne: "(a = 0 \<and> b = 0 \<and> c = 0 \<and> d = 0 \<and> e = 0 \<and> f = 0) = False"
        "(a = 0 \<and> b = 0 \<and> c = 0 \<and> d = 0 \<and> e = 0 \<and> f = 0 \<and> g = 0 \<and> (h = 1 \<or> h = 0)) = False"
        using False by blast+
      show ?thesis
        unfolding Ipv6 is_dangerous_ipv6.simps m option.case ne if_False if_else_False segment_masks by blast
    qed
    have none: "embedded4 ip = None" using False unfolding Ipv6 embedded4.simps by (rule if_not_P)
    show ?thesis
      unfolding code refused6_def none option.case ALWAYS_REFUSED6_def PRIVATE6_def
      by (cases allow_private; simp add: nets; blast)
  qed
qed

fun refused :: "bool \<Rightarrow> IpAddr \<Rightarrow> bool" where
  "refused allow_private (V4 ip) = refused4 allow_private ip"
| "refused allow_private (V6 ip) = refused6 allow_private ip"

lemma validate_ip_iff: "validate_ip_safety allow_private ip = Inr () \<longleftrightarrow> \<not> refused allow_private ip"
  by (cases ip) (simp_all add: dangerous4_iff dangerous6_iff)

subsection \<open>Properties\<close>

text \<open>
  C17: the address check refuses exactly the addresses of the listed networks, compared as
  numbers: thirteen IPv4 prefixes, four of them only when private addresses are not allowed, and
  for IPv6 five prefixes, an address that embeds an IPv4 address (mapped or compatible) being
  judged as that one. So no spelling of a loopback or metadata address as IPv6 passes.
\<close>

theorem refused_networks:
  "(validate_ip_safety allow_private (V4 v4) = Inr () \<longleftrightarrow>
     \<not> list_ex (in_net4 v4) (ALWAYS_REFUSED4 @ (if allow_private then [] else PRIVATE4))) \<and>
   (validate_ip_safety allow_private (V6 v6) = Inr () \<longleftrightarrow>
     (case embedded4 v6 of
        Some v4 \<Rightarrow> validate_ip_safety allow_private (V4 v4) = Inr ()
      | None \<Rightarrow> \<not> list_ex (in_net6 v6) (ALWAYS_REFUSED6 @ (if allow_private then [] else PRIVATE6))))"
  unfolding validate_ip_iff refused.simps refused6_def refused4_def by (simp split: option.split)

end
