(* ===== verification/Secret.thy ===== *)
theory Secret
  imports Policy
begin

section \<open>Secrets and their redaction\<close>

text \<open>
  Model of \<^verbatim>\<open>crates/pbm-secret-boundary/src/secret.rs\<close>. A secret is the buffer of its bytes.
  Overwriting the buffer when it is dropped has no value to model: what the library shows is
  where the bytes of a secret can occur in what the boundary returns.
\<close>

subsection \<open>The container\<close>

record SecretString =
  inner :: bytes

definition new_secret :: "string \<Rightarrow> SecretString" where
  "new_secret s = \<lparr>inner = s\<rparr>"

definition from_bytes :: "bytes \<Rightarrow> BoundaryError + SecretString" where
  "from_bytes bs =
     (let bs = (if ends_with bs [CHR 0x0D, CHR 0x0A] then take (length bs - 2) bs
                else if ends_with bs [CHR 0x0A] then take (length bs - 1) bs else bs) in
      if \<not> valid_utf8 bs then Inl (ProviderError ''Secret bytes contained invalid UTF-8'')
      else Inr \<lparr>inner = bs\<rparr>)"

definition expose_secret :: "SecretString \<Rightarrow> string" where
  "expose_secret s = (if valid_utf8 (inner s) then inner s else ''<invalid utf-8 secret>'')"

definition secret_len :: "SecretString \<Rightarrow> nat" where
  "secret_len s = length (inner s)"

definition secret_is_empty :: "SecretString \<Rightarrow> bool" where
  "secret_is_empty s \<longleftrightarrow> inner s = []"

definition secret_debug :: "SecretString \<Rightarrow> string" where
  "secret_debug s = ''SecretString([REDACTED SECRET])''"

definition secret_display :: "SecretString \<Rightarrow> string" where
  "secret_display s = ''[REDACTED SECRET]''"

definition REDACTED :: string where
  "REDACTED = ''[REDACTED]''"

definition redact_secret_from_text :: "string \<Rightarrow> SecretString \<Rightarrow> string" where
  "redact_secret_from_text text secret =
     (let raw = expose_secret secret in
      if trim raw = [] then text else replace_str text raw REDACTED)"

subsection \<open>What redaction leaves\<close>

text \<open>
  A secret is \<^emph>\<open>plain\<close> when its text is not blank, has neither bracket and does not occur in
  the word between the brackets of the marker.
\<close>

definition plain_secret :: "SecretString \<Rightarrow> bool" where
  "plain_secret secret \<longleftrightarrow>
     (let raw = expose_secret secret in
      trim raw \<noteq> [] \<and> CHR ''['' \<notin> set raw \<and> CHR '']'' \<notin> set raw \<and> \<not> contains_str ''REDACTED'' raw)"

lemma redacted_has_no_secret:
  "plain_secret secret \<Longrightarrow> \<not> contains_str (redact_secret_from_text t secret) (expose_secret secret)"
  using replace_str_clean [of "expose_secret secret" "CHR ''[''" "CHR '']''" "''REDACTED''" t]
  by (auto simp: plain_secret_def redact_secret_from_text_def REDACTED_def Let_def)

lemma redact_absent:
  "\<not> contains_str t (expose_secret secret) \<Longrightarrow> redact_secret_from_text t secret = t"
  by (simp add: redact_secret_from_text_def replace_str_absent Let_def)

lemma redact_valid:
  assumes "valid_utf8 t"
  shows "valid_utf8 (redact_secret_from_text t secret)"
proof -
  have placeholder: "valid_utf8 ''<invalid utf-8 secret>''" by (rule valid_utf8_ascii) (simp add: is_ascii_def)
  have raw: "valid_utf8 (expose_secret secret)"
    unfolding expose_secret_def using placeholder by (simp split: if_split)
  have marker: "valid_utf8 REDACTED" by (rule valid_utf8_ascii) (simp add: is_ascii_def REDACTED_def)
  show ?thesis
    using assms raw marker valid_utf8_replace [of "expose_secret secret" REDACTED t]
    by (cases "expose_secret secret = []") (auto simp: redact_secret_from_text_def Let_def)
qed

text \<open>The condition is needed: the marker can complete a secret that has a bracket.\<close>

lemma marker_completes_secret:
  "redact_secret_from_text ''kk[R'' (new_secret ''k[R'') = ''k[REDACTED]''"
  "contains_str (redact_secret_from_text ''kk[R'' (new_secret ''k[R'')) (expose_secret (new_secret ''k[R''))"
proof -
  have "valid_utf8 ''k[R''" by (rule valid_utf8_ascii) (simp add: is_ascii_def)
  then have e: "expose_secret (new_secret ''k[R'') = ''k[R''"
    by (simp add: expose_secret_def new_secret_def)
  have "trim ''k[R'' \<noteq> []" by (simp add: str_defs)
  then show r: "redact_secret_from_text ''kk[R'' (new_secret ''k[R'') = ''k[REDACTED]''"
    by (simp add: redact_secret_from_text_def e REDACTED_def replace_str.simps)
  show "contains_str (redact_secret_from_text ''kk[R'' (new_secret ''k[R'')) (expose_secret (new_secret ''k[R''))"
    unfolding r e by simp
qed

text \<open>Valid UTF-8 stays valid when a newline is taken off its end.\<close>

lemma valid_utf8_snoc: "ord c < 0x80 \<Longrightarrow> valid_utf8 (s @ [c]) \<Longrightarrow> valid_utf8 s"
proof (induction s rule: length_induct)
  case (1 s)
  show ?case
  proof (cases "s = []")
    case True
    then show ?thesis by (simp add: valid_utf8.simps)
  next
    case False
    from 1(3) obtain n where n: "utf8_head (s @ [c]) = Some n" "valid_utf8 (drop n (s @ [c]))"
      by (subst (asm) valid_utf8.simps) (auto split: option.splits)
    have head: "utf8_head s = Some n"
      using n(1) 1(2) False by (cases s) (auto simp: utf8_cont_def split: if_splits list.splits)
    then have le: "0 < n" "n \<le> length s" by (auto dest: utf8_head_pos utf8_head_le)
    then have "valid_utf8 (drop n s)" using 1(1) 1(2) n(2) False by simp
    with head show ?thesis by (subst valid_utf8.simps) simp
  qed
qed

lemma strip_newline_valid:
  "valid_utf8 (s @ [CHR 0x0A]) \<Longrightarrow> valid_utf8 s"
  "valid_utf8 (s @ [CHR 0x0D, CHR 0x0A]) \<Longrightarrow> valid_utf8 s"
  using valid_utf8_snoc [of "CHR 0x0A" s] valid_utf8_snoc [of "CHR 0x0D" s]
    valid_utf8_snoc [of "CHR 0x0A" "s @ [CHR 0x0D]"] by simp_all

subsection \<open>Properties\<close>

text \<open>
  accepting the bytes of a secret removes at most one trailing newline (with its carriage
  return), refuses exactly the buffers whose remaining bytes are not UTF-8, and the accepted
  secret is exposed as those bytes, never as the placeholder for undecodable ones.
\<close>

theorem from_bytes_exposes:
  "case from_bytes bs of
     Inl e \<Rightarrow> e = ProviderError ''Secret bytes contained invalid UTF-8'' \<and> \<not> valid_utf8 bs
   | Inr s \<Rightarrow> (bs = expose_secret s \<or> bs = expose_secret s @ [CHR 0x0A] \<or>
       bs = expose_secret s @ [CHR 0x0D, CHR 0x0A]) \<and> valid_utf8 (expose_secret s) \<and>
       secret_len s = length (expose_secret s)"
proof (cases "from_bytes bs")
  case (Inl e)
  have "\<not> valid_utf8 bs"
    using Inl
    by (auto dest: strip_newline_valid simp: from_bytes_def Let_def ends_with_iff numeral_2_eq_2 split: if_splits)
  with Inl show ?thesis by (auto simp: from_bytes_def Let_def split: if_splits)
next
  case (Inr s)
  then show ?thesis
    by (auto simp: from_bytes_def Let_def ends_with_iff expose_secret_def secret_len_def numeral_2_eq_2 split: if_splits)
qed

text \<open>
  C27: a text redacted for a secret does not contain it, for every secret that is not blank, has
  no bracket and is no part of the marker's word; and a text without the secret is unchanged.
\<close>

theorem redaction_removes_secret:
  "(if plain_secret secret then \<not> contains_str (redact_secret_from_text t secret) (expose_secret secret) else True) \<and>
   (if contains_str t (expose_secret secret) then True else redact_secret_from_text t secret = t)"
  using redacted_has_no_secret redact_absent by auto

end
