(* ===== verification/Providers.thy ===== *)
theory Providers
  imports Secret
begin

section \<open>Credential providers\<close>

text \<open>
  Model of \<^verbatim>\<open>provider/mod.rs\<close>, \<^verbatim>\<open>provider/env.rs\<close> and \<^verbatim>\<open>provider/mock.rs\<close> in
  \<^verbatim>\<open>crates/pbm-secret-boundary/src\<close>. The trait's promise, that errors never carry the value of
  a credential, is the locale \<open>secret_provider\<close>: what a provider answers with an error is
  determined by the \<^emph>\<open>shape\<close> of the stored value (absent, blank, unprintable), not by the value.
  \<open>None\<close> is a call that does not return (it panics, or runs for ever).
\<close>

locale secret_provider =
  fixes get :: "'secret \<Rightarrow> string \<Rightarrow> (BoundaryError + SecretString) option"
    and shape :: "'secret \<Rightarrow> string \<Rightarrow> 'shape"
  assumes errors_by_shape:
      "shape s ref = shape s' ref \<Longrightarrow> get s ref = Some (Inl e) \<Longrightarrow> get s' ref = Some (Inl e)"
    and returns_by_shape: "shape s ref = shape s' ref \<Longrightarrow> get s ref = None \<Longrightarrow> get s' ref = None"
begin

lemma shape_cases:
  assumes sh: "shape s ref = shape s' ref"
  obtains "get s ref = get s' ref" | v v' where "get s ref = Some (Inr v)" "get s' ref = Some (Inr v')"
proof (cases "get s ref")
  case None
  with returns_by_shape [OF sh] have "get s ref = get s' ref" by simp
  then show thesis by (rule that)
next
  case (Some r)
  show thesis
  proof (cases r)
    case (Inl e)
    with Some errors_by_shape [OF sh] have "get s ref = get s' ref" by simp
    then show thesis by (rule that)
  next
    case (Inr v)
    have "get s' ref \<noteq> None" using returns_by_shape [OF sh [symmetric]] Some by auto
    then obtain r' where r': "get s' ref = Some r'" by blast
    show thesis
    proof (cases r')
      case (Inl e)
      with errors_by_shape [OF sh [symmetric]] r' Some Inr show thesis by simp
    next
      case inr: (Inr v')
      with that(2) Some Inr r' show thesis by simp
    qed
  qed
qed

end

subsection \<open>The environment\<close>

text \<open>\<^verbatim>\<open>std::env::var\<close>: the value, or why there is none.\<close>

datatype VarResult = VarOk string | NotPresent | NotUnicode

type_synonym host_env = "string \<Rightarrow> VarResult"

record EnvSecretProvider =
  env_prefix :: string

definition default_env_provider :: EnvSecretProvider where
  "default_env_provider = \<lparr>env_prefix = ''PBM_SECRET_''\<rparr>"

definition env_with_prefix :: "string \<Rightarrow> EnvSecretProvider" where
  "env_with_prefix p = \<lparr>env_prefix = p\<rparr>"

definition env_name_byte :: "char \<Rightarrow> bool" where
  "env_name_byte b \<longleftrightarrow> is_ascii_uppercase b \<or> is_ascii_digit b \<or> b = CHR 0x5F"

definition validate_var_name :: "EnvSecretProvider \<Rightarrow> string \<Rightarrow> BoundaryError + string" where
  "validate_var_name p secret_ref =
     (let var_name = (case strip_prefix secret_ref ''env://'' of Some n \<Rightarrow> n | None \<Rightarrow> secret_ref) in
      if var_name = [] \<or> 256 < length var_name
      then Inl (InvalidRequest (''Environment secret reference '' @ squote secret_ref
             @ '' is empty or exceeds maximum length''))
      else if \<not> starts_with var_name (env_prefix p) \<or> length var_name \<le> length (env_prefix p)
      then Inl (InvalidRequest (''Environment secret variable '' @ squote var_name
             @ '' must begin with prefix '' @ squote (env_prefix p)))
      else if \<not> list_all env_name_byte var_name
      then Inl (InvalidRequest (''Environment secret variable '' @ squote var_name
             @ '' must contain only [A-Z0-9_]''))
      else Inr var_name)"

definition value_end_char :: "string \<Rightarrow> bool" where
  "value_end_char ch \<longleftrightarrow> ch = [CHR 0x0D] \<or> ch = [CHR 0x0A] \<or> ch = '' '' \<or> ch = [CHR 0x09]"

definition env_get_secret :: "EnvSecretProvider \<Rightarrow> host_env \<Rightarrow> string \<Rightarrow> BoundaryError + SecretString" where
  "env_get_secret p host secret_ref =
     (case validate_var_name p secret_ref of
        Inl e \<Rightarrow> Inl e
      | Inr var_name \<Rightarrow>
          (case host var_name of
             VarOk raw_val \<Rightarrow>
               (let trimmed = trim_end_matches value_end_char raw_val in
                if trimmed = []
                then Inl (SecretNotFound (''Environment secret '' @ squote secret_ref @ '' is empty''))
                else if has_control trimmed
                then Inl (InvalidRequest (''Environment secret '' @ squote secret_ref
                       @ '' contains control characters and cannot be used as a header value''))
                else Inr (new_secret trimmed))
           | NotPresent \<Rightarrow> Inl (SecretNotFound secret_ref)
           | NotUnicode \<Rightarrow> Inl (ProviderError (''Environment variable '' @ squote var_name
                  @ '' is not valid UTF-8''))))"

text \<open>The shape of a variable.\<close>

datatype value_shape = Absent | Undecodable | Blank | Unprintable | Usable

definition shape_of_value :: "VarResult \<Rightarrow> value_shape" where
  "shape_of_value r =
     (case r of
        NotPresent \<Rightarrow> Absent
      | NotUnicode \<Rightarrow> Undecodable
      | VarOk v \<Rightarrow>
          if trim_end_matches value_end_char v = [] then Blank
          else if has_control (trim_end_matches value_end_char v) then Unprintable else Usable)"

definition env_shape :: "EnvSecretProvider \<Rightarrow> host_env \<Rightarrow> string \<Rightarrow> value_shape option" where
  "env_shape p host secret_ref =
     (case validate_var_name p secret_ref of Inl e \<Rightarrow> None | Inr n \<Rightarrow> Some (shape_of_value (host n)))"

interpretation env: secret_provider "\<lambda>host ref. Some (env_get_secret p host ref)" "env_shape p" for p
proof (unfold_locales, unfold option.inject)
  fix s s' :: host_env and ref e
  assume sh: "env_shape p s ref = env_shape p s' ref" and err: "env_get_secret p s ref = Inl e"
  show "env_get_secret p s' ref = Inl e"
  proof (cases "validate_var_name p ref")
    case (Inl x)
    with err show ?thesis by (simp add: env_get_secret_def)
  next
    case (Inr n)
    have "shape_of_value (s n) = shape_of_value (s' n)" using sh Inr by (simp add: env_shape_def)
    with err Inr show ?thesis
      by (cases "s n"; cases "s' n") (auto simp: env_get_secret_def shape_of_value_def Let_def split: if_splits)
  qed
qed simp

subsection \<open>Synthetic credentials\<close>

record MockSecretProvider =
  mock_secrets :: "(string, SecretString) hashmap"

definition new_mock_provider :: MockSecretProvider where
  "new_mock_provider =
     \<lparr>mock_secrets =
        hm_insert ''op://dev-vault/payment-gateway/test-key'' (new_secret ''synthetic-payment-dev-token-1122'')
          (hm_insert ''op://dev-vault/metrics-pipeline/token'' (new_secret ''synthetic-metrics-dev-token-5544'')
            (hm_insert ''op://dev-vault/weather-service/api-key'' (new_secret ''synthetic-weather-dev-token-9988'') []))\<rparr>"

definition insert_synthetic :: "string \<Rightarrow> string \<Rightarrow> MockSecretProvider \<Rightarrow> MockSecretProvider" where
  "insert_synthetic secret_ref v p = p\<lparr>mock_secrets := hm_insert secret_ref (new_secret v) (mock_secrets p)\<rparr>"

definition mock_get_secret :: "MockSecretProvider \<Rightarrow> string \<Rightarrow> BoundaryError + SecretString" where
  "mock_get_secret p secret_ref =
     (case hm_get (mock_secrets p) secret_ref of
        Some s \<Rightarrow> Inr s
      | None \<Rightarrow> Inl (SecretNotFound secret_ref))"

interpretation mock: secret_provider "\<lambda>p ref. Some (mock_get_secret p ref)" "\<lambda>p ref. hm_contains (mock_secrets p) ref"
  by unfold_locales (auto simp: mock_get_secret_def hm_contains_def split: option.splits)

lemma mock_get_insert:
  "mock_get_secret (insert_synthetic k v p) ref =
     (if ref = k then Inr (new_secret v) else mock_get_secret p ref)"
  by (simp add: mock_get_secret_def insert_synthetic_def)

subsection \<open>What the environment provider reads\<close>

lemma validate_var_name_Inr:
  "validate_var_name p ref = Inr n \<Longrightarrow>
     (ref = n \<or> ref = ''env://'' @ n) \<and> length n \<le> 256 \<and>
     (\<exists>rest. rest \<noteq> [] \<and> n = env_prefix p @ rest) \<and> list_all env_name_byte n"
  by (auto simp: validate_var_name_def Let_def strip_prefix_def starts_with_iff split: if_splits option.splits)

text \<open>
  the environment provider reads one variable only, whose name is the reference without
  \<^verbatim>\<open>env://\<close>, at most 256 bytes of \<^verbatim>\<open>[A-Z0-9_]\<close> and longer than the required prefix it begins
  with; the secret is the variable's value without trailing newlines, blanks and tabs, and is
  neither empty nor has it a control character.
\<close>

theorem env_secret_guarded:
  "(case env_get_secret p host ref of
      Inl e \<Rightarrow> True
    | Inr s \<Rightarrow> \<exists>n v rest. (ref = n \<or> ref = ''env://'' @ n) \<and> n = env_prefix p @ rest \<and> rest \<noteq> [] \<and>
        length n \<le> 256 \<and> list_all env_name_byte n \<and> host n = VarOk v \<and>
        inner s = trim_end_matches value_end_char v \<and> inner s \<noteq> [] \<and> \<not> has_control (inner s)) \<and>
   (case validate_var_name p ref of
      Inl e \<Rightarrow> env_get_secret p host ref = Inl e
    | Inr n \<Rightarrow> env_get_secret p host ref = env_get_secret p (\<lambda>m. if m = n then host n else NotPresent) ref)"
proof
  show "case env_get_secret p host ref of
      Inl e \<Rightarrow> True
    | Inr s \<Rightarrow> \<exists>n v rest. (ref = n \<or> ref = ''env://'' @ n) \<and> n = env_prefix p @ rest \<and> rest \<noteq> [] \<and>
        length n \<le> 256 \<and> list_all env_name_byte n \<and> host n = VarOk v \<and>
        inner s = trim_end_matches value_end_char v \<and> inner s \<noteq> [] \<and> \<not> has_control (inner s)"
  proof (cases "validate_var_name p ref")
    case (Inr n)
    from validate_var_name_Inr [OF Inr] obtain rest
      where "(ref = n \<or> ref = ''env://'' @ n) \<and> n = env_prefix p @ rest \<and> rest \<noteq> [] \<and>
        length n \<le> 256 \<and> list_all env_name_byte n" by blast
    then show ?thesis
      unfolding env_get_secret_def Inr sum.case
      by (cases "host n") (auto simp: Let_def new_secret_def)
  qed (simp add: env_get_secret_def)
qed (simp add: env_get_secret_def split: sum.split)

end
