(* ===== verification/Security_Event.thy ===== *)
theory Security_Event
  imports Secret Events "HOL-Library.Word"
begin

section \<open>Audit events of the secret boundary\<close>

text \<open>
  Model of \<^verbatim>\<open>crates/pbm-secret-boundary/src/event.rs\<close> and of the bridge
  \<^verbatim>\<open>mcp-shield/src/secret_boundary/events.rs\<close> that turns an audit event into an event of the
  shield. The clock, the counter, the process id and the stack address that enter an event id
  are arguments, at the width the code has them.
\<close>

unbundle bit_operations_syntax

subsection \<open>Event ids\<close>

definition splitmix64 :: "64 word \<Rightarrow> 64 word" where
  "splitmix64 x =
     (let x = x + 0x9e3779b97f4a7c15;
          x = (x XOR drop_bit 30 x) * 0xbf58476d1ce4e5b9;
          x = (x XOR drop_bit 27 x) * 0x94d049bb133111eb
      in x XOR drop_bit 31 x)"

definition to_le_bytes :: "'a::len word \<Rightarrow> 8 word list" where
  "to_le_bytes w = map (\<lambda>i. ucast (drop_bit (8 * i) w)) [0..<LENGTH('a) div 8]"

definition fnv1a :: "8 word list \<Rightarrow> 64 word" where
  "fnv1a bs = foldl (\<lambda>fnv byte. (fnv XOR ucast byte) * 0x100000001b3) 0xcbf29ce484222325 bs"

definition format_uuid :: "8 word list \<Rightarrow> string" where
  "format_uuid b =
     (let h = (\<lambda>i. hex_byte (unat (b ! i))) in
      h 0 @ h 1 @ h 2 @ h 3 @ ''-'' @ h 4 @ h 5 @ ''-'' @ h 6 @ h 7 @ ''-'' @ h 8 @ h 9 @ ''-'' @
      h 10 @ h 11 @ h 12 @ h 13 @ h 14 @ h 15)"

definition generate_uuid_v4 :: "128 word \<Rightarrow> 64 word \<Rightarrow> 64 word \<Rightarrow> 64 word \<Rightarrow> string" where
  "generate_uuid_v4 now count pid stack_marker =
     (let fnv = fnv1a (to_le_bytes now @ to_le_bytes count @ to_le_bytes pid @ to_le_bytes stack_marker);
          hi = splitmix64 (fnv XOR ucast now XOR word_rotl 17 count);
          lo = splitmix64 (hi XOR ucast (drop_bit 64 now) XOR word_rotl 31 pid XOR count);
          b = to_le_bytes hi @ to_le_bytes lo;
          b = b[6 := ((b ! 6) AND 0x0f) OR 0x40];
          b = b[8 := ((b ! 8) AND 0x3f) OR 0x80]
      in format_uuid b)"

subsection \<open>Audit events\<close>

datatype PolicyDecision = Allowed | Denied

datatype ExecutionOutcome = Success | Failure | NotExecuted

record SecurityEvent =
  aud_event_id :: string
  aud_timestamp :: int
  aud_correlation_id :: string
  aud_agent_id :: string
  aud_operation_id :: string
  aud_decision :: PolicyDecision
  aud_denial_reason :: "string option"
  aud_credential_ref :: "string option"
  aud_destination_host :: string
  aud_outcome :: ExecutionOutcome
  aud_duration_ms :: "nat option"

record PbmShieldEvent =
  pse_event_id :: string
  pse_schema_version :: nat
  pse_timestamp_ms :: nat
  pse_module :: string
  pse_event_type :: string
  pse_severity :: string
  pse_details :: json
  pse_source :: string
  pse_tenant_id :: string
  pse_agent_id :: "string option"
  pse_session_id :: "string option"
  pse_trace_id :: "string option"
  pse_correlation_id :: "string option"
  pse_resource_type :: "string option"
  pse_resource_id :: "string option"
  pse_outcome :: "string option"
  pse_policy_version :: "string option"

definition opt_str :: "string option \<Rightarrow> json" where
  "opt_str o' = (case o' of None \<Rightarrow> JNull | Some s \<Rightarrow> JStr s)"

definition opt_nat :: "nat option \<Rightarrow> json" where
  "opt_nat o' = (case o' of None \<Rightarrow> JNull | Some n \<Rightarrow> JNum (PosInt n))"

fun event_class :: "PolicyDecision \<Rightarrow> ExecutionOutcome \<Rightarrow> string \<times> string \<times> string" where
  "event_class Allowed Success = (''secret_operation_executed'', ''info'', ''allowed'')"
| "event_class Allowed Failure = (''secret_operation_failed'', ''warning'', ''failure'')"
| "event_class Allowed NotExecuted = (''secret_operation_aborted'', ''warning'', ''aborted'')"
| "event_class Denied _ = (''secret_boundary_denial'', ''critical'', ''denied'')"

definition to_pbm_shield_event :: "SecurityEvent \<Rightarrow> string \<Rightarrow> PbmShieldEvent" where
  "to_pbm_shield_event e tenant =
     (case event_class (aud_decision e) (aud_outcome e) of (event_type, severity, outcome) \<Rightarrow>
        \<lparr>pse_event_id = aud_event_id e, pse_schema_version = 2,
         pse_timestamp_ms = nat (max (aud_timestamp e) 1), pse_module = ''mcp-shield'',
         pse_event_type = event_type, pse_severity = severity,
         pse_details = JObj
           [(''credential_ref'', opt_str (aud_credential_ref e)),
            (''denial_reason'', opt_str (aud_denial_reason e)),
            (''destination_host'', JStr (aud_destination_host e)),
            (''duration_ms'', opt_nat (aud_duration_ms e)),
            (''operation_id'', JStr (aud_operation_id e)),
            (''subsystem'', JStr ''secret-boundary'')],
         pse_source = ''module'', pse_tenant_id = tenant, pse_agent_id = Some (aud_agent_id e),
         pse_session_id = None, pse_trace_id = Some (aud_correlation_id e),
         pse_correlation_id = Some (aud_correlation_id e), pse_resource_type = Some ''operation'',
         pse_resource_id = Some (aud_operation_id e), pse_outcome = Some outcome,
         pse_policy_version = Some ''secret-boundary/1''\<rparr>)"

text \<open>The in-memory logger: the events recorded, in order.\<close>

record InMemoryAuditLogger =
  logged :: "SecurityEvent list"

definition new_audit_logger :: InMemoryAuditLogger where
  "new_audit_logger = \<lparr>logged = []\<rparr>"

definition log_in_memory :: "SecurityEvent \<Rightarrow> InMemoryAuditLogger \<Rightarrow> InMemoryAuditLogger" where
  "log_in_memory e l = l\<lparr>logged := logged l @ [e]\<rparr>"

definition last_event :: "InMemoryAuditLogger \<Rightarrow> SecurityEvent option" where
  "last_event l = (case rev (logged l) of [] \<Rightarrow> None | e # _ \<Rightarrow> Some e)"

definition clear_events :: "InMemoryAuditLogger \<Rightarrow> InMemoryAuditLogger" where
  "clear_events l = l\<lparr>logged := []\<rparr>"

text \<open>The serializer of the \<^verbatim>\<open>serde_json\<close> package is a parameter.\<close>

definition verify_no_secrets_in_events ::
  "(SecurityEvent \<Rightarrow> string option) \<Rightarrow> SecurityEvent list \<Rightarrow> SecretString \<Rightarrow> bool" where
  "verify_no_secrets_in_events ser events secret =
     (let raw = expose_secret secret in
      if trim raw = [] then True
      else list_all (\<lambda>e. case ser e of Some s \<Rightarrow> \<not> contains_str s raw | None \<Rightarrow> True) events)"

subsection \<open>The bridge to the shield's events\<close>

fun bridge_class :: "PolicyDecision \<Rightarrow> ExecutionOutcome \<Rightarrow> string \<times> Severity \<times> string" where
  "bridge_class Allowed Success = (''secret_operation_executed'', Info, ''allowed'')"
| "bridge_class Allowed Failure = (''secret_operation_failed'', Warning, ''failure'')"
| "bridge_class Allowed NotExecuted = (''secret_operation_aborted'', Warning, ''aborted'')"
| "bridge_class Denied _ = (''secret_boundary_denial'', Critical, ''denied'')"

fun decision_debug :: "PolicyDecision \<Rightarrow> string" where
  "decision_debug Allowed = ''Allowed''"
| "decision_debug Denied = ''Denied''"

fun outcome_debug :: "ExecutionOutcome \<Rightarrow> string" where
  "outcome_debug Success = ''Success''"
| "outcome_debug Failure = ''Failure''"
| "outcome_debug NotExecuted = ''NotExecuted''"

definition bridge_log_event :: "SecurityEvent \<Rightarrow> Event" where
  "bridge_log_event e =
     (case bridge_class (aud_decision e) (aud_outcome e) of (event_type, severity, outcome) \<Rightarrow>
        emit_traced event_type severity
          (JObj
            [(''action'', JStr outcome),
             (''authorized_agent_id'', JStr (aud_agent_id e)),
             (''credential_ref'', opt_str (aud_credential_ref e)),
             (''decision'', JStr (decision_debug (aud_decision e))),
             (''denial_reason'', opt_str (aud_denial_reason e)),
             (''destination_host'', JStr (aud_destination_host e)),
             (''duration_ms'', opt_nat (aud_duration_ms e)),
             (''operation_id'', JStr (aud_operation_id e)),
             (''outcome'', JStr (outcome_debug (aud_outcome e))),
             (''resource_id'', JStr (aud_operation_id e)),
             (''resource_type'', JStr ''operation''),
             (''subsystem'', JStr ''secret-boundary'')])
          (aud_correlation_id e))"

subsection \<open>Ids are version-4 UUIDs\<close>

lemma length_to_le_bytes: "length (to_le_bytes (w :: 'a::len word)) = LENGTH('a) div 8"
  by (simp add: to_le_bytes_def)

lemma unat_version: "unat (((x :: 8 word) AND 0x0f) OR 0x40) = (unat x AND 0x0F) OR 0x40"
  by (simp add: unsigned_and_eq unsigned_or_eq)

lemma unat_variant: "unat (((x :: 8 word) AND 0x3f) OR 0x80) = (unat x AND 0x3F) OR 0x80"
  by (simp add: unsigned_and_eq unsigned_or_eq)

lemma list_of_16:
  "length xs = 16 \<Longrightarrow> \<exists>a b c d e f g h i j k l m n p q. xs = [a, b, c, d, e, f, g, h, i, j, k, l, m, n, p, q]"
  by (auto simp: numeral_eq_Suc length_Suc_conv)

lemma format_uuid_eq:
  assumes "length b = 16"
  shows "format_uuid b =
    (let hex = hex_encode (map unat b) in
     Sanitizer.slice hex 0 8 @ ''-'' @ Sanitizer.slice hex 8 12 @ ''-'' @ Sanitizer.slice hex 12 16 @ ''-'' @
     Sanitizer.slice hex 16 20 @ ''-'' @ Sanitizer.slice hex 20 32)"
  using list_of_16 [OF assms]
  by (elim exE, hypsubst_thin)
    (simp add: format_uuid_def hex_encode_def hex_byte_def Sanitizer.slice_def Let_def take_Cons' drop_Cons' nth_Cons')

lemma generate_uuid_eq:
  "\<exists>digest. length digest = 16 \<and> generate_uuid_v4 now count pid marker = uuid_of_digest digest"
proof -
  have eq: "format_uuid ((b[6 := ((b ! 6) AND 0x0f) OR 0x40])[8 := ((b[6 := ((b ! 6) AND 0x0f) OR 0x40] ! 8) AND 0x3f) OR 0x80]) =
      uuid_of_digest (map unat b)" if "length b = 16" for b :: "8 word list"
    using that by (simp add: format_uuid_eq uuid_of_digest_def map_update unat_version unat_variant Let_def)
  have len: "length (to_le_bytes (hi :: 64 word) @ to_le_bytes (lo :: 64 word)) = 16" for hi lo
    by (simp add: length_to_le_bytes)
  show ?thesis
    unfolding generate_uuid_v4_def Let_def eq [OF len]
    by (rule exI, rule conjI [OF _ refl]) (simp add: length_to_le_bytes)
qed

lemma generate_uuid_shape:
  "length (generate_uuid_v4 now count pid marker) = 36 \<and>
   generate_uuid_v4 now count pid marker ! 14 = CHR ''4'' \<and>
   generate_uuid_v4 now count pid marker ! 19 \<in> set ''89ab''"
  using generate_uuid_eq [of now count pid marker] uuid_shape by (metis order_refl)

lemma clear_log: "logged (log_in_memory e (clear_events l)) = [e]" "last_event (log_in_memory e l) = Some e"
  by (simp_all add: log_in_memory_def clear_events_def last_event_def)

end
