(* ===== verification/Broker.thy ===== *)
theory Broker
  imports Providers Security_Event
begin

section \<open>The broker and its wire adapter\<close>

text \<open>
  Model of \<^verbatim>\<open>broker.rs\<close>, \<^verbatim>\<open>operation/mock.rs\<close> and \<^verbatim>\<open>adapter/json_wire.rs\<close> in
  \<^verbatim>\<open>crates/pbm-secret-boundary/src\<close>. The provider and the executor are the trait objects the
  broker holds, functions here; \<open>None\<close> is a call that does not return. The logger is the list
  of the events handed to it. Locale \<open>safe_executor\<close> is the promise of the executor trait.
\<close>

type_synonym provider = "string \<Rightarrow> (BoundaryError + SecretString) option"
type_synonym executor = "OperationRequest \<Rightarrow> SecretString \<Rightarrow> (BoundaryError + OperationResponse) option"

subsection \<open>Executing a request\<close>

record BrokerContext =
  bc_engine :: PolicyEngine
  bc_url_parse :: "string \<Rightarrow> string + Url"
  bc_show_time :: "int \<Rightarrow> string"
  bc_now :: int
  bc_event_id :: string

definition parsed_host :: "(string \<Rightarrow> string + Url) \<Rightarrow> string \<Rightarrow> string" where
  "parsed_host url_parse url =
     (case url_parse url of
        Inl _ \<Rightarrow> ''unknown-host''
      | Inr u \<Rightarrow> (case url_host_str u of Some h \<Rightarrow> h | None \<Rightarrow> ''unknown-host''))"

text \<open>The four event literals differ in these fields.\<close>

definition security_event ::
  "BrokerContext \<Rightarrow> 64 word \<Rightarrow> OperationRequest \<Rightarrow> PolicyDecision \<Rightarrow> string option \<Rightarrow> string option
   \<Rightarrow> ExecutionOutcome \<Rightarrow> nat \<Rightarrow> SecurityEvent" where
  "security_event ctx counter request decision reason ref outcome duration =
     \<lparr>aud_event_id = bc_event_id ctx, aud_timestamp = bc_now ctx,
      aud_correlation_id = ''corr-'' @ show_int (bc_now ctx) @ ''-'' @ show_nat (unat counter),
      aud_agent_id = req_agent_id request, aud_operation_id = req_operation_id request,
      aud_decision = decision, aud_denial_reason = reason, aud_credential_ref = ref,
      aud_destination_host = parsed_host (bc_url_parse ctx) (destination_url request),
      aud_outcome = outcome, aud_duration_ms = Some duration\<rparr>"

definition broker_execute ::
  "BrokerContext \<Rightarrow> provider \<Rightarrow> executor \<Rightarrow> 64 word \<Rightarrow> OperationRequest
   \<Rightarrow> (BoundaryError + OperationResponse) option \<times> SecurityEvent list \<times> 64 word" where
  "broker_execute ctx get exec counter request =
     (let event = security_event ctx counter request; counter' = counter + 1 in
      case evaluate (bc_url_parse ctx) (bc_show_time ctx) (bc_engine ctx) request (bc_now ctx) of
        Inl err \<Rightarrow> (Some (Inl err), [event Denied (Some (error_text err)) None NotExecuted 0], counter')
      | Inr rule \<Rightarrow>
          (let credential_ref = approved_credential_ref rule in
           case get credential_ref of
             None \<Rightarrow> (None, [], counter')
           | Some (Inl err) \<Rightarrow> (Some (Inl err), [event Allowed None (Some credential_ref) Failure 0], counter')
           | Some (Inr secret) \<Rightarrow>
               (case exec request secret of
                  None \<Rightarrow> (None, [], counter')
                | Some (Inr response) \<Rightarrow>
                    (Some (Inr response),
                     [event Allowed None (Some credential_ref) Success (duration_ms response)], counter')
                | Some (Inl err) \<Rightarrow>
                    (Some (Inl err), [event Allowed None (Some credential_ref) Failure 0], counter'))))"

subsection \<open>The mock backend\<close>

record MockOperationBackend =
  simulated_status :: nat
  simulated_body_template :: string
  should_fail :: bool

definition new_backend :: MockOperationBackend where
  "new_backend =
     \<lparr>simulated_status = 200,
      simulated_body_template =
        ''{'' @ dq ''status'' @ '':'' @ dq ''success'' @ '','' @ dq ''data'' @ '':{'' @ dq ''temperature_c''
        @ '':21.5,'' @ dq ''conditions'' @ '':'' @ dq ''Sunny'' @ ''}}'',
      should_fail = False\<rparr>"

definition with_body :: "string \<Rightarrow> MockOperationBackend \<Rightarrow> MockOperationBackend" where
  "with_body body b = b\<lparr>simulated_body_template := body\<rparr>"

definition with_failure :: "bool \<Rightarrow> MockOperationBackend \<Rightarrow> MockOperationBackend" where
  "with_failure fail b = b\<lparr>should_fail := fail\<rparr>"

definition mock_execute ::
  "MockOperationBackend \<Rightarrow> OperationRequest \<Rightarrow> SecretString \<Rightarrow> BoundaryError + OperationResponse" where
  "mock_execute b request secret =
     (if should_fail b
      then Inl (ExecutionFailed (''Simulated backend connection failure for operation ''
             @ squote (req_operation_id request)))
      else Inr \<lparr>status_code = simulated_status b,
                sanitized_body = redact_secret_from_text (simulated_body_template b) secret,
                sanitized_headers = hm_insert ''X-Request-Id'' ''mock-req-001''
                  (hm_insert ''Content-Type'' ''application/json'' []),
                duration_ms = 10\<rparr>)"

subsection \<open>The wire adapter\<close>

text \<open>
  Reading and writing the wire records is the work of \<^verbatim>\<open>serde_json\<close>: \<open>wire_parse\<close> and
  \<open>wire_show\<close> (whose failure the code turns into the empty text).
\<close>

definition MAX_IDENTIFIER_LEN :: nat where
  "MAX_IDENTIFIER_LEN = 128"

definition MAX_URL_LEN :: nat where
  "MAX_URL_LEN = 2048"

record WireRequest =
  w_agent_id :: string
  w_operation_id :: string
  w_destination_url :: string
  w_method :: string
  w_headers :: "(string, string) hashmap"
  w_body :: "string option"

record WireResponse =
  w_success :: bool
  w_status_code :: "nat option"
  w_response_body :: "string option"
  w_response_headers :: "(string, string) hashmap option"
  w_error_message :: "string option"
  w_duration_ms :: "nat option"

definition wire_failure :: "string \<Rightarrow> WireResponse" where
  "wire_failure msg =
     \<lparr>w_success = False, w_status_code = None, w_response_body = None, w_response_headers = None,
      w_error_message = Some msg, w_duration_ms = None\<rparr>"

definition handle_json_request ::
  "(string \<Rightarrow> string + WireRequest) \<Rightarrow> (WireResponse \<Rightarrow> string)
   \<Rightarrow> (OperationRequest \<Rightarrow> (BoundaryError + OperationResponse) option) \<Rightarrow> string \<Rightarrow> string option" where
  "handle_json_request wire_parse wire_show broker json_str =
     (if 1024 * 1024 < length json_str
      then Some (wire_show (wire_failure ''Request payload exceeds 1MB limit''))
      else
        (case wire_parse json_str of
           Inl e \<Rightarrow> Some (wire_show (wire_failure (''Invalid JSON wire request schema: '' @ e)))
         | Inr wire_req \<Rightarrow>
             if MAX_IDENTIFIER_LEN < length (w_agent_id wire_req)
                \<or> MAX_IDENTIFIER_LEN < length (w_operation_id wire_req)
                \<or> MAX_URL_LEN < length (w_destination_url wire_req)
             then Some (wire_show (wire_failure ''Identifier or URL length exceeds safety limits''))
             else
               (let internal_req =
                  \<lparr>req_agent_id = w_agent_id wire_req, req_operation_id = w_operation_id wire_req,
                   destination_url = w_destination_url wire_req, req_method = w_method wire_req,
                   req_headers = w_headers wire_req, req_body = w_body wire_req\<rparr>
                in case broker internal_req of
                     None \<Rightarrow> None
                   | Some (Inr resp) \<Rightarrow>
                       Some (wire_show
                         \<lparr>w_success = True, w_status_code = Some (status_code resp),
                          w_response_body = (if valid_utf8 (sanitized_body resp) then Some (sanitized_body resp) else None),
                          w_response_headers = Some (sanitized_headers resp), w_error_message = None,
                          w_duration_ms = Some (duration_ms resp)\<rparr>)
                   | Some (Inl err) \<Rightarrow> Some (wire_show (wire_failure (error_text err))))))"

subsection \<open>The promise of an executor\<close>

text \<open>No response body carries the secret the executor was given.\<close>

locale safe_executor =
  fixes exec :: executor
  assumes body_clean: "exec request secret = Some (Inr response) \<Longrightarrow> plain_secret secret \<Longrightarrow>
      \<not> contains_str (sanitized_body response) (expose_secret secret)"
begin

lemma broker_body_clean:
  assumes "broker_execute ctx get exec counter request = (Some (Inr response), events, counter')"
  shows "\<exists>ref secret. get ref = Some (Inr secret) \<and>
      exec request secret = Some (Inr response) \<and>
      (plain_secret secret \<longrightarrow> \<not> contains_str (sanitized_body response) (expose_secret secret))"
proof -
  have "\<exists>ref secret. get ref = Some (Inr secret) \<and>
      exec request secret = Some (Inr response)"
    using assms by (auto simp: broker_execute_def Let_def split: sum.splits option.splits)
  with body_clean show ?thesis by blast
qed

end

interpretation mock_backend: safe_executor "\<lambda>request secret. Some (mock_execute b request secret)" for b
  by unfold_locales (auto simp: mock_execute_def redacted_has_no_secret split: if_splits)

text \<open>An executor whose bodies are text besides.\<close>

locale text_executor = safe_executor +
  assumes body_text: "exec request secret = Some (Inr response) \<Longrightarrow> valid_utf8 (sanitized_body response)"
begin

lemma broker_text_clean:
  assumes "broker_execute ctx get exec counter request = (Some (Inr response), events, counter')"
  shows "\<exists>ref secret. get ref = Some (Inr secret) \<and>
      from_utf8_lossy (sanitized_body response) = sanitized_body response \<and>
      (plain_secret secret \<longrightarrow> \<not> contains_str (sanitized_body response) (expose_secret secret))"
  using broker_body_clean [OF assms] body_text by fastforce

end

subsection \<open>What an audit trail can depend on\<close>

text \<open>How an execution ended, without its content.\<close>

definition ending :: "(BoundaryError + OperationResponse) option \<Rightarrow> (unit + nat) option" where
  "ending r = map_option (map_sum (\<lambda>_. ()) duration_ms) r"

lemma broker_events:
  "fst (snd (broker_execute ctx get exec counter request)) =
     (case evaluate (bc_url_parse ctx) (bc_show_time ctx) (bc_engine ctx) request (bc_now ctx) of
        Inl err \<Rightarrow> [security_event ctx counter request Denied (Some (error_text err)) None NotExecuted 0]
      | Inr rule \<Rightarrow>
          (case get (approved_credential_ref rule) of
             None \<Rightarrow> []
           | Some (Inl _) \<Rightarrow>
               [security_event ctx counter request Allowed None (Some (approved_credential_ref rule)) Failure 0]
           | Some (Inr secret) \<Rightarrow>
               (case ending (exec request secret) of
                  None \<Rightarrow> []
                | Some (Inr d) \<Rightarrow>
                    [security_event ctx counter request Allowed None (Some (approved_credential_ref rule)) Success d]
                | Some (Inl _) \<Rightarrow>
                    [security_event ctx counter request Allowed None (Some (approved_credential_ref rule)) Failure 0])))"
  by (simp add: broker_execute_def Let_def ending_def split: sum.split option.split)

context secret_provider
begin

lemma audit_depends_on_shape:
  assumes shape: "\<And>ref. shape s ref = shape s' ref"
    and endings: "\<And>v v'. ending (exec request v) = ending (exec request v')"
  shows "fst (snd (broker_execute ctx (get s) exec counter request)) =
    fst (snd (broker_execute ctx (get s') exec counter request))"
proof (cases "evaluate (bc_url_parse ctx) (bc_show_time ctx) (bc_engine ctx) request (bc_now ctx)")
  case (Inl err)
  then show ?thesis by (simp add: broker_events)
next
  case (Inr rule)
  let ?r = "approved_credential_ref rule"
  show ?thesis
  proof (cases rule: shape_cases [OF shape, of ?r])
    case 1
    then show ?thesis by (simp add: broker_events Inr)
  next
    case (2 v v')
    then show ?thesis using endings [of v v'] by (simp add: broker_events Inr)
  qed
qed

end

subsection \<open>Properties\<close>

text \<open>
  C12: the broker consults the provider only for a request the policy authorizes and only at the
  credential reference of the authorizing rule, and calls the executor only with that request
  and the secret so obtained: nothing changes when both refuse to answer anything else. A denied
  request never reaches either.
\<close>

theorem credential_use_confined:
  "broker_execute ctx get exec counter request =
     broker_execute ctx
       (\<lambda>ref. case evaluate (bc_url_parse ctx) (bc_show_time ctx) (bc_engine ctx) request (bc_now ctx) of
                Inl _ \<Rightarrow> None
              | Inr rule \<Rightarrow> if ref = approved_credential_ref rule then get ref else None)
       (\<lambda>req secret. case evaluate (bc_url_parse ctx) (bc_show_time ctx) (bc_engine ctx) request (bc_now ctx) of
                Inl _ \<Rightarrow> None
              | Inr rule \<Rightarrow>
                  if req = request \<and> get (approved_credential_ref rule) = Some (Inr secret)
                  then exec req secret else None)
       counter request"
  by (auto simp: broker_execute_def Let_def split: sum.split option.split)

text \<open>
  C15: every execution that returns is audited by exactly one event, and the event tells the
  truth: denied and not executed with the policy's reason exactly when the policy refused, and
  otherwise allowed, under the approved reference, with success exactly when a response is
  returned. The correlation counter moves by one.
\<close>

theorem one_truthful_event:
  "case broker_execute ctx get exec counter request of (result, events, counter') \<Rightarrow>
     counter' = counter + 1 \<and>
     (case result of
        None \<Rightarrow> events = []
      | Some r \<Rightarrow>
          (case events of
             [e] \<Rightarrow>
               aud_agent_id e = req_agent_id request \<and> aud_operation_id e = req_operation_id request \<and>
               (case evaluate (bc_url_parse ctx) (bc_show_time ctx) (bc_engine ctx) request (bc_now ctx) of
                  Inl err \<Rightarrow> r = Inl err \<and> aud_decision e = Denied \<and> aud_outcome e = NotExecuted \<and>
                    aud_denial_reason e = Some (error_text err) \<and> aud_credential_ref e = None
                | Inr rule \<Rightarrow> aud_decision e = Allowed \<and> aud_denial_reason e = None \<and>
                    aud_credential_ref e = Some (approved_credential_ref rule) \<and>
                    (case r of
                       Inr response \<Rightarrow> aud_outcome e = Success \<and> aud_duration_ms e = Some (duration_ms response)
                     | Inl _ \<Rightarrow> aud_outcome e = Failure))
           | _ \<Rightarrow> False))"
  by (auto simp: broker_execute_def security_event_def Let_def split: sum.split option.split)


definition demo_broker_ctx :: BrokerContext where
  "demo_broker_ctx =
     \<lparr>bc_engine = \<lparr>pe_rules = [demo_rule\<lparr>approved_credential_ref := ''PBM_SECRET_K''\<rparr>]\<rparr>,
      bc_url_parse = (\<lambda>u. Inr (demo_url ''/v1/forecast/today'')), bc_show_time = (\<lambda>t. []), bc_now = 0,
      bc_event_id = ''id''\<rparr>"

definition demo_host :: "string \<Rightarrow> host_env" where
  "demo_host v = (\<lambda>n. if n = ''PBM_SECRET_K'' then VarOk v else NotPresent)"

lemma demo_env_secrets:
  "env_get_secret default_env_provider (demo_host ''k1'') ''PBM_SECRET_K'' = Inr (new_secret ''k1'')"
  "env_get_secret default_env_provider (demo_host ''k2'') ''PBM_SECRET_K'' = Inr (new_secret ''k2'')"
  by (simp_all add: env_get_secret_def validate_var_name_def default_env_provider_def demo_host_def
      env_name_byte_def value_end_char_def Let_def str_defs)


text \<open>
  the wire adapter hands the broker only requests whose identifiers have at most 128 bytes
  and whose destination has at most 2,048, read from a text of at most 1,048,576 bytes;
  everything else is answered with a failure, as are the broker's errors.
\<close>

theorem wire_limits:
  "handle_json_request wire_parse wire_show broker json_str =
     handle_json_request wire_parse wire_show
       (\<lambda>req. if length json_str \<le> 1024 * 1024 \<and> length (req_agent_id req) \<le> MAX_IDENTIFIER_LEN \<and>
                 length (req_operation_id req) \<le> MAX_IDENTIFIER_LEN \<and> length (destination_url req) \<le> MAX_URL_LEN
              then broker req else None) json_str"
  by (auto simp: handle_json_request_def Let_def split: sum.split option.split)

end
