(* ===== verification/Http_Op.thy ===== *)
theory Http_Op
  imports Ip_Address Broker
begin

section \<open>The HTTP operation adapter\<close>

text \<open>
  Model of the rest of \<^verbatim>\<open>crates/pbm-secret-boundary/src/operation/http.rs\<close>: resolving and pinning
  a destination, the transports, the response parser and the executor. Resolving a name with the
  operating system, connecting and the socket are outside: a lookup function, and a \<open>Tcp\<close> that
  says how each call on the connected stream answers.
\<close>

subsection \<open>Requests and responses of the transport\<close>

record HttpRequestDetails =
  hd_url :: Url
  hd_host_header :: string
  hd_method :: string
  hd_headers :: "(string, string) hashmap"
  hd_body :: "bytes option"
  hd_pinned_addrs :: "SocketAddr list"
  hd_timeout :: nat
  hd_max_response_bytes :: nat

record RawHttpResponse =
  raw_status_code :: nat
  raw_headers :: "(string, string) hashmap"
  raw_body :: bytes

record HttpAdapterConfig =
  hc_max_response_bytes :: nat
  hc_timeout_seconds :: nat
  hc_allow_private_ips :: bool

definition default_http_config :: HttpAdapterConfig where
  "default_http_config =
     \<lparr>hc_max_response_bytes = 5 * 1024 * 1024, hc_timeout_seconds = 10, hc_allow_private_ips = False\<rparr>"

subsection \<open>Resolvers\<close>

type_synonym resolver = "string \<Rightarrow> nat \<Rightarrow> BoundaryError + SocketAddr list"

definition system_resolve :: "(string \<Rightarrow> string + SocketAddr list) \<Rightarrow> resolver" where
  "system_resolve lookup host port =
     (case lookup (host @ '':'' @ show_nat port) of
        Inl e \<Rightarrow> Inl (DestinationViolation (''DNS resolution failed for '' @ host @ '': '' @ e))
      | Inr addrs \<Rightarrow>
          if addrs = []
          then Inl (DestinationViolation (''DNS resolution returned no addresses for '' @ host))
          else Inr addrs)"

type_synonym MockDnsResolver = "(string \<times> nat, SocketAddr list) hashmap"

definition dns_insert :: "string \<Rightarrow> nat \<Rightarrow> SocketAddr list \<Rightarrow> MockDnsResolver \<Rightarrow> MockDnsResolver" where
  "dns_insert host port addrs m = hm_insert (host, port) addrs m"

definition mock_resolve :: "MockDnsResolver \<Rightarrow> resolver" where
  "mock_resolve m host port =
     (case hm_get m (host, port) of
        Some addrs \<Rightarrow>
          if addrs = []
          then Inl (DestinationViolation (''Mock DNS returned no addresses for '' @ host @ '':'' @ show_nat port))
          else Inr addrs
      | None \<Rightarrow>
          Inl (DestinationViolation (''Mock DNS resolution found no record for '' @ host @ '':'' @ show_nat port)))"

subsection \<open>Resolving and pinning\<close>

definition first_unsafe :: "bool \<Rightarrow> SocketAddr list \<Rightarrow> BoundaryError option" where
  "first_unsafe allow addrs =
     (case List.map_filter (\<lambda>(ip, _). case validate_ip_safety allow ip of Inl e \<Rightarrow> Some e | Inr _ \<Rightarrow> None) addrs of
        e # _ \<Rightarrow> Some e
      | [] \<Rightarrow> None)"

definition resolve_and_pin_destination ::
  "HttpAdapterConfig \<Rightarrow> resolver \<Rightarrow> Url \<Rightarrow> BoundaryError + (string \<times> nat \<times> SocketAddr list)" where
  "resolve_and_pin_destination cfg resolve url =
     (let scheme = url_scheme url in
      if scheme \<noteq> ''http'' \<and> scheme \<noteq> ''https''
      then Inl (DestinationViolation (''Unsupported URL scheme '' @ squote scheme @ ''. Only ''
             @ squote ''http'' @ '' and '' @ squote ''https'' @ '' are permitted''))
      else
        (case url_host_str url of
           None \<Rightarrow> Inl (DestinationViolation ''Destination URL is missing a valid host'')
         | Some host \<Rightarrow>
             (let port = (case url_port url of Some p \<Rightarrow> p | None \<Rightarrow> default_port scheme);
                  host_lower = to_ascii_lowercase host in
              if host_lower = ''localhost'' \<or> ends_with host_lower ''.localhost'' \<or> host_lower = ''127.0.0.1''
                 \<or> host_lower = ''::1'' \<or> host_lower = ''0.0.0.0''
              then Inl (SsrfBlocked (''Loopback destination '' @ squote host @ '' is forbidden by SSRF policy''))
              else if host_lower = ''169.254.169.254'' \<or> host_lower = ''metadata.google.internal''
                 \<or> host_lower = ''instance-data'' \<or> host_lower = ''metadata.tencentyun.com''
              then Inl (SsrfBlocked (''Cloud metadata endpoint '' @ squote host @ '' is strictly prohibited''))
              else
                (case parse_ip (trim_end_matches (\<lambda>c. c = '']'') (trim_start_matches (\<lambda>c. c = ''['') host)) of
                   Some ip \<Rightarrow>
                     (case validate_ip_safety (hc_allow_private_ips cfg) ip of
                        Inl e \<Rightarrow> Inl e
                      | Inr _ \<Rightarrow> Inr (host, port, [(ip, port)]))
                 | None \<Rightarrow>
                     (case resolve host port of
                        Inl e \<Rightarrow> Inl e
                      | Inr resolved \<Rightarrow>
                          if resolved = []
                          then Inl (DestinationViolation (''DNS resolution returned no addresses for '' @ squote host))
                          else (case first_unsafe (hc_allow_private_ips cfg) resolved of
                                  Some e \<Rightarrow> Inl e
                                | None \<Rightarrow> Inr (host, port, resolved)))))))"

subsection \<open>Parsing a response\<close>

text \<open>\<^verbatim>\<open>str::lines\<close>, \<^verbatim>\<open>str::split_whitespace\<close>, \<^verbatim>\<open>u16::from_str\<close>.\<close>

definition strip_cr :: "string \<Rightarrow> string" where
  [str_defs]: "strip_cr l = (if ends_with l [CHR 0x0D] then take (length l - 1) l else l)"

definition str_lines :: "string \<Rightarrow> string list" where
  [str_defs]: "str_lines s =
     (let pieces = split_ch CHR 0x0A s in
      map strip_cr (butlast pieces) @ (if last pieces = [] then [] else [last pieces]))"

fun ws_words :: "string \<Rightarrow> string list \<Rightarrow> string list" where
  "ws_words word [] = (if word = [] then [] else [word])"
| "ws_words word (c # cs) =
     (if is_whitespace c then (if word = [] then [] else [word]) @ ws_words [] cs
      else ws_words (word @ c) cs)"

definition split_whitespace :: "string \<Rightarrow> string list" where
  [str_defs]: "split_whitespace s = ws_words [] (chars s)"

definition parse_u16 :: "string \<Rightarrow> nat option" where
  [str_defs]: "parse_u16 s =
     (let ds = (if starts_with s ''+'' then drop 1 s else s);
          v = foldl (\<lambda>acc c. 10 * acc + (ord c - 48)) 0 ds in
      if ds = [] \<or> \<not> list_all is_ascii_digit ds \<or> 65535 < v then None else Some v)"

fun parse_header_lines :: "string list \<Rightarrow> (string, string) hashmap \<Rightarrow> (string, string) hashmap" where
  "parse_header_lines [] hs = hs"
| "parse_header_lines (l # ls) hs =
     (case split_once CHR 0x3A l of
        Some (k, v) \<Rightarrow> parse_header_lines ls (hm_insert (trim k) (trim v) hs)
      | None \<Rightarrow> parse_header_lines ls hs)"

definition CRLF2 :: string where
  [str_defs]: "CRLF2 = [CHR 0x0D, CHR 0x0A, CHR 0x0D, CHR 0x0A]"

definition parse_raw_http_response :: "bytes \<Rightarrow> BoundaryError + RawHttpResponse" where
  "parse_raw_http_response raw =
     (case find_str raw CRLF2 of
        None \<Rightarrow> Inl (TransportError ''Incomplete HTTP response headers'')
      | Some header_end \<Rightarrow>
          (let header_bytes = take header_end raw; body_bytes = drop (header_end + 4) raw in
           if \<not> valid_utf8 header_bytes
           then Inl (TransportError ''Invalid UTF-8 in HTTP response headers'')
           else
             (case str_lines header_bytes of
                [] \<Rightarrow> Inl (TransportError ''Empty HTTP response'')
              | status_line # lines \<Rightarrow>
                  (case split_whitespace status_line of
                     [] \<Rightarrow> Inl (TransportError ''Missing HTTP version'')
                   | [_] \<Rightarrow> Inl (TransportError ''Missing HTTP status code'')
                   | _ # status_str # _ \<Rightarrow>
                       (case parse_u16 status_str of
                          None \<Rightarrow> Inl (TransportError ''Invalid HTTP status code'')
                        | Some code \<Rightarrow>
                            Inr \<lparr>raw_status_code = code, raw_headers = parse_header_lines lines [],
                                 raw_body = body_bytes\<rparr>)))))"

subsection \<open>Transports\<close>

type_synonym transport = "HttpRequestDetails \<Rightarrow> BoundaryError + RawHttpResponse"

text \<open>The mock: the requests it recorded and the responses set for a URL or a path.\<close>

record MockHttpTransport =
  mt_recorded :: "HttpRequestDetails list"
  mt_responses :: "(string, string + RawHttpResponse) hashmap"

definition mt_set_response :: "string \<Rightarrow> string + RawHttpResponse \<Rightarrow> MockHttpTransport \<Rightarrow> MockHttpTransport" where
  "mt_set_response url r t = t\<lparr>mt_responses := hm_insert url r (mt_responses t)\<rparr>"

definition mock_transport ::
  "(Url \<Rightarrow> string) \<Rightarrow> MockHttpTransport \<Rightarrow> HttpRequestDetails
   \<Rightarrow> (BoundaryError + RawHttpResponse) \<times> MockHttpTransport" where
  "mock_transport url_show t req =
     (if hd_pinned_addrs req = []
      then (Inl (DestinationViolation ''Transport received unpinned request: no socket addresses provided''), t)
      else
        (let t' = t\<lparr>mt_recorded := mt_recorded t @ [req]\<rparr>; path = url_path (hd_url req) in
         case (case hm_get (mt_responses t) (url_show (hd_url req)) of
                 Some r \<Rightarrow> Some r | None \<Rightarrow> hm_get (mt_responses t) path) of
           Some (Inr r) \<Rightarrow> (Inr r, t')
         | Some (Inl msg) \<Rightarrow> (Inl (TransportError msg), t')
         | None \<Rightarrow>
             (Inr \<lparr>raw_status_code = 200,
                   raw_headers = hm_insert ''Server'' ''Protected-Backend''
                     (hm_insert ''Content-Type'' ''application/json'' []),
                   raw_body = ''{'' @ dq ''status'' @ '':'' @ dq ''ok'' @ '','' @ dq ''path'' @ '':'' @ dq path
                     @ '','' @ dq ''message'' @ '':'' @ dq ''executed_safely'' @ ''}''\<rparr>, t')))"

text \<open>How a connected stream answers: the error of each call, and what successive reads return.\<close>

record Tcp =
  tcp_set_read_timeout :: "string option"
  tcp_set_write_timeout :: "string option"
  tcp_write :: "bytes \<Rightarrow> string option"
  tcp_flush :: "string option"
  tcp_reads :: "(string + bytes) list"

fun connect_any :: "(SocketAddr \<Rightarrow> string + Tcp) \<Rightarrow> string option \<Rightarrow> SocketAddr list \<Rightarrow> string option + Tcp" where
  "connect_any connect last_err [] = Inl last_err"
| "connect_any connect last_err (a # as) =
     (case connect a of Inr s \<Rightarrow> Inr s | Inl e \<Rightarrow> connect_any connect (Some e) as)"

definition has_cr_lf :: "string \<Rightarrow> bool" where
  "has_cr_lf s \<longleftrightarrow> contains_str s [CHR 0x0D] \<or> contains_str s [CHR 0x0A]"

definition CRLF :: string where
  [str_defs]: "CRLF = [CHR 0x0D, CHR 0x0A]"

fun wire_headers :: "(string \<times> string) list \<Rightarrow> string \<Rightarrow> BoundaryError + string" where
  "wire_headers [] wire = Inr wire"
| "wire_headers ((k, v) # rest) wire =
     (if k = [] \<or> has_cr_lf k \<or> has_cr_lf v \<or> contains_str v [CHR 0x00]
      then Inl (InvalidRequest (''Header '' @ squote k @ '' cannot be represented in an HTTP request''))
      else wire_headers rest (wire @ k @ '': '' @ v @ CRLF))"

definition request_line :: "HttpRequestDetails \<Rightarrow> string" where
  "request_line req =
     (let path_and_query = (case url_query (hd_url req) of
                              Some q \<Rightarrow> url_path (hd_url req) @ ''?'' @ q
                            | None \<Rightarrow> url_path (hd_url req))
      in hd_method req @ '' '' @ path_and_query @ '' HTTP/1.1'' @ CRLF @ ''Host: '' @ hd_host_header req @ CRLF
         @ ''Connection: close'' @ CRLF)"

fun read_response :: "nat \<Rightarrow> bytes \<Rightarrow> (string + bytes) list \<Rightarrow> BoundaryError + bytes" where
  "read_response limit buf [] = Inr buf"
| "read_response limit buf (Inl e # _) = Inl (TransportError (''Socket read error: '' @ e))"
| "read_response limit buf (Inr chunk # rest) =
     (if chunk = [] then Inr buf
      else if limit < length (buf @ chunk)
      then Inl (TransportError (''Response exceeded maximum configured size of '' @ show_nat limit @ '' bytes''))
      else read_response limit (buf @ chunk) rest)"

text \<open>The result and what was written to the socket.\<close>

definition write_request :: "Tcp \<Rightarrow> string \<Rightarrow> bytes option \<Rightarrow> BoundaryError option \<times> bytes list" where
  "write_request tcp wire body =
     (case body of
        Some b \<Rightarrow>
          (let head = wire @ ''Content-Length: '' @ show_nat (length b) @ CRLF2 in
           case tcp_write tcp head of
             Some e \<Rightarrow> (Some (TransportError (''Socket write error: '' @ e)), [])
           | None \<Rightarrow>
               (case tcp_write tcp b of
                  Some e \<Rightarrow> (Some (TransportError (''Socket body write error: '' @ e)), [head])
                | None \<Rightarrow> (None, [head, b])))
      | None \<Rightarrow>
          (case tcp_write tcp (wire @ CRLF) of
             Some e \<Rightarrow> (Some (TransportError (''Socket write error: '' @ e)), [])
           | None \<Rightarrow> (None, [wire @ CRLF])))"

definition debug_option :: "string option \<Rightarrow> string" where
  "debug_option e = (case e of None \<Rightarrow> ''None'' | Some t \<Rightarrow> ''Some('' @ t @ '')'')"

definition std_tcp_execute ::
  "(SocketAddr \<Rightarrow> string + Tcp) \<Rightarrow> HttpRequestDetails \<Rightarrow> (BoundaryError + RawHttpResponse) \<times> bytes list" where
  "std_tcp_execute connect req =
     (if hd_pinned_addrs req = []
      then (Inl (DestinationViolation ''No validated socket addresses available for pinned connection''), [])
      else if url_scheme (hd_url req) = ''https''
      then (Inl (ConfigurationError (''Direct TLS network transport is unavailable offline without external ''
              @ ''TLS provider; failing closed for safety'')), [])
      else
        (case connect_any connect None (hd_pinned_addrs req) of
           Inl e \<Rightarrow> (Inl (TransportError (''Failed to connect to pinned address(es): '' @ debug_option e)), [])
         | Inr tcp \<Rightarrow>
             (case tcp_set_read_timeout tcp of
                Some e \<Rightarrow> (Inl (TransportError (''Failed to set read timeout: '' @ e)), [])
              | None \<Rightarrow>
                  (case tcp_set_write_timeout tcp of
                     Some e \<Rightarrow> (Inl (TransportError (''Failed to set write timeout: '' @ e)), [])
                   | None \<Rightarrow>
                       (case wire_headers (hd_headers req) (request_line req) of
                          Inl e \<Rightarrow> (Inl e, [])
                        | Inr wire \<Rightarrow>
                            (case write_request tcp wire (hd_body req) of
                               (Some e, written) \<Rightarrow> (Inl e, written)
                             | (None, written) \<Rightarrow>
                                 (case tcp_flush tcp of
                                    Some e \<Rightarrow> (Inl (TransportError (''Socket flush error: '' @ e)), written)
                                  | None \<Rightarrow>
                                      (case read_response (hd_max_response_bytes req) [] (tcp_reads tcp) of
                                         Inl e \<Rightarrow> (Inl e, written)
                                       | Inr buffer \<Rightarrow> (parse_raw_http_response buffer, written)))))))))"

subsection \<open>The executor\<close>

definition SENSITIVE_HEADERS :: "string list" where
  [str_defs]: "SENSITIVE_HEADERS =
     [''set-cookie'', ''authorization'', ''www-authenticate'', ''proxy-authenticate'',
      ''x-amz-security-token'', ''proxy-authorization'']"

definition filter_response_headers :: "(string, string) hashmap \<Rightarrow> (string, string) hashmap" where
  "filter_response_headers hs = filter (\<lambda>(k, _). to_ascii_lowercase k \<notin> set SENSITIVE_HEADERS) hs"

fun request_headers ::
  "(string \<times> string) list \<Rightarrow> (string, string) hashmap \<Rightarrow> BoundaryError + (string, string) hashmap" where
  "request_headers [] acc = Inr acc"
| "request_headers ((k, v) # rest) acc =
     (if forbidden_header k
      then Inl (InvalidRequest (''Disallowed client-supplied header '' @ squote k))
      else if has_cr_lf k \<or> has_cr_lf v
      then Inl (InvalidRequest (''CRLF injection attempt in header '' @ squote k))
      else request_headers rest (hm_insert k v acc))"

definition http_execute ::
  "HttpAdapterConfig \<Rightarrow> (string \<Rightarrow> string + Url) \<Rightarrow> resolver \<Rightarrow> transport \<Rightarrow> nat
   \<Rightarrow> OperationRequest \<Rightarrow> SecretString \<Rightarrow> BoundaryError + OperationResponse" where
  "http_execute cfg url_parse resolve transport elapsed_ms request secret =
     (case url_parse (destination_url request) of
        Inl e \<Rightarrow> Inl (DestinationViolation (''Invalid URL syntax: '' @ e))
      | Inr parsed_url \<Rightarrow>
          (case resolve_and_pin_destination cfg resolve parsed_url of
             Inl e \<Rightarrow> Inl e
           | Inr (host_str, _, pinned_addrs) \<Rightarrow>
               (case request_headers (req_headers request) [] of
                  Inl e \<Rightarrow> Inl e
                | Inr headers \<Rightarrow>
                    (let authorization = ''Bearer '' @ expose_secret secret in
                     if list_ex (\<lambda>byte. byte = CHR 0x0D \<or> byte = CHR 0x0A \<or> byte = CHR 0x00) authorization
                     then Inl (InvalidRequest
                            ''Resolved secret contains characters that are not valid in an HTTP header value'')
                     else
                       (let details =
                          \<lparr>hd_url = parsed_url, hd_host_header = host_str, hd_method = req_method request,
                           hd_headers = hm_insert ''Authorization'' authorization headers,
                           hd_body = req_body request, hd_pinned_addrs = pinned_addrs,
                           hd_timeout = hc_timeout_seconds cfg,
                           hd_max_response_bytes = hc_max_response_bytes cfg\<rparr>
                        in case transport details of
                             Inl e \<Rightarrow> Inl (TransportError (redact_secret_from_text (error_text e) secret))
                           | Inr raw \<Rightarrow>
                               if 300 \<le> raw_status_code raw \<and> raw_status_code raw \<le> 399
                               then Inl (DestinationViolation (''HTTP redirect status '' @ show_nat (raw_status_code raw)
                                      @ '' received: automated redirects are prohibited to prevent credential exfiltration''))
                               else if hc_max_response_bytes cfg < length (raw_body raw)
                               then Inl (TransportError (''Response size '' @ show_nat (length (raw_body raw))
                                      @ '' bytes exceeds configured maximum of ''
                                      @ show_nat (hc_max_response_bytes cfg) @ '' bytes''))
                               else Inr \<lparr>status_code = raw_status_code raw,
                                         sanitized_body = redact_secret_from_text (from_utf8_lossy (raw_body raw)) secret,
                                         sanitized_headers = filter_response_headers (raw_headers raw),
                                         duration_ms = max elapsed_ms 1\<rparr>)))))"

interpretation http: text_executor
  "\<lambda>request secret. Some (http_execute cfg url_parse resolve transport elapsed_ms request secret)"
  for cfg url_parse resolve transport elapsed_ms
  by unfold_locales
    (auto simp: http_execute_def Let_def redacted_has_no_secret redact_valid valid_utf8_lossy
       split: sum.splits prod.splits if_splits)

subsection \<open>What reaches the transport\<close>

lemma first_unsafe_None:
  "first_unsafe allow addrs = None \<longleftrightarrow> list_all (\<lambda>(ip, _). \<not> refused allow ip) addrs"
proof (induction addrs)
  case (Cons a addrs)
  obtain ip port where a: "a = (ip, port)" by (cases a)
  show ?case
  proof (cases "validate_ip_safety allow ip")
    case (Inl e)
    then have "refused allow ip" using validate_ip_iff [of allow ip] by simp
    with Inl show ?thesis by (simp add: a first_unsafe_def map_filter_simps)
  next
    case (Inr u)
    then have "\<not> refused allow ip" using validate_ip_iff [of allow ip] by simp
    with Inr Cons show ?thesis by (simp add: a first_unsafe_def map_filter_simps)
  qed
qed (simp add: first_unsafe_def map_filter_simps)

definition pins_ok :: "HttpAdapterConfig \<Rightarrow> SocketAddr list \<Rightarrow> bool" where
  "pins_ok cfg addrs \<longleftrightarrow> addrs \<noteq> [] \<and> list_all (\<lambda>(ip, _). \<not> refused (hc_allow_private_ips cfg) ip) addrs"

lemma resolve_and_pin_ok:
  "resolve_and_pin_destination cfg resolve url = Inr (host, port, addrs) \<Longrightarrow>
     pins_ok cfg addrs \<and> (url_scheme url = ''http'' \<or> url_scheme url = ''https'') \<and> url_host_str url = Some host"
  by (auto simp: resolve_and_pin_destination_def pins_ok_def first_unsafe_None validate_ip_iff Let_def
      split: if_splits option.splits sum.splits)

definition header_ok :: "string \<times> string \<Rightarrow> bool" where
  "header_ok h \<longleftrightarrow> (case h of (k, v) \<Rightarrow> \<not> has_cr_lf k \<and> \<not> has_cr_lf v)"

lemma request_headers_ok:
  "request_headers hs acc = Inr out \<Longrightarrow> list_all (\<lambda>h. header_ok h \<and> \<not> forbidden_header (fst h)) acc \<Longrightarrow>
     list_all (\<lambda>h. header_ok h \<and> \<not> forbidden_header (fst h)) out"
proof (induction hs acc rule: request_headers.induct)
  case (2 k v rest acc)
  from 2(2) have g: "\<not> forbidden_header k" "\<not> (has_cr_lf k \<or> has_cr_lf v)"
    "request_headers rest (hm_insert k v acc) = Inr out" by (simp_all split: if_splits)
  have "list_all (\<lambda>h. header_ok h \<and> \<not> forbidden_header (fst h)) (hm_insert k v acc)"
    by (rule list_all_hm_insert [OF 2(3)]) (use g in \<open>simp add: header_ok_def\<close>)
  with 2(1) g show ?case by blast
qed simp

text \<open>
  Details fit to be sent: addresses to connect to, none of them refused; one \<^verbatim>\<open>Authorization\<close>
  header with the secret and no other header the caller may not set; no line break anywhere.
\<close>

definition details_ok :: "HttpAdapterConfig \<Rightarrow> OperationRequest \<Rightarrow> SecretString \<Rightarrow> HttpRequestDetails \<Rightarrow> bool" where
  "details_ok cfg request secret d \<longleftrightarrow>
     pins_ok cfg (hd_pinned_addrs d) \<and> (url_scheme (hd_url d) = ''http'' \<or> url_scheme (hd_url d) = ''https'') \<and>
     url_host_str (hd_url d) = Some (hd_host_header d) \<and>
     hm_get (hd_headers d) ''Authorization'' = Some (''Bearer '' @ expose_secret secret) \<and>
     list_all header_ok (hd_headers d) \<and>
     list_all (\<lambda>h. fst h = ''Authorization'' \<or> \<not> forbidden_header (fst h)) (hd_headers d) \<and>
     hd_method d = req_method request \<and> hd_body d = req_body request \<and>
     hd_max_response_bytes d = hc_max_response_bytes cfg"

lemma authorization_header_ok:
  "\<not> list_ex (\<lambda>byte. byte = CHR 0x0D \<or> byte = CHR 0x0A \<or> byte = CHR 0x00) a \<Longrightarrow>
     header_ok (''Authorization'', a)"
  by (auto simp: header_ok_def has_cr_lf_def list_ex_iff)

lemma connect_any_pinned:
  "set addrs \<subseteq> A \<Longrightarrow>
     connect_any connect e addrs = connect_any (\<lambda>a. if a \<in> A then connect a else Inl []) e addrs"
  by (induction connect e addrs rule: connect_any.induct) (auto split: sum.split)

lemma safe_details_only:
  "http_execute cfg url_parse resolve transport elapsed_ms request secret =
     http_execute cfg url_parse resolve
       (\<lambda>d. if details_ok cfg request secret d then transport d else Inl (TransportError []))
       elapsed_ms request secret"
proof (cases "url_parse (destination_url request)")
  case (Inl e)
  then show ?thesis by (simp add: http_execute_def)
next
  case (Inr url)
  show ?thesis
  proof (cases "resolve_and_pin_destination cfg resolve url")
    case (Inl e)
    then show ?thesis by (simp add: http_execute_def Inr)
  next
    case pin: (Inr r)
    obtain host port addrs where r: "r = (host, port, addrs)" by (cases r)
    show ?thesis
    proof (cases "request_headers (req_headers request) []")
      case (Inl e)
      then show ?thesis by (simp add: http_execute_def Inr pin r)
    next
      case hs: (Inr headers)
      have hok: "list_all (\<lambda>h. header_ok h \<and> \<not> forbidden_header (fst h)) headers"
        by (rule request_headers_ok [OF hs]) simp
      let ?a = "''Bearer '' @ expose_secret secret"
      let ?d = "\<lparr>hd_url = url, hd_host_header = host, hd_method = req_method request,
        hd_headers = hm_insert ''Authorization'' ?a headers, hd_body = req_body request,
        hd_pinned_addrs = addrs, hd_timeout = hc_timeout_seconds cfg,
        hd_max_response_bytes = hc_max_response_bytes cfg\<rparr>"
      show ?thesis
      proof (cases "list_ex (\<lambda>byte. byte = CHR 0x0D \<or> byte = CHR 0x0A \<or> byte = CHR 0x00) ?a")
        case True
        then show ?thesis unfolding http_execute_def Inr pin r hs sum.case prod.case Let_def by simp
      next
        case False
        have "list_all (\<lambda>h. header_ok h \<and> (fst h = ''Authorization'' \<or> \<not> forbidden_header (fst h)))
            (hm_insert ''Authorization'' ?a headers)"
          by (rule list_all_hm_insert)
            (use hok authorization_header_ok [OF False] in \<open>auto simp: list_all_iff\<close>)
        then have "details_ok cfg request secret ?d"
          using resolve_and_pin_ok [OF pin [unfolded r]] by (simp add: details_ok_def list_all_iff)
        then show ?thesis
          using False unfolding http_execute_def Inr pin r hs sum.case prod.case Let_def by simp
      qed
    qed
  qed
qed

subsection \<open>Properties\<close>

text \<open>
  C11: the transport is given only details that are fit to be sent: every address it may connect
  to has passed the address check (also when the name was resolved), the secret is in one
  \<^verbatim>\<open>Authorization\<close> header and no other restricted header is set, and no header has a line break.
\<close>

theorem transport_gets_safe_details:
  "http_execute cfg url_parse resolve transport elapsed_ms request secret =
     http_execute cfg url_parse resolve
       (\<lambda>d. if details_ok cfg request secret d then transport d else Inl (TransportError []))
       elapsed_ms request secret"
  by (rule safe_details_only)

text \<open>
  a response the executor returns is not a redirect, its body as received is within the
  configured limit, and its sanitized body does not contain a plain secret. Its headers are
  those received, less six sensitive names, with their values as they are.
\<close>

theorem response_confined:
  "case http_execute cfg url_parse resolve transport elapsed_ms request secret of
     Inl e \<Rightarrow> True
   | Inr resp \<Rightarrow>
       (\<exists>d raw. transport d = Inr raw \<and> status_code resp = raw_status_code raw \<and>
          \<not> (300 \<le> status_code resp \<and> status_code resp \<le> 399) \<and>
          length (raw_body raw) \<le> hc_max_response_bytes cfg \<and>
          sanitized_headers resp = filter_response_headers (raw_headers raw)) \<and>
       (if plain_secret secret then \<not> contains_str (sanitized_body resp) (expose_secret secret) else True) \<and>
       0 < duration_ms resp"
proof (cases "http_execute cfg url_parse resolve transport elapsed_ms request secret")
  case (Inr resp)
  have clean: "plain_secret secret \<Longrightarrow> \<not> contains_str (sanitized_body resp) (expose_secret secret)"
    by (rule http.body_clean [of cfg url_parse resolve transport elapsed_ms request]) (simp_all add: Inr)
  from Inr obtain d raw where "transport d = Inr raw" "\<not> (300 \<le> raw_status_code raw \<and> raw_status_code raw \<le> 399)"
    "\<not> hc_max_response_bytes cfg < length (raw_body raw)"
    "resp = \<lparr>status_code = raw_status_code raw,
       sanitized_body = redact_secret_from_text (from_utf8_lossy (raw_body raw)) secret,
       sanitized_headers = filter_response_headers (raw_headers raw), duration_ms = max elapsed_ms 1\<rparr>"
    unfolding http_execute_def Let_def
    by (simp split: sum.splits prod.splits if_split_asm)
  then have "transport d = Inr raw \<and> status_code resp = raw_status_code raw \<and>
          \<not> (300 \<le> status_code resp \<and> status_code resp \<le> 399) \<and>
          length (raw_body raw) \<le> hc_max_response_bytes cfg \<and>
          sanitized_headers resp = filter_response_headers (raw_headers raw) \<and> 0 < duration_ms resp" by simp
  then have "\<exists>d raw. transport d = Inr raw \<and> status_code resp = raw_status_code raw \<and>
          \<not> (300 \<le> status_code resp \<and> status_code resp \<le> 399) \<and>
          length (raw_body raw) \<le> hc_max_response_bytes cfg \<and>
          sanitized_headers resp = filter_response_headers (raw_headers raw)" "0 < duration_ms resp" by blast+
  with clean show ?thesis unfolding Inr sum.case by simp
qed simp

text \<open>
  the socket transport connects to pinned addresses only, whatever other addresses would
  accept a connection, and over \<^verbatim>\<open>https\<close> it sends nothing.
\<close>

theorem connects_to_pinned_only:
  "std_tcp_execute connect req =
     std_tcp_execute (\<lambda>a. if a \<in> set (hd_pinned_addrs req) then connect a else Inl []) req \<and>
   (if url_scheme (hd_url req) = ''https'' then snd (std_tcp_execute connect req) = [] else True)"
  using connect_any_pinned [of "hd_pinned_addrs req" "set (hd_pinned_addrs req)" connect None]
  by (simp add: std_tcp_execute_def)

text \<open>
  Headers are not redacted: a server that echoes the \<^verbatim>\<open>Authorization\<close> header under another name
  sends the secret through the executor.
\<close>

definition echo_transport :: transport where
  "echo_transport d = Inr \<lparr>raw_status_code = 200,
     raw_headers = [(''X-Echo'', the (hm_get (hd_headers d) ''Authorization''))], raw_body = []\<rparr>"

definition demo_ip_url :: Url where
  "demo_ip_url = (demo_url ''/'')\<lparr>url_host_str := Some ''93.184.216.34''\<rparr>"

lemma demo_ip: "parse_ip ''93.184.216.34'' = Some (V4 (Ipv4 93 184 216 34))"
  by (simp add: parse_ip_def read_ipv4_def read_octet_def read_char_def str_defs)

lemma demo_trim: "trim_end_matches (\<lambda>c. c = '']'') (trim_start_matches (\<lambda>c. c = ''['') ''93.184.216.34'') = ''93.184.216.34''"
  by (simp add: str_defs)

lemma demo_pin:
  "resolve_and_pin_destination default_http_config resolve demo_ip_url =
     Inr (''93.184.216.34'', 443, [(V4 (Ipv4 93 184 216 34), 443)])"
  by (simp add: resolve_and_pin_destination_def demo_ip_url_def demo_url_def demo_ip demo_trim default_port_def
      to_ascii_lowercase_def ends_with_def to_lower_byte_def is_ascii_uppercase_def del: validate_ip_safety.simps)
    (simp add: default_http_config_def word_le_nat_alt)

theorem header_echo_reveals_secret:
  "map_sum id sanitized_headers
     (http_execute default_http_config (\<lambda>u. Inr demo_ip_url) resolve echo_transport 1 demo_request (new_secret ''k1'')) =
   Inr [(''X-Echo'', ''Bearer k1'')]"
proof -
  have "valid_utf8 ''k1''" by (rule valid_utf8_ascii) (simp add: is_ascii_def)
  then have e: "expose_secret (new_secret ''k1'') = ''k1''" by (simp add: expose_secret_def new_secret_def)
  have h: "req_headers demo_request = []" by (simp add: demo_request_def)
  have f: "filter_response_headers [(''X-Echo'', v)] = [(''X-Echo'', v)]" for v
    by (simp add: filter_response_headers_def str_defs)
  show ?thesis
    by (simp add: http_execute_def demo_pin e h echo_transport_def f)
qed

end
