(* ===== verification/Status.thy ===== *)
theory Status
  imports Outbox_Ledger Http_Op
begin

section \<open>The status listener\<close>

text \<open>
  Model of the HTTP status endpoint in \<^verbatim>\<open>mcp-shield/src/outbox.rs\<close>: the administrative
  credential, the query string, and the handling of one connection. A connection is the lines
  \<^verbatim>\<open>read_line\<close> yields, with their endings; a failed read is an \<open>Inl\<close>, and no more lines
  are the end of the stream. The answer is a status, a reason and a body; writing it to the
  socket is left out.
\<close>

subsection \<open>The credential\<close>

definition MIN_ADMIN_TOKEN_LEN :: nat where
  "MIN_ADMIN_TOKEN_LEN = 16"

text \<open>The fold over the zipped bytes, at their width.\<close>

definition byte_of :: "char \<Rightarrow> 8 word" where
  "byte_of ch = of_nat (ord ch)"

definition constant_time_eq :: "bytes \<Rightarrow> bytes \<Rightarrow> bool" where
  "constant_time_eq a b =
     (if length a \<noteq> length b then False
      else fold (\<lambda>(x, y) diff. diff OR (byte_of x XOR byte_of y)) (zip a b) 0 = 0)"

datatype AdminAuth = Authorized | Rejected | Unavailable

definition admin_authorized :: "string option \<Rightarrow> string option \<Rightarrow> AdminAuth" where
  "admin_authorized expected_token auth_header =
     (case (case expected_token of None \<Rightarrow> None | Some t \<Rightarrow> if trim t = [] then None else Some (trim t)) of
        None \<Rightarrow> Unavailable
      | Some expected \<Rightarrow>
          if length expected < MIN_ADMIN_TOKEN_LEN then Unavailable
          else (case auth_header of
                  None \<Rightarrow> Rejected
                | Some header \<Rightarrow>
                    (case strip_prefix header ''Bearer '' of
                       None \<Rightarrow> Rejected
                     | Some supplied \<Rightarrow>
                         if supplied = [] \<or> \<not> constant_time_eq supplied expected then Rejected
                         else Authorized)))"

subsection \<open>The query string\<close>

definition query_hex_value :: "char \<Rightarrow> nat option" where
  "query_hex_value ch =
     (if is_ascii_digit ch then Some (ord ch - 48)
      else if 97 \<le> ord ch \<and> ord ch \<le> 102 then Some (ord ch - 87)
      else if 65 \<le> ord ch \<and> ord ch \<le> 70 then Some (ord ch - 55)
      else None)"

text \<open>\<^verbatim>\<open>u8::from_str_radix\<close> on two characters: a leading plus sign is accepted.\<close>

definition from_hex2 :: "char \<Rightarrow> char \<Rightarrow> nat option" where
  "from_hex2 a b =
     (if a = CHR ''+'' then query_hex_value b
      else (case (query_hex_value a, query_hex_value b) of (Some x, Some y) \<Rightarrow> Some (16 * x + y) | _ \<Rightarrow> None))"

definition MALFORMED_QUERY :: string where
  "MALFORMED_QUERY = ''the query string is malformed''"

fun percent_bytes :: "bytes \<Rightarrow> bytes option" where
  "percent_bytes [] = Some []"
| "percent_bytes (ch # rest) =
     (if ch = CHR ''%'' then
        (case rest of
           a # b # rest' \<Rightarrow>
             (case from_hex2 a b of
                None \<Rightarrow> None
              | Some n \<Rightarrow> map_option ((#) (char_of n)) (percent_bytes rest'))
         | _ \<Rightarrow> None)
      else if ch = CHR ''+'' then map_option ((#) (CHR '' '')) (percent_bytes rest)
      else map_option ((#) ch) (percent_bytes rest))"

definition percent_decode :: "string \<Rightarrow> string + string" where
  "percent_decode v =
     (case percent_bytes v of
        None \<Rightarrow> Inl MALFORMED_QUERY
      | Some out \<Rightarrow> if valid_utf8 out then Inr out else Inl MALFORMED_QUERY)"

text \<open>The loop over the pairs; the last usable scope wins.\<close>

fun scan_pairs :: "string list \<Rightarrow> string option \<Rightarrow> string + string option" where
  "scan_pairs [] found = Inr found"
| "scan_pairs (pair # rest) found =
     (if pair = [] then scan_pairs rest found
      else (case split_once CHR ''='' pair of
              None \<Rightarrow> Inl MALFORMED_QUERY
            | Some (name, v) \<Rightarrow>
                if name \<noteq> ''tenant'' then scan_pairs rest found
                else (case percent_decode v of
                        Inl e \<Rightarrow> Inl e
                      | Inr decoded \<Rightarrow>
                          (let trimmed = trim decoded in
                           if trimmed = [] \<or> 128 < length trimmed \<or> has_control trimmed
                           then Inl ''tenant must be 1-128 printable characters''
                           else scan_pairs rest (Some trimmed)))))"

definition query_tenant :: "string \<Rightarrow> string + string option" where
  "query_tenant raw_target =
     (case split_once CHR ''?'' raw_target of
        None \<Rightarrow> Inr None
      | Some (_, query) \<Rightarrow> scan_pairs (split_ch CHR ''&'' query) None)"

subsection \<open>One connection\<close>

record HttpAnswer =
  ha_status :: nat
  ha_reason :: string
  ha_body :: json

definition http_answer :: "nat \<Rightarrow> string \<Rightarrow> json \<Rightarrow> HttpAnswer" where
  "http_answer status reason body = \<lparr>ha_status = status, ha_reason = reason, ha_body = body\<rparr>"

text \<open>The bytes of an answer; \<open>ser\<close> is \<^verbatim>\<open>serde_json::to_string\<close>.\<close>

definition LINE_END :: string where
  "LINE_END = [CR, LF]"

definition write_http_json_response :: "(json \<Rightarrow> string) \<Rightarrow> HttpAnswer \<Rightarrow> bytes" where
  "write_http_json_response ser a =
     (let payload = ser (ha_body a) in
      ''HTTP/1.1 '' @ show_nat (ha_status a) @ '' '' @ ha_reason a @ LINE_END
      @ ''Content-Type: application/json'' @ LINE_END
      @ ''Content-Length: '' @ show_nat (length payload) @ LINE_END
      @ ''Connection: close'' @ LINE_END @ LINE_END @ payload)"

definition refuse_admin :: "AdminAuth \<Rightarrow> HttpAnswer option" where
  "refuse_admin auth =
     (case auth of
        Authorized \<Rightarrow> None
      | Rejected \<Rightarrow> Some (http_answer 401 ''Unauthorized''
          (JObj [(''error'', JStr ''invalid administrative credential'')]))
      | Unavailable \<Rightarrow> Some (http_answer 503 ''Service Unavailable''
          (JObj [(''error'', JStr ''administrative authentication is unavailable'')])))"

text \<open>At most 64 header lines; the last \<^verbatim>\<open>Authorization\<close> header counts.\<close>

fun read_auth_header :: "nat \<Rightarrow> (string + string) list \<Rightarrow> string option \<Rightarrow> string + string option" where
  "read_auth_header 0 ls auth = Inr auth"
| "read_auth_header (Suc n) [] auth = Inr auth"
| "read_auth_header (Suc n) (Inl e # ls) auth = Inl e"
| "read_auth_header (Suc n) (Inr line # ls) auth =
     (if line = LINE_END \<or> line = [LF] then Inr auth
      else read_auth_header n ls
        (case split_once CHR '':'' line of
           None \<Rightarrow> auth
         | Some (name, v) \<Rightarrow>
             if eq_ignore_ascii_case (trim name) ''authorization'' then Some (trim v) else auth))"

definition MODULE :: string where
  "MODULE = ''mcp-shield''"

definition stats_body :: "OutboxStats \<Rightarrow> json" where
  "stats_body s =
     JObj [(''delivery'', JObj [(''dead'', JNum (PosInt (outbox_dead_letter s))),
                               (''oldest_pending_age_seconds'', JNum (PosInt (oldest_pending_age_seconds s))),
                               (''pending'', JNum (PosInt (outbox_pending s))),
                               (''worker_alive'', JBool True), (''worker_error'', JNull)]),
           (''module'', JStr MODULE), (''oldest_pending_age_seconds'', JNum (PosInt (oldest_pending_age_seconds s))),
           (''outbox_dead_letter'', JNum (PosInt (outbox_dead_letter s))),
           (''outbox_pending'', JNum (PosInt (outbox_pending s))), (''status'', JStr ''ok'')]"

definition handle_request ::
  "Codec \<Rightarrow> (string \<Rightarrow> json option) \<Rightarrow> Faults \<Rightarrow> nat \<Rightarrow> string option \<Rightarrow> string option \<Rightarrow> string \<Rightarrow> string \<Rightarrow> string \<Rightarrow> Files
   \<Rightarrow> HttpAnswer option \<times> Files" where
  "handle_request c parse ft now admin_token auth_header meth raw_target path fs =
     (if meth = ''GET'' \<and> path = ''/health''
      then (Some (http_answer 200 ''OK'' (JObj [(''module'', JStr MODULE), (''status'', JStr ''ok'')])), fs)
      else if meth = ''GET'' \<and> path = ''/stats''
      then (let auth = admin_authorized admin_token auth_header in
            if auth \<noteq> Authorized then (refuse_admin auth, fs)
            else (Some (http_answer 200 ''OK'' (stats_body (stats c parse ft now fs))), fs))
      else if meth = ''POST'' \<and> path = ''/admin/replay-dead-letters''
      then (let auth = admin_authorized admin_token auth_header in
            if auth \<noteq> Authorized then (refuse_admin auth, fs)
            else
              (case query_tenant raw_target of
                 Inl reason \<Rightarrow>
                   (Some (http_answer 422 ''Unprocessable Entity'' (JObj [(''error'', JStr reason)])), fs)
               | Inr tenant \<Rightarrow>
                   (case replay_dead_letters c parse ft now tenant fs of
                      (Inr replayed, fs') \<Rightarrow>
                        (Some (http_answer 200 ''OK'' (JObj [(''replayed'', JNum (PosInt replayed))])), fs')
                    | (Inl e, fs') \<Rightarrow>
                        (Some (http_answer 500 ''Internal Server Error'' (JObj [(''error'', JStr e)])), fs'))))
      else (Some (http_answer 404 ''Not Found'' (JObj [(''error'', JStr ''not found'')])), fs))"

definition handle_status_connection ::
  "Codec \<Rightarrow> (string \<Rightarrow> json option) \<Rightarrow> Faults \<Rightarrow> nat \<Rightarrow> string option \<Rightarrow> (string + string) list \<Rightarrow> Files
   \<Rightarrow> (string + HttpAnswer option) \<times> Files" where
  "handle_status_connection c parse ft now admin_token ls fs =
     (case ls of
        [] \<Rightarrow> (Inr None, fs)
      | Inl e # _ \<Rightarrow> (Inl e, fs)
      | Inr req_line # rest \<Rightarrow>
          (let parts = split_whitespace req_line;
               meth = (case parts of m # _ \<Rightarrow> m | [] \<Rightarrow> []);
               raw_target = (case parts of _ # t # _ \<Rightarrow> t | _ \<Rightarrow> []);
               path = hd (split_ch CHR ''?'' raw_target) in
           case read_auth_header 64 rest None of
             Inl e \<Rightarrow> (Inl e, fs)
           | Inr auth_header \<Rightarrow>
               (let (answer, fs') = handle_request c parse ft now admin_token auth_header meth raw_target path fs
                in (Inr answer, fs'))))"

subsection \<open>Properties\<close>

lemma unat_byte_of: "unat (byte_of ch) = ord ch"
  unfolding byte_of_def using ord_less_256 [of ch] by (simp only: unat_of_nat) (simp add: take_bit_nat_eq_self)

lemma byte_of_eq: "byte_of x = byte_of y \<longleftrightarrow> x = y"
  by (metis unat_byte_of char_eq_iff_ord)

lemma xor_zero: "x XOR y = 0 \<longleftrightarrow> x = (y :: 8 word)"
  by (metis xor.assoc xor.left_neutral xor_self_eq xor.right_neutral)

lemma fold_diff:
  "fold (\<lambda>(x, y) diff. diff OR (byte_of x XOR byte_of y)) zs d = 0 \<longleftrightarrow> d = 0 \<and> list_all (\<lambda>(x, y). x = y) zs"
proof (induction zs arbitrary: d)
  case (Cons z zs)
  then show ?case by (cases z) (simp add: or_eq_0_iff xor_zero byte_of_eq)
qed simp

lemma constant_time_eq_iff: "constant_time_eq a b \<longleftrightarrow> a = b"
proof (cases "length a = length b")
  case True
  then have "list_all (\<lambda>(x, y). x = y) (zip a b) \<longleftrightarrow> a = b" by (induction a b rule: list_induct2) auto
  with True show ?thesis by (simp add: constant_time_eq_def fold_diff)
qed (auto simp: constant_time_eq_def)

lemma admin_authorized_iff:
  "admin_authorized token header = Authorized \<longleftrightarrow>
     (case token of None \<Rightarrow> False | Some t \<Rightarrow> 16 \<le> length (trim t) \<and> header = Some (''Bearer '' @ trim t))"
proof -
  have sp: "strip_prefix h ''Bearer '' = Some r \<longleftrightarrow> h = ''Bearer '' @ r" for h r
    by (auto simp: strip_prefix_def dest: starts_with_dropD)
  show ?thesis
  proof (cases "\<exists>t. token = Some t \<and> 16 \<le> length (trim t)")
    case True
    then obtain t where t: "token = Some t" "16 \<le> length (trim t)" "trim t \<noteq> []" by fastforce
    show ?thesis
    proof (cases "\<exists>h r. header = Some h \<and> strip_prefix h ''Bearer '' = Some r")
      case True
      then obtain h r where h: "header = Some h" "strip_prefix h ''Bearer '' = Some r" by blast
      have "h = ''Bearer '' @ r" using h(2) sp by blast
      then show ?thesis using t h by (auto simp: admin_authorized_def MIN_ADMIN_TOKEN_LEN_def constant_time_eq_iff)
    next
      case False
      then have "header \<noteq> Some (''Bearer '' @ trim t)" using sp by blast
      then show ?thesis using t False
        by (auto simp: admin_authorized_def MIN_ADMIN_TOKEN_LEN_def split: option.splits)
    qed
  qed (auto simp: admin_authorized_def MIN_ADMIN_TOKEN_LEN_def split: option.splits)
qed

text \<open>The answers that need no credential.\<close>

definition public_answers :: "HttpAnswer list" where
  "public_answers =
     [http_answer 200 ''OK'' (JObj [(''module'', JStr MODULE), (''status'', JStr ''ok'')]),
      http_answer 404 ''Not Found'' (JObj [(''error'', JStr ''not found'')]),
      http_answer 401 ''Unauthorized'' (JObj [(''error'', JStr ''invalid administrative credential'')]),
      http_answer 503 ''Service Unavailable''
        (JObj [(''error'', JStr ''administrative authentication is unavailable'')])]"

lemma refuse_public: "auth \<noteq> Authorized \<Longrightarrow> \<exists>a. refuse_admin auth = Some a \<and> a \<in> set public_answers"
  by (cases auth) (simp_all add: refuse_admin_def public_answers_def)

lemma unauthorized_request:
  assumes "admin_authorized admin_token auth \<noteq> Authorized"
  shows "\<exists>a \<in> set public_answers. handle_request c parse ft now admin_token auth meth raw path fs = (Some a, fs)"
proof -
  obtain a where a: "refuse_admin (admin_authorized admin_token auth) = Some a" "a \<in> set public_answers"
    using refuse_public [OF assms] by blast
  have "http_answer 200 ''OK'' (JObj [(''module'', JStr MODULE), (''status'', JStr ''ok'')]) \<in> set public_answers"
    "http_answer 404 ''Not Found'' (JObj [(''error'', JStr ''not found'')]) \<in> set public_answers"
    by (simp_all add: public_answers_def)
  moreover have "handle_request c parse ft now admin_token auth meth raw path fs \<in>
      {(Some (http_answer 200 ''OK'' (JObj [(''module'', JStr MODULE), (''status'', JStr ''ok'')])), fs),
       (Some (http_answer 404 ''Not Found'' (JObj [(''error'', JStr ''not found'')])), fs), (Some a, fs)}"
    unfolding handle_request_def Let_def a(1) if_P [OF assms] by (simp split: if_split)
  ultimately show ?thesis using a(2) by blast
qed

text \<open>
  C20: the administrative endpoints fail closed: unless a token of at least 16 characters is
  configured and the request's last \<^verbatim>\<open>Authorization\<close> header (of the first 64 lines) is
  exactly \<^verbatim>\<open>Bearer\<close> and that token, no file changes and the answer is the health
  report, a 404 or a refusal; so no statistics leave and nothing is replayed. The comparison
  that does not stop early is equality.
\<close>

theorem admin_fails_closed:
  "case handle_status_connection c parse ft now admin_token ls fs of
     (res, fs') \<Rightarrow>
       if (case (admin_token, read_auth_header 64 (tl ls) None) of
             (Some t, Inr (Some h)) \<Rightarrow> 16 \<le> length (trim t) \<and> h = ''Bearer '' @ trim t
           | _ \<Rightarrow> False)
       then True
       else fs' = fs \<and> (case res of Inr (Some a) \<Rightarrow> a \<in> set public_answers | _ \<Rightarrow> True)"
proof (cases ls)
  case (Cons l rest)
  show ?thesis
  proof (cases "\<exists>line auth. l = Inr line \<and> read_auth_header 64 rest None = Inr auth")
    case True
    then obtain line auth where l: "l = Inr line" "read_auth_header 64 rest None = Inr auth" by blast
    show ?thesis
    proof (cases "admin_authorized admin_token auth = Authorized")
      case True
      then show ?thesis using l Cons by (auto simp: admin_authorized_iff split: option.splits prod.splits)
    next
      case False
      from unauthorized_request [OF False] obtain a where
        "handle_request c parse ft now admin_token auth (case split_whitespace line of m # _ \<Rightarrow> m | [] \<Rightarrow> [])
           (case split_whitespace line of _ # t # _ \<Rightarrow> t | _ \<Rightarrow> [])
           (hd (split_ch CHR ''?'' (case split_whitespace line of _ # t # _ \<Rightarrow> t | _ \<Rightarrow> []))) fs = (Some a, fs)"
        "a \<in> set public_answers" by blast
      then show ?thesis by (simp add: handle_status_connection_def Cons l Let_def)
    qed
  qed (auto simp: handle_status_connection_def Cons Let_def split: sum.splits)
qed (simp add: handle_status_connection_def)

text \<open>A misspelt scope widens the replay to every tenant; a plus sign passes as a hex digit.\<close>

lemma misspelt_scope_is_no_scope: "query_tenant ''/admin/replay-dead-letters?tenants=a'' = Inr None"
  by (simp add: query_tenant_def)

lemma plus_is_a_hex_digit: "percent_decode ''%+5'' = Inr [CHR 0x05]"
proof -
  have "char_of (5 :: nat) = CHR 0x05" by code_simp
  then show ?thesis by (simp add: percent_decode_def from_hex2_def query_hex_value_def is_ascii_digit_def valid_utf8.simps)
qed

end
