(* ===== verification/Remote_Target.thy ===== *)
theory Remote_Target
  imports Status
begin

section \<open>Remote endpoints from the environment\<close>

text \<open>
  Model of how \<^verbatim>\<open>mcp-shield/src/http_transport.rs\<close> and
  \<^verbatim>\<open>mcp-shield/src/outbox.rs\<close> accept a remote URL, a time-out, a polling cadence and a
  token. The URL parser is a parameter that yields the URL and its fragment; \<^verbatim>\<open>reqwest\<close>
  decides whether a header value is acceptable.
\<close>

text \<open>\<^verbatim>\<open>str::parse::<u64>\<close>: an optional plus sign and digits, within 64 bits.\<close>

definition parse_u64 :: "string \<Rightarrow> nat option" where
  "parse_u64 s =
     (let ds = (if starts_with s ''+'' then drop 1 s else s);
          v = foldl (\<lambda>acc c. 10 * acc + (ord c - 48)) 0 ds in
      if ds = [] \<or> \<not> list_all is_ascii_digit ds \<or> 2 ^ 64 \<le> v then None else Some v)"

subsection \<open>URLs\<close>

type_synonym url_parser = "string \<Rightarrow> string + Url \<times> string option"

fun is_loopback_ip :: "IpAddr \<Rightarrow> bool" where
  "is_loopback_ip (V4 (Ipv4 a b c d)) = (a = 127)"
| "is_loopback_ip (V6 (Ipv6 a b c d e f g h)) =
     (a = 0 \<and> b = 0 \<and> c = 0 \<and> d = 0 \<and> e = 0 \<and> f = 0 \<and> g = 0 \<and> h = 1)"

definition is_loopback_host :: "string option \<Rightarrow> bool" where
  "is_loopback_host host =
     (case host of
        None \<Rightarrow> False
      | Some v \<Rightarrow> eq_ignore_ascii_case v ''localhost'' \<or>
          (case parse_ip v of Some ip \<Rightarrow> is_loopback_ip ip | None \<Rightarrow> False))"

definition parse_target :: "url_parser \<Rightarrow> string \<Rightarrow> string + Url" where
  "parse_target url_parse v =
     (case url_parse v of
        Inl e \<Rightarrow> Inl ''invalid MCP remote URL''
      | Inr (url, fragment) \<Rightarrow>
          if \<not> (url_scheme url = ''http'' \<or> url_scheme url = ''https'')
          then Inl ''MCP remote URL must use http or https''
          else if url_username url \<noteq> [] \<or> url_password url \<noteq> None
          then Inl ''MCP remote URL must not contain embedded credentials''
          else if fragment \<noteq> None then Inl ''MCP remote URL must not contain a fragment''
          else if url_scheme url = ''http'' \<and> \<not> is_loopback_host (url_host_str url)
          then Inl ''MCP remote URL must use HTTPS unless it targets loopback''
          else Inr url)"

definition parse_dashboard_url :: "url_parser \<Rightarrow> string \<Rightarrow> bool \<Rightarrow> Url option" where
  "parse_dashboard_url url_parse v allow_insecure_http =
     (case url_parse v of
        Inl e \<Rightarrow> None
      | Inr (url, fragment) \<Rightarrow>
          if \<not> (url_scheme url = ''http'' \<or> url_scheme url = ''https'') \<or> url_host_str url = None
             \<or> url_username url \<noteq> [] \<or> url_password url \<noteq> None \<or> fragment \<noteq> None
          then None
          else if url_scheme url = ''http'' \<and> \<not> is_loopback_host (url_host_str url) \<and> \<not> allow_insecure_http
          then None
          else Some url)"

definition revocation_poll_url :: "Url \<Rightarrow> Url option" where
  "revocation_poll_url target =
     (case strip_suffix (trim_end_matches (\<lambda>c. c = ''/'') (url_path target)) ''/api/ingest'' of
        None \<Rightarrow> None
      | Some prefix \<Rightarrow>
          Some (target\<lparr>url_path := prefix @ ''/api/sessions/revoked'', url_query := None, url_query_pairs := []\<rparr>))"

subsection \<open>Numbers\<close>

definition DEFAULT_REQUEST_TIMEOUT_SECS :: nat where "DEFAULT_REQUEST_TIMEOUT_SECS = 300"
definition MAX_REQUEST_TIMEOUT_SECS :: nat where "MAX_REQUEST_TIMEOUT_SECS = 3600"
definition DEFAULT_POLL_INTERVAL_MS :: nat where "DEFAULT_POLL_INTERVAL_MS = 15000"
definition MIN_POLL_INTERVAL_MS :: nat where "MIN_POLL_INTERVAL_MS = 1000"

definition remote_timeout_secs :: "string option \<Rightarrow> string + nat" where
  "remote_timeout_secs v =
     (case v of
        None \<Rightarrow> Inr DEFAULT_REQUEST_TIMEOUT_SECS
      | Some s \<Rightarrow>
          (case parse_u64 s of
             None \<Rightarrow> Inl ''MCP_SHIELD_REMOTE_TIMEOUT_SECS must be an integer''
           | Some seconds \<Rightarrow>
               if 1 \<le> seconds \<and> seconds \<le> MAX_REQUEST_TIMEOUT_SECS then Inr seconds
               else Inl ''MCP_SHIELD_REMOTE_TIMEOUT_SECS must be between 1 and 3600''))"

definition poll_interval_ms :: "env \<Rightarrow> nat option" where
  "poll_interval_ms env =
     (case env ''MONOLITH_SESSION_POLL_MS'' of
        None \<Rightarrow> Some DEFAULT_POLL_INTERVAL_MS
      | Some raw \<Rightarrow>
          (case parse_u64 (trim raw) of
             Some v \<Rightarrow> if v = 0 then None else if MIN_POLL_INTERVAL_MS \<le> v then Some v else Some DEFAULT_POLL_INTERVAL_MS
           | None \<Rightarrow> Some DEFAULT_POLL_INTERVAL_MS))"

subsection \<open>Headers\<close>

definition DEFAULT_PROTOCOL_VERSION :: string where
  "DEFAULT_PROTOCOL_VERSION = ''2025-11-25''"

definition header_from_env :: "(string \<Rightarrow> bool) \<Rightarrow> env \<Rightarrow> string \<Rightarrow> string \<Rightarrow> string \<Rightarrow> string + string" where
  "header_from_env value_ok env name fallback label =
     (let v = (case env name of Some x \<Rightarrow> x | None \<Rightarrow> fallback) in
      if value_ok v then Inr v else Inl (''invalid '' @ label))"

definition remote_authorization :: "(string \<Rightarrow> bool) \<Rightarrow> string option \<Rightarrow> string + string option" where
  "remote_authorization value_ok token =
     (case token of
        None \<Rightarrow> Inr None
      | Some t \<Rightarrow>
          if trim t = [] then Inr None
          else if \<not> (16 \<le> length t \<and> length t \<le> 512) \<or> \<not> list_all token_byte t
          then Inl ''MCP_SHIELD_REMOTE_TOKEN must be a 16-512 character header-safe token''
          else if value_ok (''Bearer '' @ t) then Inr (Some (''Bearer '' @ t))
          else Inl ''MCP_SHIELD_REMOTE_TOKEN contains invalid header characters'')"

subsection \<open>The outbox\<close>

text \<open>The paths are siblings of the spool path; \<open>with_extension\<close> is \<^verbatim>\<open>Path::with_extension\<close>.\<close>

record OutboxConfig =
  ob_path :: string
  ob_lock_path :: string
  ob_dead_path :: string
  ob_target :: Url
  ob_token :: string

definition outbox_config :: "(string \<Rightarrow> string \<Rightarrow> string) \<Rightarrow> string \<Rightarrow> Url \<Rightarrow> string \<Rightarrow> OutboxConfig" where
  "outbox_config with_extension path target token =
     \<lparr>ob_path = path, ob_lock_path = with_extension path ''lock'', ob_dead_path = with_extension path ''dead'',
      ob_target = target, ob_token = token\<rparr>"

definition default_spool_path :: "env \<Rightarrow> string" where
  "default_spool_path env =
     (case env ''MONOLITH_EVENT_OUTBOX_PATH'' of Some p \<Rightarrow> p | None \<Rightarrow> ''/var/lib/monolith/outbox.jsonl'')"

text \<open>\<open>create_parent\<close> and \<open>build_ok\<close> are the directory and the client being there.\<close>

definition outbox_from_env ::
  "url_parser \<Rightarrow> (string \<Rightarrow> string \<Rightarrow> string) \<Rightarrow> (string \<Rightarrow> bool) \<Rightarrow> bool \<Rightarrow> env \<Rightarrow> OutboxConfig option" where
  "outbox_from_env url_parse with_extension create_parent build_ok env =
     (case env ''MONOLITH_DASHBOARD_URL'' of
        None \<Rightarrow> None
      | Some url \<Rightarrow>
          (case parse_dashboard_url url_parse url (env ''MONOLITH_ALLOW_INSECURE_DASHBOARD'' = Some ''true'') of
             None \<Rightarrow> None
           | Some target \<Rightarrow>
               (case env ''MONOLITH_EVENT_TOKEN'' of
                  None \<Rightarrow> None
                | Some token \<Rightarrow>
                    if \<not> valid_event_token token then None
                    else if \<not> create_parent (default_spool_path env) then None
                    else if \<not> build_ok then None
                    else Some (outbox_config with_extension (default_spool_path env) target token))))"

text \<open>The revocation poller: the request it repeats, and what an answer does to the mirror.\<close>

record PollRequest =
  pr_url :: Url
  pr_token :: string
  pr_tenant :: string
  pr_module :: string
  pr_interval_ms :: nat

definition revocation_poller :: "bool \<Rightarrow> env \<Rightarrow> OutboxConfig option \<Rightarrow> PollRequest option" where
  "revocation_poller build_ok env outbox =
     (case outbox of
        None \<Rightarrow> None
      | Some ob \<Rightarrow>
          (case revocation_poll_url (ob_target ob) of
             None \<Rightarrow> None
           | Some url \<Rightarrow>
               (case poll_interval_ms env of
                  None \<Rightarrow> None
                | Some interval \<Rightarrow>
                    (let tenant = trim (case env ''MONOLITH_TENANT_ID'' of Some t \<Rightarrow> t | None \<Rightarrow> ''default'') in
                     if tenant = [] \<or> 128 < length tenant \<or> has_control tenant then None
                     else if \<not> build_ok then None
                     else Some \<lparr>pr_url = url, pr_token = ob_token ob, pr_tenant = tenant, pr_module = MODULE,
                                pr_interval_ms = interval\<rparr>))))"

definition poll_once :: "(string \<Rightarrow> json option) \<Rightarrow> answer \<Rightarrow> Revocations \<Rightarrow> Revocations" where
  "poll_once parse a rv =
     (case a of
        Inl e \<Rightarrow> rv
      | Inr (status, chunks) \<Rightarrow>
          if is_2xx status then snd (observe_revoked_sessions parse (read_bounded_response chunks) rv) else rv)"

subsection \<open>Properties\<close>

lemma poll_interval_range:
  "case poll_interval_ms env of None \<Rightarrow> True | Some i \<Rightarrow> 1000 \<le> i \<and> i < 2 ^ 64"
  by (auto simp: poll_interval_ms_def DEFAULT_POLL_INTERVAL_MS_def MIN_POLL_INTERVAL_MS_def parse_u64_def Let_def
      split: option.splits if_splits)



text \<open>The host of an IPv6 URL is reported in brackets, which no address parser takes.\<close>

lemma bracketed_loopback_refused: "\<not> is_loopback_host (Some ''[::1]'')"
  by code_simp

end
