(* ===== verification/Tool_Mapping.thy ===== *)
theory Tool_Mapping
  imports Policy Json_Value
begin

section \<open>The registry of secret-bound tools\<close>

text \<open>
  Model of \<^verbatim>\<open>mcp-shield/src/secret_boundary/mapping.rs\<close>: the declarative tool definitions,
  their validation when a configuration is loaded, the registry, the descriptors it adds to a
  tool listing, and the translation of a call into an operation request. Besides the URL
  parser the parameters are \<open>append_pair\<close> (\<^verbatim>\<open>query_pairs_mut().append_pair\<close>), \<open>url_show\<close> (the
  URL as text) and \<open>ser\<close> (a JSON value as text).
\<close>

record SecretBoundToolDefinition =
  tool_name :: string
  tool_operation_id :: string
  tool_description :: string
  input_schema :: json
  url_template :: string
  tool_method :: string
  permitted_params :: "string list"
  policy_rule :: PolicyRule

subsection \<open>Validation\<close>

definition tool_prefix :: "SecretBoundToolDefinition \<Rightarrow> string" where
  "tool_prefix d = ''Tool '' @ squote (tool_name d)"

text \<open>The loop over the permitted parameters of a GET or HEAD tool.\<close>

fun check_params :: "SecretBoundToolDefinition \<Rightarrow> string \<Rightarrow> string list \<Rightarrow> BoundaryError option" where
  "check_params d method_upper [] = None"
| "check_params d method_upper (param # rest) =
     (if \<not> list_ex (\<lambda>p. eq_ignore_ascii_case p param) (permitted_query_params (policy_rule d))
      then Some (ConfigurationError (tool_prefix d @ '' permits parameter '' @ squote param
             @ '' but the policy does not list it in permitted_query_params; a '' @ method_upper
             @ '' request would always be denied''))
      else check_params d method_upper rest)"

text \<open>The loop over the query string of the template.\<close>

fun check_template_query :: "SecretBoundToolDefinition \<Rightarrow> (string \<times> string) list \<Rightarrow> BoundaryError option" where
  "check_template_query d [] = None"
| "check_template_query d ((key, v) # rest) =
     (if \<not> list_ex (\<lambda>p. eq_ignore_ascii_case p key) (permitted_query_params (policy_rule d))
      then Some (ConfigurationError (tool_prefix d @ '' URL template carries query parameter ''
             @ squote key @ '' which the policy does not list in permitted_query_params''))
      else check_template_query d rest)"

definition validate ::
  "(string \<Rightarrow> string + Url) \<Rightarrow> SecretBoundToolDefinition \<Rightarrow> BoundaryError option" where
  "validate url_parse d =
     (let rule = policy_rule d in
      case url_parse (url_template d) of
        Inl e \<Rightarrow> Some (ConfigurationError
               (''Invalid URL template for tool '' @ squote (tool_name d) @ '': '' @ e))
      | Inr parsed \<Rightarrow>
          if url_scheme parsed \<noteq> ''https''
          then Some (ConfigurationError (tool_prefix d @ '' URL template must use HTTPS scheme, found ''
                 @ squote (url_scheme parsed)))
          else if url_username parsed \<noteq> [] \<or> url_password parsed \<noteq> None
          then Some (ConfigurationError
                 (tool_prefix d @ '' URL template must not contain embedded userinfo or credentials''))
          else
            (case url_host_str parsed of
               None \<Rightarrow> Some (ConfigurationError (tool_prefix d @ '' URL template lacks a valid host''))
             | Some host \<Rightarrow>
                 if \<not> eq_ignore_ascii_case host (destination_host rule)
                 then Some (ConfigurationError (tool_prefix d @ '' destination host '' @ squote host
                        @ '' does not match policy approved host '' @ squote (destination_host rule)))
                 else if \<not> path_matches_prefix (url_path parsed) (allowed_path_prefix rule)
                 then Some (ConfigurationError (tool_prefix d @ '' path '' @ squote (url_path parsed)
                        @ '' does not conform to policy path prefix '' @ squote (allowed_path_prefix rule)))
                 else if path_contains_traversal (url_path parsed)
                 then Some (ConfigurationError (tool_prefix d @ '' path '' @ squote (url_path parsed)
                        @ '' contains a forbidden traversal sequence''))
                 else
                   (let method_upper = to_ascii_uppercase (tool_method d) in
                    if \<not> list_ex (\<lambda>m. eq_ignore_ascii_case m method_upper) (allowed_methods rule)
                    then Some (ConfigurationError (tool_prefix d @ '' method '' @ squote (tool_method d)
                           @ '' is not in policy allowed_methods list''))
                    else
                      (case (if method_upper = ''GET'' \<or> method_upper = ''HEAD''
                             then check_params d method_upper (permitted_params d) else None) of
                         Some e \<Rightarrow> Some e
                       | None \<Rightarrow> check_template_query d (url_query_pairs parsed)))))"

subsection \<open>The registry\<close>

record SecretToolRegistry =
  reg_tools :: "(string, SecretBoundToolDefinition) hashmap"

definition new_registry :: SecretToolRegistry where
  "new_registry = \<lparr>reg_tools = []\<rparr>"

definition register_tool ::
  "(string \<Rightarrow> string + Url) \<Rightarrow> SecretBoundToolDefinition \<Rightarrow> SecretToolRegistry
   \<Rightarrow> BoundaryError + SecretToolRegistry" where
  "register_tool url_parse d r =
     (case validate url_parse d of
        Some e \<Rightarrow> Inl e
      | None \<Rightarrow> Inr (r\<lparr>reg_tools := hm_insert (tool_name d) d (reg_tools r)\<rparr>))"

definition is_secret_tool :: "SecretToolRegistry \<Rightarrow> string \<Rightarrow> bool" where
  "is_secret_tool r name \<longleftrightarrow> hm_contains (reg_tools r) name"

definition get_tool :: "SecretToolRegistry \<Rightarrow> string \<Rightarrow> SecretBoundToolDefinition option" where
  "get_tool r name = hm_get (reg_tools r) name"

definition mcp_descriptor :: "SecretBoundToolDefinition \<Rightarrow> json" where
  "mcp_descriptor d = JObj [(''description'', JStr (tool_description d)),
     (''inputSchema'', input_schema d), (''name'', JStr (tool_name d))]"

definition get_mcp_descriptors :: "SecretToolRegistry \<Rightarrow> json list" where
  "get_mcp_descriptors r = map (\<lambda>(n, d). mcp_descriptor d) (reg_tools r)"

subsection \<open>From a call to an operation request\<close>

fun check_arg_keys :: "string \<Rightarrow> string list \<Rightarrow> string list \<Rightarrow> BoundaryError option" where
  "check_arg_keys name permitted [] = None"
| "check_arg_keys name permitted (key # rest) =
     (if key \<notin> set permitted
      then Some (InvalidRequest (''Unpermitted parameter '' @ squote key @ '' for tool '' @ squote name))
      else check_arg_keys name permitted rest)"

text \<open>The text of a scalar argument; \<open>Inl\<close> is a nested value, \<open>Inr None\<close> a null to skip.\<close>

fun arg_text :: "(json \<Rightarrow> string) \<Rightarrow> json \<Rightarrow> unit + string option" where
  "arg_text ser (JStr s) = Inr (Some s)"
| "arg_text ser (JNum n) = Inr (Some (ser (JNum n)))"
| "arg_text ser (JBool b) = Inr (Some (if b then ''true'' else ''false''))"
| "arg_text ser JNull = Inr None"
| "arg_text ser _ = Inl ()"

fun check_arg_values :: "(json \<Rightarrow> string) \<Rightarrow> jobject \<Rightarrow> BoundaryError option" where
  "check_arg_values ser [] = None"
| "check_arg_values ser ((key, v) # rest) =
     (case arg_text ser v of
        Inl _ \<Rightarrow> Some (InvalidRequest (''Complex nested parameter types are disallowed for key '' @ squote key))
      | Inr None \<Rightarrow> check_arg_values ser rest
      | Inr (Some s) \<Rightarrow>
          if has_crlf_nul key
          then Some (InvalidRequest (''Control character injection detected in parameter key '' @ squote key))
          else if has_crlf_nul s
          then Some (InvalidRequest (''Control character injection detected in value for '' @ squote key))
          else check_arg_values ser rest)"

text \<open>Appending the arguments to the query string of a GET or HEAD request.\<close>

fun append_args ::
  "(json \<Rightarrow> string) \<Rightarrow> (Url \<Rightarrow> string \<Rightarrow> string \<Rightarrow> Url) \<Rightarrow> jobject \<Rightarrow> Url \<Rightarrow> Url" where
  "append_args ser append_pair [] u = u"
| "append_args ser append_pair ((k, v) # rest) u =
     append_args ser append_pair rest
       (case as_str v of
          Some s \<Rightarrow> append_pair u k s
        | None \<Rightarrow> if \<not> is_null v then append_pair u k (ser v) else u)"

definition build_operation_request ::
  "(string \<Rightarrow> string + Url) \<Rightarrow> (Url \<Rightarrow> string \<Rightarrow> string \<Rightarrow> Url) \<Rightarrow> (Url \<Rightarrow> string) \<Rightarrow> (json \<Rightarrow> string)
   \<Rightarrow> SecretToolRegistry \<Rightarrow> string \<Rightarrow> string \<Rightarrow> json \<Rightarrow> BoundaryError + OperationRequest" where
  "build_operation_request url_parse append_pair url_show ser r name agent_id arguments =
     (case get_tool r name of
        None \<Rightarrow> Inl (InvalidRequest (''Tool '' @ squote name @ '' is not a registered secret-bound tool''))
      | Some tool \<Rightarrow>
          (case (case arguments of JObj m \<Rightarrow> Some m | JNull \<Rightarrow> Some [] | _ \<Rightarrow> None) of
             None \<Rightarrow> Inl (InvalidRequest ''Tool arguments must be a JSON object'')
           | Some args \<Rightarrow>
               (case check_arg_keys name (permitted_params tool) (map fst args) of
                  Some e \<Rightarrow> Inl e
                | None \<Rightarrow>
                    (case check_arg_values ser args of
                       Some e \<Rightarrow> Inl e
                     | None \<Rightarrow>
                         (case url_parse (url_template tool) of
                            Inl e \<Rightarrow> Inl (ConfigurationError (''Malformed base URL: '' @ e))
                          | Inr base \<Rightarrow>
                              (let method_upper = to_ascii_uppercase (tool_method tool);
                                   query = (method_upper = ''GET'' \<or> method_upper = ''HEAD'');
                                   final_url = (if query then append_args ser append_pair args base else base);
                                   body = (if query then None else Some (ser (JObj args)))
                               in Inr \<lparr>req_agent_id = agent_id, req_operation_id = tool_operation_id tool,
                                       destination_url = url_show final_url, req_method = method_upper,
                                       req_headers = [], req_body = body\<rparr>))))))"

subsection \<open>Validation and the policy agree\<close>

lemma check_params_None:
  "check_params d m ps = None \<longleftrightarrow>
     list_all (\<lambda>param. list_ex (\<lambda>p. eq_ignore_ascii_case p param) (permitted_query_params (policy_rule d))) ps"
  by (induction ps) auto

lemma check_template_query_None:
  "check_template_query d qs = None \<longleftrightarrow>
     list_all (\<lambda>(k, v). list_ex (\<lambda>p. eq_ignore_ascii_case p k) (permitted_query_params (policy_rule d))) qs"
  by (induction d qs rule: check_template_query.induct) auto

lemma check_arg_keys_None: "check_arg_keys name ps ks = None \<longleftrightarrow> set ks \<subseteq> set ps"
  by (induction ks) auto

lemma check_arg_values_None:
  "check_arg_values ser args = None \<longleftrightarrow>
     list_all (\<lambda>(k, v). case arg_text ser v of Inl _ \<Rightarrow> False | Inr None \<Rightarrow> True
       | Inr (Some s) \<Rightarrow> \<not> has_crlf_nul k \<and> \<not> has_crlf_nul s) args"
  by (induction ser args rule: check_arg_values.induct) (auto split: sum.splits option.splits)

text \<open>
  What appending a pair does to the parts of a URL the policy looks at, as documented for
  \<^verbatim>\<open>Url::query_pairs_mut\<close>.
\<close>

definition appends :: "(Url \<Rightarrow> string \<Rightarrow> string \<Rightarrow> Url) \<Rightarrow> bool" where
  "appends append_pair \<longleftrightarrow> (\<forall>u k v.
     url_scheme (append_pair u k v) = url_scheme u \<and> url_host_str (append_pair u k v) = url_host_str u \<and>
     url_port (append_pair u k v) = url_port u \<and> url_path (append_pair u k v) = url_path u \<and>
     url_query_pairs (append_pair u k v) = url_query_pairs u @ [(k, v)])"

lemma append_args_parts:
  assumes "appends append_pair"
  shows "url_scheme (append_args ser append_pair args u) = url_scheme u \<and>
    url_host_str (append_args ser append_pair args u) = url_host_str u \<and>
    url_port (append_args ser append_pair args u) = url_port u \<and>
    url_path (append_args ser append_pair args u) = url_path u \<and>
    fst ` set (url_query_pairs (append_args ser append_pair args u)) \<subseteq>
      fst ` set (url_query_pairs u) \<union> fst ` set args"
  using assms
proof (induction ser append_pair args u rule: append_args.induct)
  case (2 ser append_pair k v rest u)
  define u' where "u' = (case as_str v of Some s \<Rightarrow> append_pair u k s
    | None \<Rightarrow> if \<not> is_null v then append_pair u k (ser v) else u)"
  have step: "url_scheme u' = url_scheme u" "url_host_str u' = url_host_str u" "url_port u' = url_port u"
      "url_path u' = url_path u" "fst ` set (url_query_pairs u') \<subseteq> insert k (fst ` set (url_query_pairs u))"
    using 2(2) unfolding u'_def
    by (cases "as_str v"; cases "is_null v"; simp add: appends_def subset_insertI)+
  have IH: "fst ` set (url_query_pairs (append_args ser append_pair rest u')) \<subseteq>
      fst ` set (url_query_pairs u') \<union> fst ` set rest"
    using 2(1) [OF 2(2)] unfolding u'_def by blast
  have "append_args ser append_pair ((k, v) # rest) u = append_args ser append_pair rest u'"
    by (simp add: u'_def)
  moreover have "fst ` set (url_query_pairs (append_args ser append_pair rest u')) \<subseteq>
      fst ` set (url_query_pairs u) \<union> fst ` set ((k, v) # rest)"
    using IH step(5) by (simp, blast)
  ultimately show ?case using 2(1) [OF 2(2)] step(1-4) unfolding u'_def [symmetric] by simp
qed auto

text \<open>The parts of a validated template.\<close>

lemma validate_None:
  assumes "validate url_parse d = None"
  obtains u host where "url_parse (url_template d) = Inr u" "url_scheme u = ''https''"
    "url_username u = []" "url_password u = None"
    "url_host_str u = Some host" "eq_ignore_ascii_case host (destination_host (policy_rule d))"
    "path_matches_prefix (url_path u) (allowed_path_prefix (policy_rule d))"
    "\<not> path_contains_traversal (url_path u)"
    "list_ex (\<lambda>m. eq_ignore_ascii_case m (to_ascii_uppercase (tool_method d))) (allowed_methods (policy_rule d))"
    "to_ascii_uppercase (tool_method d) \<in> {''GET'', ''HEAD''} \<Longrightarrow>
      list_all (\<lambda>param. list_ex (\<lambda>p. eq_ignore_ascii_case p param) (permitted_query_params (policy_rule d)))
        (permitted_params d)"
    "list_all (\<lambda>(k, v). list_ex (\<lambda>p. eq_ignore_ascii_case p k) (permitted_query_params (policy_rule d)))
      (url_query_pairs u)"
  using assms unfolding validate_def Let_def
  by (auto simp: check_template_query_None check_params_None split: sum.splits option.splits if_splits)

subsection \<open>Properties\<close>

lemma build_operation_request_Inr:
  assumes "build_operation_request url_parse append_pair url_show ser r name agent arguments = Inr req"
  obtains tool args base where "get_tool r name = Some tool"
    "arguments = JObj args \<or> (arguments = JNull \<and> args = [])"
    "set (map fst args) \<subseteq> set (permitted_params tool)"
    "check_arg_values ser args = None" "url_parse (url_template tool) = Inr base"
    "req = \<lparr>req_agent_id = agent, req_operation_id = tool_operation_id tool,
       destination_url = url_show (if to_ascii_uppercase (tool_method tool) \<in> {''GET'', ''HEAD''}
         then append_args ser append_pair args base else base),
       req_method = to_ascii_uppercase (tool_method tool), req_headers = [],
       req_body = (if to_ascii_uppercase (tool_method tool) \<in> {''GET'', ''HEAD''} then None
         else Some (ser (JObj args)))\<rparr>"
  using assms unfolding build_operation_request_def Let_def
  by (auto simp: check_arg_keys_None split: option.splits json.splits sum.splits if_splits)

text \<open>
  what a call can influence: the request built for a secret-bound tool names the boundary's
  agent and the tool's operation and method, carries no headers, and its arguments are scalars
  under permitted names, free of CR, LF and NUL; a GET or HEAD request has no body and its URL
  is the template plus the arguments, any other request goes to the template's URL unchanged.
\<close>

theorem built_request_is_confined:
  assumes "build_operation_request url_parse append_pair url_show ser r name agent arguments = Inr req"
  shows "\<exists>tool args base. get_tool r name = Some tool \<and> url_parse (url_template tool) = Inr base \<and>
    (arguments = JObj args \<or> (arguments = JNull \<and> args = [])) \<and>
    set (map fst args) \<subseteq> set (permitted_params tool) \<and>
    list_all (\<lambda>(k, v). case arg_text ser v of Inl _ \<Rightarrow> False | Inr None \<Rightarrow> True
      | Inr (Some s) \<Rightarrow> \<not> has_crlf_nul k \<and> \<not> has_crlf_nul s) args \<and>
    req_agent_id req = agent \<and> req_operation_id req = tool_operation_id tool \<and>
    req_method req = to_ascii_uppercase (tool_method tool) \<and> req_headers req = [] \<and>
    (if req_method req \<in> {''GET'', ''HEAD''}
     then destination_url req = url_show (append_args ser append_pair args base) \<and> req_body req = None
     else destination_url req = url_show base \<and> req_body req = Some (ser (JObj args)))"
  using assms
proof (rule build_operation_request_Inr)
  fix tool args base
  assume *: "get_tool r name = Some tool" "arguments = JObj args \<or> (arguments = JNull \<and> args = [])"
    "set (map fst args) \<subseteq> set (permitted_params tool)" "check_arg_values ser args = None"
    "url_parse (url_template tool) = Inr base"
    "req = \<lparr>req_agent_id = agent, req_operation_id = tool_operation_id tool,
       destination_url = url_show (if to_ascii_uppercase (tool_method tool) \<in> {''GET'', ''HEAD''}
         then append_args ser append_pair args base else base),
       req_method = to_ascii_uppercase (tool_method tool), req_headers = [],
       req_body = (if to_ascii_uppercase (tool_method tool) \<in> {''GET'', ''HEAD''} then None
         else Some (ser (JObj args)))\<rparr>"
  show ?thesis
    by (intro exI [of _ tool] exI [of _ args] exI [of _ base])
      (use * in \<open>simp add: check_arg_values_None [symmetric]\<close>)
qed

text \<open>
  a tool that passed validation is denied only for reasons validation does not look at. For a
  call that could be translated, the policy authorizes the request under the tool's own rule
  exactly when the rule names the boundary's agent and the tool's operation, it has not
  expired, and the template's port is the one the rule expects. (Scheme, host, path, method and
  query parameters, which validation does check, can no longer fail.)
\<close>

theorem validated_tool_authorized_iff:
  assumes valid: "validate url_parse d = None" and get: "get_tool r name = Some d"
    and build: "build_operation_request url_parse append_pair url_show ser r name agent (JObj args) = Inr req"
    and rules: "add_rules rs new_engine = Inr e" "policy_rule d \<in> set rs"
    and base: "url_parse (url_template d) = Inr base" and app: "appends append_pair"
    and final: "final = (if to_ascii_uppercase (tool_method d) \<in> {''GET'', ''HEAD''}
          then append_args ser append_pair args base else base)"
        "url_parse (url_show final) = Inr final"
  shows "evaluate url_parse show_time e req now = Inr (policy_rule d) \<longleftrightarrow>
    rule_agent_id (policy_rule d) = agent \<and> rule_operation_id (policy_rule d) = tool_operation_id d \<and>
    (case valid_until (policy_rule d) of None \<Rightarrow> True | Some expiry \<Rightarrow> now \<le> expiry) \<and>
    effective_port base = (case destination_port (policy_rule d) of None \<Rightarrow> 443 | Some p \<Rightarrow> p)"
    (is "_ \<longleftrightarrow> ?named \<and> ?op \<and> ?live \<and> ?port")
proof -
  let ?rule = "policy_rule d" and ?m = "to_ascii_uppercase (tool_method d)"
  obtain args' where args': "JObj args = JObj args' \<or> (JObj args = JNull \<and> args' = [])"
    and keys: "set (map fst args') \<subseteq> set (permitted_params d)"
    and req: "destination_url req = url_show final" "req_agent_id req = agent"
      "req_operation_id req = tool_operation_id d" "req_method req = ?m" "req_headers req = []"
    using build get base final(1) by (elim build_operation_request_Inr) auto
  have args: "args' = args" using args' by simp
  from valid base obtain host where v: "url_scheme base = ''https''" "url_host_str base = Some host"
    "eq_ignore_ascii_case host (destination_host ?rule)"
    "path_matches_prefix (url_path base) (allowed_path_prefix ?rule)"
    "\<not> path_contains_traversal (url_path base)"
    "list_ex (\<lambda>m. eq_ignore_ascii_case m ?m) (allowed_methods ?rule)"
    "?m \<in> {''GET'', ''HEAD''} \<Longrightarrow> list_all (\<lambda>param. list_ex (\<lambda>p. eq_ignore_ascii_case p param)
        (permitted_query_params ?rule)) (permitted_params d)"
    "list_all (\<lambda>(k, v). list_ex (\<lambda>p. eq_ignore_ascii_case p k) (permitted_query_params ?rule)) (url_query_pairs base)"
    by (elim validate_None) auto
  note parts = append_args_parts [OF app, of ser args base]
  have same: "url_scheme final = url_scheme base" "url_host_str final = url_host_str base"
      "url_port final = url_port base" "url_path final = url_path base"
    unfolding final(1) using parts by simp_all
  have query: "list_all (\<lambda>(k, v). list_ex (\<lambda>p. eq_ignore_ascii_case p k) (permitted_query_params ?rule))
      (url_query_pairs final)"
  proof (cases "?m \<in> {''GET'', ''HEAD''}")
    case True
    have "list_ex (\<lambda>p. eq_ignore_ascii_case p k) (permitted_query_params ?rule)"
      if "k \<in> fst ` set (url_query_pairs final)" for k
    proof -
      have "k \<in> fst ` set (url_query_pairs base) \<or> k \<in> fst ` set args"
        using that parts True unfolding final(1) by auto
      then show ?thesis using v(7) [OF True] v(8) keys args by (auto simp: list_all_iff)
    qed
    then show ?thesis unfolding list_all_iff by force
  qed (use v(8) final(1) in simp)
  have upper: "to_ascii_uppercase ?m = ?m"
    by (simp add: to_ascii_uppercase_def)
  have dest: "check_destination url_parse req ?rule = Inr ?rule \<longleftrightarrow> ?port"
    unfolding check_destination_Inr destination_ok_def effective_port_def req(1,4) final(2) upper
    using v same query by (auto simp: default_port_def split: option.splits)
  have "filter (\<lambda>q. rule_agent_id q = req_agent_id req \<and> rule_operation_id q = req_operation_id req)
      (pe_rules e) = [?rule] \<longleftrightarrow> ?named \<and> ?op"
    (is "?f = _ \<longleftrightarrow> _")
  proof
    assume "?f = [?rule]"
    then have "?rule \<in> set ?f" by simp
    then show "?named \<and> ?op" unfolding req(2,3) by simp
  next
    assume "?named \<and> ?op"
    then show "?f = [?rule]" unfolding req(2,3) using consulted [OF rules] by simp
  qed
  then show ?thesis
    unfolding evaluate_Inr dest req(5) by (auto split: option.splits)
qed

text \<open>A tool with one query parameter, and URL operations for it.\<close>

definition demo_bound_tool :: SecretBoundToolDefinition where
  "demo_bound_tool = \<lparr>tool_name = ''w'', tool_operation_id = ''op'', tool_description = [],
     input_schema = JObj [], url_template = ''U'', tool_method = ''get'', permitted_params = [''q''],
     policy_rule = demo_rule\<lparr>permitted_query_params := [''q'']\<rparr>\<rparr>"

definition demo_append :: "Url \<Rightarrow> string \<Rightarrow> string \<Rightarrow> Url" where
  "demo_append u k v = u\<lparr>url_query_pairs := url_query_pairs u @ [(k, v)]\<rparr>"

definition demo_base :: Url where
  "demo_base = demo_url ''/v1/forecast/today''"

definition demo_url_parse :: "string \<Rightarrow> string + Url" where
  "demo_url_parse s = Inr (if s = ''U'' then demo_base else demo_append demo_base ''q'' ''x'')"

definition demo_url_show :: "Url \<Rightarrow> string" where
  "demo_url_show u = (if url_query_pairs u = [] then ''U'' else ''V'')"

definition demo_registry :: SecretToolRegistry where
  "demo_registry = \<lparr>reg_tools = [(''w'', demo_bound_tool)]\<rparr>"

definition demo_op_request :: OperationRequest where
  "demo_op_request = \<lparr>req_agent_id = ''a'', req_operation_id = ''op'', destination_url = ''V'',
     req_method = ''GET'', req_headers = [], req_body = None\<rparr>"

lemmas demo_tool_defs = demo_bound_tool_def demo_append_def demo_base_def demo_url_parse_def demo_url_show_def
  demo_registry_def demo_op_request_def demo_url_def demo_rule_def new_rule_def

lemma demo_upper: "to_ascii_uppercase ''get'' = ''GET''"
  by (simp add: str_defs bit_Suc_0_iff)

lemma demo_build:
  "build_operation_request demo_url_parse demo_append demo_url_show (\<lambda>v. []) demo_registry ''w'' ''a''
     (JObj [(''q'', JStr ''x'')]) = Inr demo_op_request"
  by (simp add: build_operation_request_def get_tool_def demo_tool_defs demo_upper has_crlf_nul_def)

lemma demo_path: "path_matches_prefix ''/v1/forecast/today'' ''/v1/forecast/''"
  by (simp add: path_matches_prefix_def str_defs)

lemma demo_host: "eq_ignore_ascii_case ''API.test'' ''api.test''"
  by (simp add: str_defs)

lemma demo_no_traversal: "\<not> path_contains_traversal ''/v1/forecast/today''"
  by (simp add: path_contains_traversal_def)

lemma demo_valid: "validate demo_url_parse demo_bound_tool = None"
  by (simp add: validate_def Let_def demo_tool_defs demo_upper demo_path demo_host demo_no_traversal)

theorem built_request_is_confined_witness:
  "set (map fst [(''q'', JStr ''x'')]) \<subseteq> set (permitted_params demo_bound_tool)"
proof -
  from built_request_is_confined [OF demo_build] obtain tool args where
    "get_tool demo_registry ''w'' = Some tool" "JObj [(''q'', JStr ''x'')] = JObj args"
    "set (map fst args) \<subseteq> set (permitted_params tool)" by auto
  then show ?thesis by (simp add: get_tool_def demo_registry_def)
qed

theorem validated_tool_authorized_iff_witness:
  "evaluate demo_url_parse (\<lambda>t. []) \<lparr>pe_rules = [policy_rule demo_bound_tool]\<rparr> demo_op_request 0 =
     Inr (policy_rule demo_bound_tool)"
proof -
  let ?e = "\<lparr>pe_rules = [policy_rule demo_bound_tool]\<rparr>" and ?final = "demo_append demo_base ''q'' ''x''"
  have get: "get_tool demo_registry ''w'' = Some demo_bound_tool" by (simp add: get_tool_def demo_registry_def)
  have rules: "add_rules [policy_rule demo_bound_tool] new_engine = Inr ?e"
    by (simp add: add_rule_def new_engine_def)
  have base: "demo_url_parse (url_template demo_bound_tool) = Inr demo_base"
    by (simp add: demo_url_parse_def demo_bound_tool_def)
  have app: "appends demo_append" by (simp add: appends_def demo_append_def)
  have final: "?final = (if to_ascii_uppercase (tool_method demo_bound_tool) \<in> {''GET'', ''HEAD''}
      then append_args (\<lambda>v. []) demo_append [(''q'', JStr ''x'')] demo_base else demo_base)"
    by (simp add: demo_bound_tool_def demo_upper)
  have "url_query_pairs ?final \<noteq> []" by (simp add: demo_append_def)
  then have parse: "demo_url_parse (demo_url_show ?final) = Inr ?final"
    by (simp add: demo_url_parse_def demo_url_show_def)
  have "policy_rule demo_bound_tool \<in> set [policy_rule demo_bound_tool]" by simp
  from validated_tool_authorized_iff [OF demo_valid get demo_build rules this base app final parse]
  show ?thesis
    by (simp add: demo_bound_tool_def demo_base_def demo_url_def demo_rule_def new_rule_def
        effective_port_def default_port_def)
qed

end
