(* ===== verification/Tools_List.thy ===== *)
theory Tools_List
  imports Shield_Config Jsonrpc Tool_Mapping
begin

section \<open>Analysis of a tool listing\<close>

text \<open>
  Model of the \<^verbatim>\<open>tools/list\<close> analysis in \<^verbatim>\<open>mcp-shield/src/proxy.rs\<close>: the inspection of every
  advertised tool, the comparison with the trusted baseline, the description scan, the
  rewriting of the listing and the events that report it. Code outside the repository is
  collected in the record \<open>Ext\<close>; what the file system and the clock answer during one analysis
  is the record \<open>IO\<close>. The rewritten response is the message itself: printing it
  (\<^verbatim>\<open>serde_json::to_string\<close>, which cannot fail on these types) is left to the forwarding loop.
\<close>

record Ext =
  x_mac :: "string \<Rightarrow> string \<Rightarrow> string option"
  x_ser :: "json \<Rightarrow> string"
  x_sha :: "string \<Rightarrow> string"
  x_sha_hex :: "string \<Rightarrow> string"
  x_parse_file :: "string \<Rightarrow> BaselineFile option"
  x_pretty_file :: "BaselineFile \<Rightarrow> string option"
  x_key_err :: string

record IO =
  io_now :: nat
  io_trace :: string
  io_lock_error :: "string option"
  io_fs :: fs_view
  io_fs_again :: fs_view
  io_write :: "store_error + nat option"

record AnalysisContext =
  ac_hmac_key :: string
  ac_mode :: ShieldMode
  ac_first_contact :: FirstContact
  ac_boundary :: "SecretToolRegistry option"

subsection \<open>Deferred events\<close>

record DeferredEvent =
  de_type :: string
  de_severity :: Severity
  de_details :: json
  claims_enforcement :: bool

definition restate :: "bool \<Rightarrow> DeferredEvent \<Rightarrow> json" where
  "restate applied e =
     (if claims_enforcement e \<and> \<not> applied
      then (case de_details e of
              JObj m \<Rightarrow> JObj (obj_insert ''action'' (JStr ''not_enforced'') m)
            | d \<Rightarrow> d)
      else de_details e)"

definition emit_deferred :: "DeferredEvent list \<Rightarrow> string \<Rightarrow> bool \<Rightarrow> Event list" where
  "emit_deferred deferred trace applied =
     map (\<lambda>e. emit_traced (de_type e) (de_severity e) (restate applied e) trace) deferred"

subsection \<open>Inspection of the entries\<close>

record ToolDefect =
  defect_reason :: string
  withhold :: bool

definition MAX_TOOL_NAME_LENGTH :: nat where
  "MAX_TOOL_NAME_LENGTH = 128"

definition trimmed_name :: "json \<Rightarrow> string option" where
  "trimmed_name tool =
     (case get_str tool ''name'' of
        None \<Rightarrow> None
      | Some n \<Rightarrow> (let t = trim n in if t = [] then None else Some t))"

definition name_count :: "json list \<Rightarrow> string \<Rightarrow> nat" where
  "name_count tools name = length (filter (\<lambda>tool. trimmed_name tool = Some name) tools)"

definition inspect_tool_entry :: "json list \<Rightarrow> nat \<times> json \<Rightarrow> ToolDefect option" where
  "inspect_tool_entry tools it =
     (let (index, tool) = it;
          withheld = (\<lambda>reason. Some \<lparr>defect_reason = reason, withhold = True\<rparr>) in
      case as_object tool of
        None \<Rightarrow> withheld (''tool at index '' @ show_nat index @ '' is not an object'')
      | Some object \<Rightarrow>
          (case trimmed_name tool of
             None \<Rightarrow> withheld (''tool at index '' @ show_nat index @ '' has no non-empty string name'')
           | Some name \<Rightarrow>
               if MAX_TOOL_NAME_LENGTH < length name
               then withheld (''tool name at index '' @ show_nat index @ '' exceeds 128 bytes'')
               else if 1 < name_count tools name
               then withheld (''tools/list contains duplicate tool name '' @ debug_str name)
               else if (case jget tool ''description'' of Some d \<Rightarrow> \<not> is_string d | None \<Rightarrow> False)
               then withheld (''tool '' @ debug_str name @ '' has a non-string description'')
               else if Option.bind (jget tool ''inputSchema'') as_object = None
               then Some \<lparr>defect_reason = ''tool '' @ debug_str name @ '' has no object inputSchema'',
                          withhold = False\<rparr>
               else None))"

definition inspect_tool_entries :: "json list \<Rightarrow> ToolDefect option list" where
  "inspect_tool_entries tools = map (inspect_tool_entry tools) (enumerate 0 tools)"

subsection \<open>One tool\<close>

text \<open>The variables of the loop.\<close>

record Loop =
  lp_store :: BaselineStore
  lp_clean :: "json list option"
  lp_blocked :: "nat hashset"
  lp_deferred :: "DeferredEvent list"
  lp_failed :: bool

definition block_tool :: "nat \<Rightarrow> Loop \<Rightarrow> Loop" where
  "block_tool index st = st\<lparr>lp_blocked := hs_insert index (lp_blocked st)\<rparr>"

definition defer_event :: "string \<Rightarrow> Severity \<Rightarrow> json \<Rightarrow> bool \<Rightarrow> Loop \<Rightarrow> Loop" where
  "defer_event event_type severity details claims st =
     st\<lparr>lp_deferred := lp_deferred st @
        [\<lparr>de_type = event_type, de_severity = severity, de_details = details,
          claims_enforcement = claims\<rparr>]\<rparr>"

definition tool_label :: "json \<Rightarrow> string" where
  "tool_label tool = unwrap_or (get_str tool ''name'') ''<unnamed>''"

definition shadowed :: "AnalysisContext \<Rightarrow> string \<Rightarrow> bool" where
  "shadowed ctx name \<longleftrightarrow>
     (case ac_boundary ctx of Some r \<Rightarrow> is_secret_tool r name | None \<Rightarrow> False)"

text \<open>The reported defect of a tool: withheld, or only reported.\<close>

definition report_defect :: "string \<Rightarrow> ToolDefect \<Rightarrow> Loop \<Rightarrow> Loop" where
  "report_defect name d st =
     (if withhold d
      then defer_event ''tool_malformed'' Warning
             (JObj [(''action'', JStr ''withheld_malformed''), (''reason'', JStr (defect_reason d)),
                    (''tool'', JStr name)]) True st
      else defer_event ''tool_malformed'' Info
             (JObj [(''action'', JStr ''analysed''), (''reason'', JStr (defect_reason d)),
                    (''tool'', JStr name)]) False st)"

text \<open>The comparison with the baseline; the second component is \<^verbatim>\<open>restored_from_baseline\<close>.\<close>

definition check_tool ::
  "Ext \<Rightarrow> IO \<Rightarrow> AnalysisContext \<Rightarrow> json list \<Rightarrow> nat \<Rightarrow> json \<Rightarrow> string \<Rightarrow> Loop \<Rightarrow> Loop \<times> bool" where
  "check_tool x io ctx tools index tool hash st =
     (let name = tool_label tool; description = description_of tool in
      case check (io_now io) name hash description tool (lp_store st) of
        (Registered, s') \<Rightarrow>
          (defer_event ''baseline_registered'' Info
             (JObj [(''hash'', JStr hash), (''tool'', JStr name)]) False (st\<lparr>lp_store := s'\<rparr>), False)
      | (Match, s') \<Rightarrow> (st\<lparr>lp_store := s'\<rparr>, False)
      | (Mismatch baseline, s') \<Rightarrow>
          (let blocked = (ac_mode ctx = Enforce \<and> \<not> is_null (entry_tool baseline));
               st1 = st\<lparr>lp_store := s'\<rparr>;
               st2 = (if blocked
                      then st1\<lparr>lp_clean := Some ((case lp_clean st1 of Some c \<Rightarrow> c | None \<Rightarrow> tools)
                                 [index := entry_tool baseline])\<rparr>
                      else st1)
           in (defer_event ''schema_mismatch'' Critical
                 (JObj [(''action'', JStr (if blocked then ''rewritten'' else ''forwarded'')),
                        (''baseline_description_bytes'', JNum (PosInt (length (entry_description baseline)))),
                        (''baseline_description_sha256'', JStr (x_sha_hex x (entry_description baseline))),
                        (''baseline_hash'', JStr (entry_hash baseline)),
                        (''current_description_bytes'', JNum (PosInt (length description))),
                        (''current_description_sha256'', JStr (x_sha_hex x description)),
                        (''current_hash'', JStr hash),
                        (''mode'', JStr (if ac_mode ctx = Enforce then ''enforce'' else ''monitor'')),
                        (''tool'', JStr name)]) blocked st2, blocked)))"

text \<open>The description scan of a tool that was compared.\<close>

definition report_findings ::
  "AnalysisContext \<Rightarrow> nat \<Rightarrow> string \<Rightarrow> finding list \<Rightarrow> bool \<Rightarrow> Loop \<Rightarrow> Loop" where
  "report_findings ctx index name fs restored st =
     (if fs = [] then st
      else
        (let st1 = defer_event ''suspicious_description'' Warning
               (JObj [(''action'', JStr (if ac_mode ctx = Enforce
                          then (if restored then ''restored_baseline'' else ''blocked'') else ''reported'')),
                      (''findings'', findings_json fs), (''tool'', JStr name)])
               (ac_mode ctx = Enforce) st
         in if ac_mode ctx = Enforce \<and> \<not> restored then block_tool index st1 else st1))"

text \<open>The body of the loop after the defect and shadowing tests.\<close>

definition analyze_sound_tool ::
  "Ext \<Rightarrow> IO \<Rightarrow> AnalysisContext \<Rightarrow> json list \<Rightarrow> nat \<Rightarrow> json \<Rightarrow> Loop \<Rightarrow> Loop" where
  "analyze_sound_tool x io ctx tools index tool st =
     (let name = tool_label tool; description = description_of tool;
          fs = scan_description description in
      if is_revoked (lp_store st) name
      then defer_event ''tool_revoked'' Warning
             (JObj [(''action'', JStr ''withheld_revoked''), (''tool'', JStr name)]) True
             (block_tool index st)
      else if ac_mode ctx = Enforce \<and> fs \<noteq> [] \<and> \<not> contains (lp_store st) name
      then defer_event ''suspicious_description'' Warning
             (JObj [(''action'', JStr ''blocked_first_contact''), (''findings'', findings_json fs),
                    (''tool'', JStr name)]) True
             (block_tool index st)
      else
        (case fingerprint_tool (x_mac x) (x_ser x) (ac_hmac_key ctx) tool of
           None \<Rightarrow> st\<lparr>lp_failed := True\<rparr>
         | Some hash \<Rightarrow>
             if ac_first_contact ctx = Approve \<and> \<not> contains (lp_store st) name
             then (let (newly_parked, s') =
                         register_pending (io_now io) name hash description tool (lp_store st) in
                   defer_event ''tool_pending_approval'' Warning
                     (JObj [(''action'', JStr ''withheld_pending_approval''),
                            (''description'', JStr description), (''hash'', JStr hash),
                            (''newly_parked'', JBool newly_parked), (''tool'', JStr name)]) True
                     (block_tool index (st\<lparr>lp_store := s'\<rparr>)))
             else (let (st1, restored) = check_tool x io ctx tools index tool hash st in
                   report_findings ctx index name fs restored st1)))"

definition analyze_tool ::
  "Ext \<Rightarrow> IO \<Rightarrow> AnalysisContext \<Rightarrow> json list \<Rightarrow> ToolDefect option \<Rightarrow> nat \<Rightarrow> json \<Rightarrow> Loop \<Rightarrow> Loop" where
  "analyze_tool x io ctx tools defect index tool st =
     (let name = tool_label tool;
          st1 = (case defect of Some d \<Rightarrow> report_defect name d st | None \<Rightarrow> st) in
      if (case defect of Some d \<Rightarrow> withhold d | None \<Rightarrow> False) then block_tool index st1
      else if shadowed ctx name then block_tool index st1
      else analyze_sound_tool x io ctx tools index tool st1)"

text \<open>The loop, left when a tool could not be fingerprinted.\<close>

fun analyze_tools ::
  "Ext \<Rightarrow> IO \<Rightarrow> AnalysisContext \<Rightarrow> json list \<Rightarrow> (nat \<times> json) list \<Rightarrow> Loop \<Rightarrow> Loop" where
  "analyze_tools x io ctx tools [] st = st"
| "analyze_tools x io ctx tools ((index, tool) # rest) st =
     (let st' = analyze_tool x io ctx tools (inspect_tool_entries tools ! index) index tool st in
      if lp_failed st' then st' else analyze_tools x io ctx tools rest st')"

subsection \<open>The whole listing\<close>

datatype AnalysisOutcome = Malformed | Analyzed "JsonRpcMessage option"

definition rebuild_response :: "JsonRpcMessage \<Rightarrow> json list \<Rightarrow> string + JsonRpcMessage" where
  "rebuild_response msg tools =
     (case rpc_result msg of
        None \<Rightarrow> Inl ''rewriting a response that has no result field''
      | Some (JObj m) \<Rightarrow> Inr (msg\<lparr>rpc_result := Some (JObj (obj_insert ''tools'' (JArr tools) m))\<rparr>)
      | Some _ \<Rightarrow> Inl ''tools/list result is not a JSON object'')"

definition listed_tools :: "JsonRpcMessage \<Rightarrow> json list option" where
  "listed_tools msg =
     Option.bind (Option.bind (rpc_result msg) (\<lambda>r. jget r ''tools'')) as_array"

definition lock_events :: "IO \<Rightarrow> Event list" where
  "lock_events io =
     (case io_lock_error io of
        None \<Rightarrow> []
      | Some e \<Rightarrow> [emit_traced ''baseline_lock_failed'' Critical (JObj [(''error'', JStr e)]) (io_trace io)])"

definition reload_store :: "Ext \<Rightarrow> IO \<Rightarrow> BaselineStore \<Rightarrow> Event list \<times> BaselineStore" where
  "reload_store x io s =
     (case reload_if_changed (x_mac x) (x_ser x) (x_sha x) (x_parse_file x) (io_fs io) (io_fs_again io) s of
        (Inr _, s') \<Rightarrow> ([], s')
      | (Inl _, s') \<Rightarrow>
          (case take_reload_failure s' of
             (None, s'') \<Rightarrow> ([], s'')
           | (Some e, s'') \<Rightarrow>
               ([emit_traced ''baseline_reload_failed'' Critical
                   (JObj [(''action'', JStr ''continued_with_last_known_good_baseline''),
                          (''error'', JStr (store_error_text (x_key_err x) (bs_path s) e))])
                   (io_trace io)], s'')))"

definition persist_store :: "Ext \<Rightarrow> IO \<Rightarrow> BaselineStore \<Rightarrow> Event list \<times> BaselineStore" where
  "persist_store x io s =
     (case save_if_dirty (x_pretty_file x) (x_sha x) (io_write io) s of
        (Inr _, s') \<Rightarrow> ([], s')
      | (Inl _, s') \<Rightarrow>
          (case take_persist_failure s' of
             (None, s'') \<Rightarrow> ([], s'')
           | (Some e, s'') \<Rightarrow>
               ([emit_traced ''baseline_persist_failed'' Critical
                   (JObj [(''action'', JStr ''baseline_not_persisted''),
                          (''error'', JStr (store_error_text (x_key_err x) (bs_path s) e))])
                   (io_trace io)], s'')))"

definition secret_descriptors :: "AnalysisContext \<Rightarrow> json list" where
  "secret_descriptors ctx =
     (case ac_boundary ctx of Some r \<Rightarrow> get_mcp_descriptors r | None \<Rightarrow> [])"

text \<open>The list sent instead of the server's: not blocked, restored where needed, plus the boundary's own.\<close>

definition filtered_tools :: "AnalysisContext \<Rightarrow> json list \<Rightarrow> Loop \<Rightarrow> json list" where
  "filtered_tools ctx tools st =
     map snd (filter (\<lambda>(index, tool). index \<notin> set (lp_blocked st))
       (enumerate 0 (case lp_clean st of Some c \<Rightarrow> c | None \<Rightarrow> tools)))
     @ secret_descriptors ctx"

definition start_loop :: "BaselineStore \<Rightarrow> Loop" where
  "start_loop s = \<lparr>lp_store = s, lp_clean = None, lp_blocked = [], lp_deferred = [], lp_failed = False\<rparr>"

definition analyze_tools_list ::
  "Ext \<Rightarrow> IO \<Rightarrow> AnalysisContext \<Rightarrow> JsonRpcMessage \<Rightarrow> BaselineStore
   \<Rightarrow> (string + AnalysisOutcome) \<times> BaselineStore \<times> Event list" where
  "analyze_tools_list x io ctx msg s =
     (case listed_tools msg of
        None \<Rightarrow>
          (Inr Malformed, s, lock_events io @
             [emit_traced ''analysis_error'' Warning
                (JObj [(''reason'', JStr ''tools/list response missing result.tools array'')]) (io_trace io)])
      | Some tools \<Rightarrow>
          (let (reload_events, s1) = reload_store x io s;
               st = analyze_tools x io ctx tools (enumerate 0 tools) (start_loop s1);
               before = lock_events io @ reload_events in
           if lp_failed st
           then (Inl ''failed to fingerprint a tool schema'', lp_store st,
                 before @ emit_deferred (lp_deferred st) (io_trace io) False)
           else
             (let enforced = (lp_clean st \<noteq> None \<or> lp_blocked st \<noteq> []);
                  rewritten =
                    (if enforced \<or> secret_descriptors ctx \<noteq> []
                     then map_sum id Some (rebuild_response msg (filtered_tools ctx tools st))
                     else Inr None) in
              case rewritten of
                Inl e \<Rightarrow> (Inl e, lp_store st, before @ emit_deferred (lp_deferred st) (io_trace io) False)
              | Inr r \<Rightarrow>
                  (let (persist_events, s2) = persist_store x io (lp_store st) in
                   (Inr (Analyzed r), s2,
                    before @ persist_events @
                    emit_deferred (lp_deferred st) (io_trace io) (enforced \<and> r \<noteq> None))))))"

end
