(* ===== verification/Listing_Spec.thy ===== *)
theory Listing_Spec
  imports Tools_List
begin

section \<open>The listing loop implements one decision per tool\<close>

text \<open>
  The loop of \<^verbatim>\<open>analyze_tools_list\<close> threads a store, an index set and a lazily copied list.
  \<open>decide\<close> is the specification of its body as a function of the store alone; \<open>step_ok\<close>
  is the simulation relation of one step and \<open>loop_inv\<close> the invariant of the loop, which says
  that the decisions of all entries can be read off the store the loop started with: names
  that are not withheld are distinct, so no entry disturbs another one's lookup.
\<close>

subsection \<open>What a step does to the store\<close>

definition store_grows :: "BaselineStore \<Rightarrow> BaselineStore \<Rightarrow> bool" where
  "store_grows s s' \<longleftrightarrow>
     (\<forall>m e. hm_get (bs_tools s) m = Some e \<longrightarrow> hm_get (bs_tools s') m = Some e) \<and>
     bs_revoked s' = bs_revoked s \<and> (\<forall>m. contains s' m = contains s m) \<and>
     bs_key s' = bs_key s \<and> bs_path s' = bs_path s"

lemma store_grows_refl [simp]: "store_grows s s"
  by (simp add: store_grows_def)

lemma store_grows_trans: "store_grows s s' \<Longrightarrow> store_grows s' s'' \<Longrightarrow> store_grows s s''"
  by (simp add: store_grows_def)

lemma store_grows_check: "store_grows s (snd (check now n h d t s))"
  by (auto simp: store_grows_def check_cases contains_def hm_contains_def split: option.splits)

lemma store_grows_register_pending: "store_grows s (snd (register_pending now n h d t s))"
  by (auto simp: store_grows_def register_pending_eq contains_def hm_contains_def)

lemma check_other: "m \<noteq> n \<Longrightarrow> hm_get (bs_tools (snd (check now n h d t s))) m = hm_get (bs_tools s) m"
  by (auto simp: check_cases split: option.splits)

lemma check_self:
  "hm_get (bs_tools (snd (check now n h d t s))) n =
     Some (case hm_get (bs_tools s) n of Some e \<Rightarrow> e | None \<Rightarrow> make_entry now h d t)"
  by (auto simp: check_cases split: option.splits)

lemma register_pending_tools: "bs_tools (snd (register_pending now n h d t s)) = bs_tools s"
  by (simp add: register_pending_eq)

subsection \<open>The decision for one tool\<close>

text \<open>
  The abstract specification of the loop body: what happens to one tool, as a function of the
  store before the loop.
\<close>

datatype decision = Keep | Drop | Replace json | Abort

definition served :: "decision \<Rightarrow> bool" where
  "served d \<longleftrightarrow> (case d of Keep \<Rightarrow> True | Replace t \<Rightarrow> True | _ \<Rightarrow> False)"

definition withheld :: "ToolDefect option \<Rightarrow> bool" where
  "withheld defect \<longleftrightarrow> (case defect of Some d \<Rightarrow> withhold d | None \<Rightarrow> False)"

definition decide :: "Ext \<Rightarrow> AnalysisContext \<Rightarrow> ToolDefect option \<Rightarrow> json \<Rightarrow> BaselineStore \<Rightarrow> decision" where
  "decide x ctx defect tool s =
     (let name = tool_label tool;
          flagged = (ac_mode ctx = Enforce \<and> scan_description (description_of tool) \<noteq> []) in
      if withheld defect \<or> shadowed ctx name \<or> is_revoked s name \<or> (flagged \<and> \<not> contains s name) then Drop
      else (case fingerprint_tool (x_mac x) (x_ser x) (ac_hmac_key ctx) tool of
              None \<Rightarrow> Abort
            | Some hash \<Rightarrow>
                if ac_first_contact ctx = Approve \<and> \<not> contains s name then Drop
                else (case hm_get (bs_tools s) name of
                        Some e \<Rightarrow>
                          if entry_hash e \<noteq> hash \<and> ac_mode ctx = Enforce \<and> \<not> is_null (entry_tool e)
                          then Replace (entry_tool e)
                          else if flagged then Drop else Keep
                      | None \<Rightarrow> if flagged then Drop else Keep)))"

definition current :: "json list \<Rightarrow> Loop \<Rightarrow> json list" where
  "current tools st = (case lp_clean st of Some c \<Rightarrow> c | None \<Rightarrow> tools)"

lemma defer_event_fields [simp]:
  "lp_store (defer_event t sv d c st) = lp_store st" "lp_clean (defer_event t sv d c st) = lp_clean st"
  "lp_blocked (defer_event t sv d c st) = lp_blocked st" "lp_failed (defer_event t sv d c st) = lp_failed st"
  "lp_deferred (defer_event t sv d c st) = lp_deferred st @
     [\<lparr>de_type = t, de_severity = sv, de_details = d, claims_enforcement = c\<rparr>]"
  by (simp_all add: defer_event_def)

lemma block_tool_fields [simp]:
  "lp_store (block_tool i st) = lp_store st" "lp_clean (block_tool i st) = lp_clean st"
  "set (lp_blocked (block_tool i st)) = insert i (set (lp_blocked st))"
  "lp_deferred (block_tool i st) = lp_deferred st" "lp_failed (block_tool i st) = lp_failed st"
  by (simp_all add: block_tool_def)

lemma report_defect_fields [simp]:
  "lp_store (report_defect n d st) = lp_store st" "lp_clean (report_defect n d st) = lp_clean st"
  "lp_blocked (report_defect n d st) = lp_blocked st" "lp_failed (report_defect n d st) = lp_failed st"
  by (simp_all add: report_defect_def)

lemma current_upd: "current tools (st\<lparr>lp_store := s\<rparr>) = current tools st"
  by (simp add: current_def)

lemma report_findings_fields:
  "lp_store (report_findings ctx i n fs r st) = lp_store st"
  "lp_clean (report_findings ctx i n fs r st) = lp_clean st"
  "lp_failed (report_findings ctx i n fs r st) = lp_failed st"
  "set (lp_blocked (report_findings ctx i n fs r st)) =
     (if fs \<noteq> [] \<and> ac_mode ctx = Enforce \<and> \<not> r then insert i (set (lp_blocked st)) else set (lp_blocked st))"
  by (auto simp: report_findings_def Let_def)

lemma check_tool_fields:
  assumes "hm_get (bs_tools (lp_store st)) (tool_label tool) = entry"
  shows "lp_store (fst (check_tool x io ctx tools i tool h st)) =
      snd (check (io_now io) (tool_label tool) h (description_of tool) tool (lp_store st))"
    "lp_blocked (fst (check_tool x io ctx tools i tool h st)) = lp_blocked st"
    "lp_failed (fst (check_tool x io ctx tools i tool h st)) = lp_failed st"
    "snd (check_tool x io ctx tools i tool h st) \<longleftrightarrow>
      (\<exists>e. entry = Some e \<and> entry_hash e \<noteq> h \<and> ac_mode ctx = Enforce \<and> \<not> is_null (entry_tool e))"
    "lp_clean (fst (check_tool x io ctx tools i tool h st)) =
      (case entry of
         Some e \<Rightarrow> if entry_hash e \<noteq> h \<and> ac_mode ctx = Enforce \<and> \<not> is_null (entry_tool e)
                   then Some ((current tools st)[i := entry_tool e]) else lp_clean st
       | None \<Rightarrow> lp_clean st)"
  using assms
  by (auto simp: check_tool_def Let_def check_cases current_def split: option.splits)

text \<open>The step implements the decision.\<close>

definition step_ok ::
  "Ext \<Rightarrow> IO \<Rightarrow> AnalysisContext \<Rightarrow> json list \<Rightarrow> nat \<Rightarrow> json \<Rightarrow> decision \<Rightarrow> Loop \<Rightarrow> Loop \<Rightarrow> bool" where
  "step_ok x io ctx tools i tool d st st' \<longleftrightarrow>
     (lp_failed st' \<longleftrightarrow> lp_failed st \<or> d = Abort) \<and>
     set (lp_blocked st') = (if d = Drop then insert i (set (lp_blocked st)) else set (lp_blocked st)) \<and>
     lp_clean st' = (case d of Replace t \<Rightarrow> Some ((current tools st)[i := t]) | _ \<Rightarrow> lp_clean st) \<and>
     store_grows (lp_store st) (lp_store st') \<and>
     (\<forall>m. m \<noteq> tool_label tool \<longrightarrow> hm_get (bs_tools (lp_store st')) m = hm_get (bs_tools (lp_store st)) m) \<and>
     (served d \<longrightarrow> (\<exists>h. fingerprint_tool (x_mac x) (x_ser x) (ac_hmac_key ctx) tool = Some h \<and>
       hm_get (bs_tools (lp_store st')) (tool_label tool) =
         Some (case hm_get (bs_tools (lp_store st)) (tool_label tool) of Some e \<Rightarrow> e
               | None \<Rightarrow> make_entry (io_now io) h (description_of tool) tool))) \<and>
     (store_authentic (x_mac x) (x_ser x) (lp_store st) \<and> bs_key (lp_store st) = ac_hmac_key ctx \<and>
      get_str tool ''name'' = Some (tool_label tool) \<and> tool_label tool \<noteq> [] \<longrightarrow>
      store_authentic (x_mac x) (x_ser x) (lp_store st'))"

lemma step_okD:
  assumes "step_ok x io ctx tools i tool d st st'"
  shows "lp_failed st' \<longleftrightarrow> lp_failed st \<or> d = Abort"
    and "set (lp_blocked st') = (if d = Drop then insert i (set (lp_blocked st)) else set (lp_blocked st))"
    and "lp_clean st' = (case d of Replace t \<Rightarrow> Some ((current tools st)[i := t]) | _ \<Rightarrow> lp_clean st)"
    and "store_grows (lp_store st) (lp_store st')"
  using assms by (simp_all add: step_ok_def)

text \<open>The four ways through the body of the loop.\<close>

lemma analyze_sound_tool_cases:
  fixes x io ctx tools i tool st
  defines "s \<equiv> lp_store st" and "n \<equiv> tool_label tool" and "fs \<equiv> scan_description (description_of tool)"
    and "st' \<equiv> analyze_sound_tool x io ctx tools i tool st"
  obtains
    (drop) t sv m where "is_revoked s n \<or> (ac_mode ctx = Enforce \<and> fs \<noteq> [] \<and> \<not> contains s n)"
      "st' = defer_event t sv (JObj m) True (block_tool i st)"
  | (abort) "\<not> is_revoked s n" "\<not> (ac_mode ctx = Enforce \<and> fs \<noteq> [] \<and> \<not> contains s n)"
      "fingerprint_tool (x_mac x) (x_ser x) (ac_hmac_key ctx) tool = None" "st' = st\<lparr>lp_failed := True\<rparr>"
  | (park) h t sv m where "\<not> is_revoked s n" "\<not> (ac_mode ctx = Enforce \<and> fs \<noteq> [] \<and> \<not> contains s n)"
      "fingerprint_tool (x_mac x) (x_ser x) (ac_hmac_key ctx) tool = Some h"
      "ac_first_contact ctx = Approve" "\<not> contains s n"
      "st' = defer_event t sv (JObj m) True (block_tool i (st\<lparr>lp_store :=
         snd (register_pending (io_now io) n h (description_of tool) tool s)\<rparr>))"
  | (check) h where "\<not> is_revoked s n" "\<not> (ac_mode ctx = Enforce \<and> fs \<noteq> [] \<and> \<not> contains s n)"
      "fingerprint_tool (x_mac x) (x_ser x) (ac_hmac_key ctx) tool = Some h"
      "\<not> (ac_first_contact ctx = Approve \<and> \<not> contains s n)"
      "st' = report_findings ctx i n fs (snd (check_tool x io ctx tools i tool h st))
          (fst (check_tool x io ctx tools i tool h st))"
proof -
  note unf = st'_def analyze_sound_tool_def Let_def s_def [symmetric] n_def [symmetric] fs_def [symmetric]
  consider
    (drop) "is_revoked s n \<or> (ac_mode ctx = Enforce \<and> fs \<noteq> [] \<and> \<not> contains s n)"
  | (abort) "\<not> is_revoked s n" "\<not> (ac_mode ctx = Enforce \<and> fs \<noteq> [] \<and> \<not> contains s n)"
      "fingerprint_tool (x_mac x) (x_ser x) (ac_hmac_key ctx) tool = None"
  | (park) h where "\<not> is_revoked s n" "\<not> (ac_mode ctx = Enforce \<and> fs \<noteq> [] \<and> \<not> contains s n)"
      "fingerprint_tool (x_mac x) (x_ser x) (ac_hmac_key ctx) tool = Some h"
      "ac_first_contact ctx = Approve" "\<not> contains s n"
  | (check) h where "\<not> is_revoked s n" "\<not> (ac_mode ctx = Enforce \<and> fs \<noteq> [] \<and> \<not> contains s n)"
      "fingerprint_tool (x_mac x) (x_ser x) (ac_hmac_key ctx) tool = Some h"
      "\<not> (ac_first_contact ctx = Approve \<and> \<not> contains s n)"
    by (cases "fingerprint_tool (x_mac x) (x_ser x) (ac_hmac_key ctx) tool") blast+
  then show thesis
  proof cases
    case drop
    show thesis
    proof (cases "is_revoked s n")
      case True
      show thesis by (rule that(1) [OF drop]) (unfold unf, simp only: True if_True)
    next
      case False
      with drop have c: "ac_mode ctx = Enforce \<and> fs \<noteq> [] \<and> \<not> contains s n" by simp
      show thesis by (rule that(1) [OF drop]) (unfold unf, simp only: False c if_True if_False simp_thms)
    qed
  next
    case abort
    show thesis by (rule that(2) [OF abort]) (unfold unf, simp only: abort if_False option.case)
  next
    case (park h)
    show thesis
      by (rule that(3) [OF park]) (unfold unf if_not_P [OF park(1)] if_not_P [OF park(2)], simp only: park(3-5) if_True option.case simp_thms case_prod_beta)
  next
    case (check h)
    show thesis
      by (rule that(4) [OF check]) (unfold unf if_not_P [OF check(1)] if_not_P [OF check(2)],
          simp only: check(3) if_not_P [OF check(4)] option.case case_prod_beta)
  qed
qed

lemma analyze_sound_tool_step:
  assumes "\<not> withheld defect" "\<not> shadowed ctx (tool_label tool)"
  shows "step_ok x io ctx tools i tool (decide x ctx defect tool (lp_store st)) st
    (analyze_sound_tool x io ctx tools i tool st)"
proof (cases rule: analyze_sound_tool_cases [of st tool ctx x io tools i])
  case (drop t sv m)
  have "decide x ctx defect tool (lp_store st) = Drop" using drop(1) assms by (auto simp: decide_def Let_def)
  then show ?thesis unfolding drop(2) by (auto simp: step_ok_def served_def)
next
  case abort
  then have "decide x ctx defect tool (lp_store st) = Abort" using assms by (auto simp: decide_def Let_def)
  then show ?thesis unfolding abort(4) by (auto simp: step_ok_def served_def)
next
  case (park h t sv m)
  then have "decide x ctx defect tool (lp_store st) = Drop" using assms by (auto simp: decide_def Let_def)
  then show ?thesis unfolding park(6)
    using store_grows_register_pending [of "lp_store st" "io_now io" "tool_label tool" h "description_of tool" tool]
      register_pending_tools [of "io_now io" "tool_label tool" h "description_of tool" tool "lp_store st"]
      register_pending_authentic [of "x_mac x" "x_ser x" "lp_store st" tool "tool_label tool" h "io_now io"] park(3)
    by (auto simp: step_ok_def served_def)
next
  case (check h)
  let ?s = "lp_store st" and ?n = "tool_label tool"
  define e where "e = hm_get (bs_tools ?s) ?n"
  note f = check_tool_fields [OF e_def [symmetric], of x io ctx tools i h]
  have "decide x ctx defect tool ?s = (case e of
      Some e \<Rightarrow> if entry_hash e \<noteq> h \<and> ac_mode ctx = Enforce \<and> \<not> is_null (entry_tool e)
                then Replace (entry_tool e)
                else if ac_mode ctx = Enforce \<and> scan_description (description_of tool) \<noteq> [] then Drop else Keep
    | None \<Rightarrow> if ac_mode ctx = Enforce \<and> scan_description (description_of tool) \<noteq> [] then Drop else Keep)"
    using check assms by (auto simp: decide_def Let_def e_def split: option.splits)
  then show ?thesis unfolding step_ok_def check(5) report_findings_fields f
    using store_grows_check [of ?s "io_now io" ?n h "description_of tool" tool]
      check_other [of _ ?n "io_now io" h "description_of tool" tool ?s]
      check_self [of "io_now io" ?n h "description_of tool" tool ?s] check(3)
      check_authentic [of "x_mac x" "x_ser x" ?s tool ?n h "io_now io"]
    by (auto simp: served_def e_def split: option.splits)
qed

lemma analyze_tool_step:
  "step_ok x io ctx tools i tool (decide x ctx defect tool (lp_store st)) st
    (analyze_tool x io ctx tools defect i tool st)"
proof (cases "withheld defect \<or> shadowed ctx (tool_label tool)")
  case True
  then have "decide x ctx defect tool (lp_store st) = Drop" by (auto simp: decide_def Let_def)
  with True show ?thesis
    by (auto simp: step_ok_def served_def analyze_tool_def withheld_def Let_def split: option.splits)
next
  case False
  define st1 where "st1 = (case defect of Some d \<Rightarrow> report_defect (tool_label tool) d st | None \<Rightarrow> st)"
  have same: "lp_store st1 = lp_store st" "lp_clean st1 = lp_clean st" "lp_blocked st1 = lp_blocked st"
      "lp_failed st1 = lp_failed st" "current tools st1 = current tools st"
    by (auto simp: st1_def current_def split: option.splits)
  have "analyze_tool x io ctx tools defect i tool st = analyze_sound_tool x io ctx tools i tool st1"
    using False by (auto simp: analyze_tool_def st1_def withheld_def Let_def split: option.splits)
  with analyze_sound_tool_step [of defect ctx tool x io tools i st1] False show ?thesis
    by (simp add: step_ok_def same split: decision.splits)
qed

lemma analyze_tool_withheld:
  "withheld defect \<Longrightarrow> lp_store (analyze_tool x io ctx tools defect i tool st) = lp_store st"
  by (auto simp: analyze_tool_def withheld_def Let_def split: option.splits)

subsection \<open>Unwithheld tools have distinct names\<close>

lemma inspect_nth: "i < length tools \<Longrightarrow> inspect_tool_entries tools ! i = inspect_tool_entry tools (i, tools ! i)"
  by (simp add: inspect_tool_entries_def nth_enumerate_eq)

lemma not_withheldD:
  assumes "\<not> withheld (inspect_tool_entry tools (i, tool))"
  obtains m n where "tool = JObj m" "trimmed_name tool = Some n" "length n \<le> MAX_TOOL_NAME_LENGTH"
    "name_count tools n \<le> 1" "\<forall>d. jget tool ''description'' = Some d \<longrightarrow> is_string d"
  using assms unfolding inspect_tool_entry_def withheld_def
  by (auto simp: Let_def not_less split: option.splits if_splits)

lemma trimmed_name_label:
  "trimmed_name tool = Some n \<Longrightarrow> get_str tool ''name'' = Some (tool_label tool) \<and> n = trim (tool_label tool) \<and>
    tool_label tool \<noteq> []"
  by (auto simp: trimmed_name_def tool_label_def unwrap_or_def Let_def trim_def split: option.splits if_splits)

lemma two_in_filter:
  assumes "i < j" "j < length xs" "P (xs ! i)" "P (xs ! j)"
  shows "2 \<le> length (filter P xs)"
proof -
  have "card {i, j} \<le> card {k. k < length xs \<and> P (xs ! k)}"
    using assms by (intro card_mono) auto
  then show ?thesis using assms(1) by (simp add: length_filter_conv_card)
qed

lemma labels_distinct:
  assumes "i < length tools" "j < length tools" "i \<noteq> j"
    and "\<not> withheld (inspect_tool_entries tools ! i)" "\<not> withheld (inspect_tool_entries tools ! j)"
  shows "tool_label (tools ! i) \<noteq> tool_label (tools ! j)"
proof
  assume eq: "tool_label (tools ! i) = tool_label (tools ! j)"
  obtain n where n: "trimmed_name (tools ! i) = Some n" "name_count tools n \<le> 1"
    using assms(1,4) by (auto simp: inspect_nth elim: not_withheldD)
  obtain n' where n': "trimmed_name (tools ! j) = Some n'"
    using assms(2,5) by (auto simp: inspect_nth elim: not_withheldD)
  have "n = n'" using trimmed_name_label [OF n(1)] trimmed_name_label [OF n'] eq by simp
  then have "2 \<le> name_count tools n"
    using two_in_filter [of i j tools "\<lambda>t. trimmed_name t = Some n"]
      two_in_filter [of j i tools "\<lambda>t. trimmed_name t = Some n"] n(1) n' assms(1-3)
    unfolding name_count_def by (cases i j rule: linorder_cases) blast+
  with n(2) show False by simp
qed

subsection \<open>The loop implements the decisions\<close>

definition decision_at :: "Ext \<Rightarrow> AnalysisContext \<Rightarrow> json list \<Rightarrow> BaselineStore \<Rightarrow> nat \<Rightarrow> decision" where
  "decision_at x ctx tools s i = decide x ctx (inspect_tool_entries tools ! i) (tools ! i) s"

text \<open>What the tool at an index becomes in the rewritten list, if it is kept.\<close>

definition replacement :: "Ext \<Rightarrow> AnalysisContext \<Rightarrow> json list \<Rightarrow> BaselineStore \<Rightarrow> nat \<Rightarrow> json" where
  "replacement x ctx tools s i = (case decision_at x ctx tools s i of Replace t \<Rightarrow> t | _ \<Rightarrow> tools ! i)"

text \<open>A kept tool has the fingerprint of the entry stored under its name.\<close>

definition kept_ok :: "Ext \<Rightarrow> AnalysisContext \<Rightarrow> json \<Rightarrow> BaselineStore \<Rightarrow> bool" where
  "kept_ok x ctx tool s \<longleftrightarrow>
     (\<exists>h e. fingerprint_tool (x_mac x) (x_ser x) (ac_hmac_key ctx) tool = Some h \<and>
        hm_get (bs_tools s) (tool_label tool) = Some e \<and>
        (ac_mode ctx = Enforce \<and> \<not> is_null (entry_tool e) \<longrightarrow> entry_hash e = h))"

lemma kept_ok_grows: "store_grows s s' \<Longrightarrow> kept_ok x ctx tool s \<Longrightarrow> kept_ok x ctx tool s'"
  by (fastforce simp: kept_ok_def store_grows_def)

definition loop_inv :: "Ext \<Rightarrow> AnalysisContext \<Rightarrow> json list \<Rightarrow> BaselineStore \<Rightarrow> nat \<Rightarrow> Loop \<Rightarrow> bool" where
  "loop_inv x ctx tools s n st \<longleftrightarrow>
     \<not> lp_failed st \<and>
     set (lp_blocked st) = {i. i < n \<and> decision_at x ctx tools s i = Drop} \<and>
     length (current tools st) = length tools \<and>
     (\<forall>i < length tools. current tools st ! i = (if i < n then replacement x ctx tools s i else tools ! i)) \<and>
     (lp_clean st = None \<longleftrightarrow> (\<forall>i t. i < n \<longrightarrow> decision_at x ctx tools s i \<noteq> Replace t)) \<and>
     store_grows s (lp_store st) \<and>
     (\<forall>m. (\<forall>i < n. \<not> withheld (inspect_tool_entries tools ! i) \<longrightarrow> tool_label (tools ! i) \<noteq> m) \<longrightarrow>
       hm_get (bs_tools (lp_store st)) m = hm_get (bs_tools s) m) \<and>
     (\<forall>i < n. decision_at x ctx tools s i \<noteq> Abort) \<and>
     (\<forall>i < n. decision_at x ctx tools s i = Keep \<longrightarrow> kept_ok x ctx (tools ! i) (lp_store st)) \<and>
     (store_authentic (x_mac x) (x_ser x) s \<and> bs_key s = ac_hmac_key ctx \<longrightarrow>
       store_authentic (x_mac x) (x_ser x) (lp_store st))"

lemma loop_invD:
  assumes "loop_inv x ctx tools s n st"
  shows "\<not> lp_failed st"
    and "set (lp_blocked st) = {i. i < n \<and> decision_at x ctx tools s i = Drop}"
    and "length (current tools st) = length tools"
    and "i < length tools \<Longrightarrow> current tools st ! i = (if i < n then replacement x ctx tools s i else tools ! i)"
    and "lp_clean st = None \<longleftrightarrow> (\<forall>i t. i < n \<longrightarrow> decision_at x ctx tools s i \<noteq> Replace t)"
    and "store_grows s (lp_store st)"
    and "i < n \<Longrightarrow> decision_at x ctx tools s i \<noteq> Abort"
    and "i < n \<Longrightarrow> decision_at x ctx tools s i = Keep \<Longrightarrow> kept_ok x ctx (tools ! i) (lp_store st)"
    and "store_authentic (x_mac x) (x_ser x) s \<Longrightarrow> bs_key s = ac_hmac_key ctx \<Longrightarrow>
      store_authentic (x_mac x) (x_ser x) (lp_store st)"
  using assms by (simp_all add: loop_inv_def)

lemma loop_inv_start: "loop_inv x ctx tools s 0 (start_loop s)"
  by (simp add: loop_inv_def start_loop_def current_def)

lemma decide_cong:
  assumes "store_grows s s'"
    and "\<not> withheld defect \<Longrightarrow> hm_get (bs_tools s') (tool_label tool) = hm_get (bs_tools s) (tool_label tool)"
  shows "decide x ctx defect tool s' = decide x ctx defect tool s"
proof (cases "withheld defect")
  case False
  have same: "contains s' (tool_label tool) = contains s (tool_label tool)"
    "is_revoked s' (tool_label tool) = is_revoked s (tool_label tool)"
    using assms(1) by (simp_all add: store_grows_def is_revoked_def)
  show ?thesis unfolding decide_def Let_def same assms(2) [OF False] ..
qed (simp add: decide_def Let_def)

lemma keep_entry:
  assumes "decide x ctx defect tool s = Keep" "hm_get (bs_tools s) (tool_label tool) = Some e"
    and "fingerprint_tool (x_mac x) (x_ser x) (ac_hmac_key ctx) tool = Some h"
    and "ac_mode ctx = Enforce" "\<not> is_null (entry_tool e)"
  shows "entry_hash e = h"
  using assms by (auto simp: decide_def Let_def split: if_splits)

lemma step_kept_ok:
  assumes "step_ok x io ctx tools i tool Keep st st'" "decide x ctx defect tool (lp_store st) = Keep"
  shows "kept_ok x ctx tool (lp_store st')"
proof -
  obtain h where h: "fingerprint_tool (x_mac x) (x_ser x) (ac_hmac_key ctx) tool = Some h"
      "hm_get (bs_tools (lp_store st')) (tool_label tool) =
         Some (case hm_get (bs_tools (lp_store st)) (tool_label tool) of Some e \<Rightarrow> e
               | None \<Rightarrow> make_entry (io_now io) h (description_of tool) tool)"
    using assms(1) by (auto simp: step_ok_def served_def)
  show ?thesis
    using h keep_entry [OF assms(2) _ h(1)]
    by (auto simp: kept_ok_def make_entry_def split: option.splits)
qed

lemma loop_inv_step:
  assumes inv: "loop_inv x ctx tools s n st" and n: "n < length tools"
    and st': "st' = analyze_tool x io ctx tools (inspect_tool_entries tools ! n) n (tools ! n) st"
  shows "lp_failed st' \<longleftrightarrow> decision_at x ctx tools s n = Abort"
    and "\<not> lp_failed st' \<Longrightarrow> loop_inv x ctx tools s (Suc n) st'"
proof -
  let ?def = "inspect_tool_entries tools ! n" and ?d = "decision_at x ctx tools s n"
  have same: "hm_get (bs_tools (lp_store st)) (tool_label (tools ! n)) = hm_get (bs_tools s) (tool_label (tools ! n))"
    if nw: "\<not> withheld ?def"
  proof -
    have "\<forall>m. (\<forall>i < n. \<not> withheld (inspect_tool_entries tools ! i) \<longrightarrow> tool_label (tools ! i) \<noteq> m) \<longrightarrow>
        hm_get (bs_tools (lp_store st)) m = hm_get (bs_tools s) m"
      using inv by (simp add: loop_inv_def)
    moreover have "\<forall>i < n. \<not> withheld (inspect_tool_entries tools ! i) \<longrightarrow> tool_label (tools ! i) \<noteq> tool_label (tools ! n)"
    proof (intro allI impI)
      fix i assume "i < n" "\<not> withheld (inspect_tool_entries tools ! i)"
      then show "tool_label (tools ! i) \<noteq> tool_label (tools ! n)"
        using labels_distinct [of i tools n] n nw by simp
    qed
    ultimately show ?thesis by blast
  qed
  have dec: "decide x ctx ?def (tools ! n) (lp_store st) = ?d"
    unfolding decision_at_def by (rule decide_cong) (use inv same in \<open>auto simp: loop_inv_def\<close>)
  have ok: "step_ok x io ctx tools n (tools ! n) ?d st st'"
    using analyze_tool_step [of x io ctx tools n "tools ! n" ?def st] unfolding st' dec .
  show "lp_failed st' \<longleftrightarrow> ?d = Abort" using ok inv by (simp add: step_ok_def loop_inv_def)
  assume nf: "\<not> lp_failed st'"
  then have not_abort: "?d \<noteq> Abort" using ok by (simp add: step_ok_def)
  have other: "hm_get (bs_tools (lp_store st')) m = hm_get (bs_tools (lp_store st)) m"
    if "\<not> withheld ?def \<longrightarrow> tool_label (tools ! n) \<noteq> m" for m
    using ok that analyze_tool_withheld [of ?def x io ctx tools n "tools ! n" st] st'
    by (auto simp: step_ok_def)
  have cur: "current tools st' = (case ?d of Replace t \<Rightarrow> (current tools st)[n := t] | _ \<Rightarrow> current tools st)"
    using ok by (auto simp: step_ok_def current_def split: decision.splits)
  show "loop_inv x ctx tools s (Suc n) st'"
    unfolding loop_inv_def
  proof (intro conjI)
    show "\<not> lp_failed st'" by (rule nf)
    show "set (lp_blocked st') = {i. i < Suc n \<and> decision_at x ctx tools s i = Drop}"
      using step_okD(2) [OF ok] loop_invD(2) [OF inv] by (auto simp: less_Suc_eq)
    show "length (current tools st') = length tools"
      using loop_invD(3) [OF inv] by (simp add: cur split: decision.splits)
    show "\<forall>i < length tools. current tools st' ! i = (if i < Suc n then replacement x ctx tools s i else tools ! i)"
    proof (intro allI impI)
      fix i assume i: "i < length tools"
      have old: "current tools st ! i = (if i < n then replacement x ctx tools s i else tools ! i)"
        and len: "length (current tools st) = length tools"
        using loop_invD(3,4) [OF inv] i by simp_all
      show "current tools st' ! i = (if i < Suc n then replacement x ctx tools s i else tools ! i)"
        using old len i n unfolding cur
        by (cases "i = n") (auto simp: replacement_def nth_list_update split: decision.splits)
    qed
    show "lp_clean st' = None \<longleftrightarrow> (\<forall>i t. i < Suc n \<longrightarrow> decision_at x ctx tools s i \<noteq> Replace t)"
      using step_okD(3) [OF ok] loop_invD(5) [OF inv] by (auto simp: less_Suc_eq split: decision.splits)
    show "store_grows s (lp_store st')"
      using store_grows_trans [OF loop_invD(6) [OF inv] step_okD(4) [OF ok]] .
    show "\<forall>m. (\<forall>i < Suc n. \<not> withheld (inspect_tool_entries tools ! i) \<longrightarrow> tool_label (tools ! i) \<noteq> m) \<longrightarrow>
        hm_get (bs_tools (lp_store st')) m = hm_get (bs_tools s) m"
    proof (intro allI impI)
      fix m assume m: "\<forall>i < Suc n. \<not> withheld (inspect_tool_entries tools ! i) \<longrightarrow> tool_label (tools ! i) \<noteq> m"
      then have "hm_get (bs_tools (lp_store st)) m = hm_get (bs_tools s) m"
        using inv by (simp add: loop_inv_def)
      with m other show "hm_get (bs_tools (lp_store st')) m = hm_get (bs_tools s) m" by simp
    qed
    show "\<forall>i < Suc n. decision_at x ctx tools s i \<noteq> Abort"
      using loop_invD(7) [OF inv] not_abort by (auto simp: less_Suc_eq)
    show "\<forall>i < Suc n. decision_at x ctx tools s i = Keep \<longrightarrow> kept_ok x ctx (tools ! i) (lp_store st')"
    proof (intro allI impI)
      fix i assume i: "i < Suc n" "decision_at x ctx tools s i = Keep"
      show "kept_ok x ctx (tools ! i) (lp_store st')"
      proof (cases "i = n")
        case True
        show ?thesis using step_kept_ok [of x io ctx tools n "tools ! n" st st'] ok dec i(2) True by auto
      next
        case False
        with i loop_invD(8) [OF inv] have "kept_ok x ctx (tools ! i) (lp_store st)" by (simp add: less_Suc_eq)
        then show ?thesis by (rule kept_ok_grows [OF step_okD(4) [OF ok]])
      qed
    qed
    show "store_authentic (x_mac x) (x_ser x) s \<and> bs_key s = ac_hmac_key ctx \<longrightarrow>
        store_authentic (x_mac x) (x_ser x) (lp_store st')"
    proof
      assume a: "store_authentic (x_mac x) (x_ser x) s \<and> bs_key s = ac_hmac_key ctx"
      then have a': "store_authentic (x_mac x) (x_ser x) (lp_store st)" "bs_key (lp_store st) = ac_hmac_key ctx"
        using loop_invD(6,9) [OF inv] by (simp_all add: store_grows_def)
      show "store_authentic (x_mac x) (x_ser x) (lp_store st')"
      proof (cases "withheld ?def")
        case True
        then show ?thesis using a' analyze_tool_withheld [OF True] st' by simp
      next
        case False
        then obtain nm where "trimmed_name (tools ! n) = Some nm"
          using n by (auto simp: inspect_nth elim: not_withheldD)
        then have "get_str (tools ! n) ''name'' = Some (tool_label (tools ! n)) \<and> tool_label (tools ! n) \<noteq> []"
          using trimmed_name_label by blast
        with a' ok show ?thesis by (simp add: step_ok_def)
      qed
    qed
  qed
qed

lemma enumerate_drop: "n < length xs \<Longrightarrow> enumerate n (drop n xs) = (n, xs ! n) # enumerate (Suc n) (drop (Suc n) xs)"
  by (simp add: Cons_nth_drop_Suc [symmetric])

lemma loop_inv_loop:
  assumes "loop_inv x ctx tools s n st" "n \<le> length tools"
    and "st' = analyze_tools x io ctx tools (enumerate n (drop n tools)) st"
  shows "(\<not> lp_failed st' \<longrightarrow> loop_inv x ctx tools s (length tools) st') \<and>
    (lp_failed st' \<longrightarrow> (\<exists>i < length tools. decision_at x ctx tools s i = Abort))"
  using assms
proof (induction "length tools - n" arbitrary: n st)
  case 0
  then show ?case by (simp add: loop_inv_def)
next
  case (Suc k)
  then have n: "n < length tools" by simp
  let ?st = "analyze_tool x io ctx tools (inspect_tool_entries tools ! n) n (tools ! n) st"
  have st': "st' = (if lp_failed ?st then ?st else analyze_tools x io ctx tools (enumerate (Suc n) (drop (Suc n) tools)) ?st)"
    using Suc.prems(3) unfolding enumerate_drop [OF n] by (simp add: Let_def)
  show ?case
  proof (cases "lp_failed ?st")
    case True
    then show ?thesis using loop_inv_step(1) [OF Suc.prems(1) n refl, of io] n st' by auto
  next
    case False
    have "k = length tools - Suc n" using Suc(2) by simp
    from Suc.hyps(1) [OF this loop_inv_step(2) [OF Suc.prems(1) n refl False]] n st' False
    show ?thesis by simp
  qed
qed

lemma loop_result:
  assumes "st = analyze_tools x io ctx tools (enumerate 0 tools) (start_loop s)"
  shows "lp_failed st \<longleftrightarrow> (\<exists>i < length tools. decision_at x ctx tools s i = Abort)"
    and "\<not> lp_failed st \<Longrightarrow> loop_inv x ctx tools s (length tools) st"
  using loop_inv_loop [OF loop_inv_start, of tools st x io ctx s] assms
  by (auto simp: loop_inv_def)

end
