(* ===== verification/Listing_Trust.thy ===== *)
theory Listing_Trust
  imports Listing_Spec
begin

section \<open>What a client can rely on in a listing\<close>

text \<open>
  The properties of the \<^verbatim>\<open>tools/list\<close> analysis as a whole, on the loop invariant of
  \<open>Listing_Spec\<close>: what is sent, what the baseline vouches for, what first-contact approval
  guarantees, and that the events say neither more nor less than what was done.
\<close>

subsection \<open>The listing that is sent\<close>

text \<open>The abstract specification of the rewritten list: one decision per entry.\<close>

definition listing_of :: "Ext \<Rightarrow> AnalysisContext \<Rightarrow> json list \<Rightarrow> BaselineStore \<Rightarrow> json list" where
  "listing_of x ctx tools s =
     map (replacement x ctx tools s) (filter (\<lambda>i. decision_at x ctx tools s i \<noteq> Drop) [0..<length tools])
     @ secret_descriptors ctx"

lemma current_map: "loop_inv x ctx tools s (length tools) st \<Longrightarrow>
    current tools st = map (replacement x ctx tools s) [0..<length tools]"
  by (rule nth_equalityI) (simp_all add: loop_invD)

lemma enumerate_map_upt: "enumerate 0 (map f [0..<n]) = map (\<lambda>i. (i, f i)) [0..<n]"
  by (rule nth_equalityI) (simp_all add: nth_enumerate_eq)

lemma filtered_tools_eq:
  assumes "loop_inv x ctx tools s (length tools) st"
  shows "filtered_tools ctx tools st = listing_of x ctx tools s"
proof -
  have "filter (\<lambda>i. i \<notin> set (lp_blocked st)) [0..<length tools] =
      filter (\<lambda>i. decision_at x ctx tools s i \<noteq> Drop) [0..<length tools]"
    by (rule filter_cong) (auto simp: loop_invD(2) [OF assms])
  then show ?thesis
    unfolding filtered_tools_def current_def [symmetric] current_map [OF assms] enumerate_map_upt
    by (simp add: filter_map comp_def listing_of_def)
qed

lemma listed_toolsE:
  assumes "listed_tools msg = Some tools"
  obtains m where "rpc_result msg = Some (JObj m)" "map_of m ''tools'' = Some (JArr tools)"
proof (cases "rpc_result msg")
  case (Some v)
  with assms show ?thesis by (cases v) (auto simp: listed_tools_def bind_eq_Some_conv elim: as_array.elims intro: that)
qed (use assms in \<open>simp add: listed_tools_def\<close>)

lemma reload_store_fields:
  "store_authentic (x_mac x) (x_ser x) s \<Longrightarrow> store_authentic (x_mac x) (x_ser x) (snd (reload_store x io s))"
  "bs_key (snd (reload_store x io s)) = bs_key s"
proof -
  let ?r = "reload_if_changed (x_mac x) (x_ser x) (x_sha x) (x_parse_file x) (io_fs io) (io_fs_again io) s"
  have flags: "store_authentic (x_mac x) (x_ser x) (snd (reload_store x io s)) =
      store_authentic (x_mac x) (x_ser x) (snd ?r)" "bs_key (snd (reload_store x io s)) = bs_key (snd ?r)"
    by (auto simp: reload_store_def take_reload_failure_def store_authentic_def split: prod.splits sum.splits option.splits)
  show "store_authentic (x_mac x) (x_ser x) s \<Longrightarrow> store_authentic (x_mac x) (x_ser x) (snd (reload_store x io s))"
    unfolding flags by (rule reload_authentic [OF surjective_pairing])
  show "bs_key (snd (reload_store x io s)) = bs_key s"
  proof -
    obtain res s' where r: "?r = (res, s')" by fastforce
    show ?thesis unfolding flags r using r by (cases rule: reload_cases) (auto simp: adopt_fields)
  qed
qed

lemma persist_store_fields:
  "bs_tools (snd (persist_store x io s)) = bs_tools s"
  "bs_pending (snd (persist_store x io s)) = bs_pending s"
  "bs_revoked (snd (persist_store x io s)) = bs_revoked s"
  "bs_key (snd (persist_store x io s)) = bs_key s"
  using save_if_dirty_fields [of "x_pretty_file x" "x_sha x" "io_write io" s]
  by (auto simp: persist_store_def take_persist_failure_def split: prod.splits sum.splits option.splits)

text \<open>The outcome and the store of a whole analysis.\<close>

definition changes :: "Ext \<Rightarrow> AnalysisContext \<Rightarrow> json list \<Rightarrow> BaselineStore \<Rightarrow> bool" where
  "changes x ctx tools s \<longleftrightarrow> (\<exists>i < length tools. decision_at x ctx tools s i \<noteq> Keep)"

definition with_listing :: "JsonRpcMessage \<Rightarrow> json list \<Rightarrow> JsonRpcMessage" where
  "with_listing msg tools =
     (case rpc_result msg of
        Some (JObj m) \<Rightarrow> msg\<lparr>rpc_result := Some (JObj (obj_insert ''tools'' (JArr tools) m))\<rparr>
      | _ \<Rightarrow> msg)"

lemma analysis_outcome:
  assumes "listed_tools msg = Some tools"
    and "st = analyze_tools x io ctx tools (enumerate 0 tools) (start_loop (snd (reload_store x io s)))"
    and "s1 = snd (reload_store x io s)"
  shows "fst (analyze_tools_list x io ctx msg s) =
      (if \<exists>i < length tools. decision_at x ctx tools s1 i = Abort then Inl ''failed to fingerprint a tool schema''
       else if changes x ctx tools s1 \<or> secret_descriptors ctx \<noteq> []
       then Inr (Analyzed (Some (with_listing msg (listing_of x ctx tools s1))))
       else Inr (Analyzed None))"
    and "lp_failed st \<Longrightarrow> fst (snd (analyze_tools_list x io ctx msg s)) = lp_store st"
    and "\<not> lp_failed st \<Longrightarrow> fst (snd (analyze_tools_list x io ctx msg s)) = snd (persist_store x io (lp_store st))"
proof -
  obtain m where m: "rpc_result msg = Some (JObj m)" using assms(1) by (rule listed_toolsE)
  obtain ev where ev: "reload_store x io s = (ev, s1)" using assms(3) by (cases "reload_store x io s") simp
  have st: "st = analyze_tools x io ctx tools (enumerate 0 tools) (start_loop s1)" using assms by simp
  obtain pe s2 where pe: "persist_store x io (lp_store st) = (pe, s2)" by fastforce
  note unf = analyze_tools_list_def assms(1) option.case Let_def ev prod.case st [symmetric] pe
  have "fst (analyze_tools_list x io ctx msg s) =
      (if \<exists>i < length tools. decision_at x ctx tools s1 i = Abort then Inl ''failed to fingerprint a tool schema''
       else if changes x ctx tools s1 \<or> secret_descriptors ctx \<noteq> []
       then Inr (Analyzed (Some (with_listing msg (listing_of x ctx tools s1))))
       else Inr (Analyzed None)) \<and>
     (lp_failed st \<longrightarrow> fst (snd (analyze_tools_list x io ctx msg s)) = lp_store st) \<and>
     (\<not> lp_failed st \<longrightarrow> fst (snd (analyze_tools_list x io ctx msg s)) = s2)"
  proof (cases "lp_failed st")
    case True
    then show ?thesis using loop_result(1) [OF st] unfolding unf by simp
  next
    case False
    note inv = loop_result(2) [OF st False]
    have no: "\<not> (\<exists>i < length tools. decision_at x ctx tools s1 i = Abort)" using loop_result(1) [OF st] False by simp
    have "d \<noteq> Abort \<Longrightarrow> d \<noteq> Keep \<longleftrightarrow> d = Drop \<or> (\<exists>t. d = Replace t)" for d by (cases d) auto
    then have "lp_clean st = None \<and> set (lp_blocked st) = {} \<longleftrightarrow> \<not> changes x ctx tools s1"
      unfolding loop_invD(2,5) [OF inv] changes_def using no by blast
    then have enf: "(lp_clean st \<noteq> None \<or> lp_blocked st \<noteq> []) = changes x ctx tools s1" by auto
    have reb: "rebuild_response msg (filtered_tools ctx tools st) = Inr (with_listing msg (listing_of x ctx tools s1))"
      by (simp add: rebuild_response_def filtered_tools_eq [OF inv] with_listing_def m)
    show ?thesis using False no unfolding unf enf reb by simp
  qed
  then show "fst (analyze_tools_list x io ctx msg s) =
      (if \<exists>i < length tools. decision_at x ctx tools s1 i = Abort then Inl ''failed to fingerprint a tool schema''
       else if changes x ctx tools s1 \<or> secret_descriptors ctx \<noteq> []
       then Inr (Analyzed (Some (with_listing msg (listing_of x ctx tools s1))))
       else Inr (Analyzed None))"
    "lp_failed st \<Longrightarrow> fst (snd (analyze_tools_list x io ctx msg s)) = lp_store st"
    "\<not> lp_failed st \<Longrightarrow> fst (snd (analyze_tools_list x io ctx msg s)) = snd (persist_store x io (lp_store st))"
    by (simp_all add: pe)
qed

text \<open>What the client receives as the listing.\<close>

definition sent_tools :: "JsonRpcMessage \<Rightarrow> string + AnalysisOutcome \<Rightarrow> json list" where
  "sent_tools msg out =
     (case out of
        Inr (Analyzed (Some msg')) \<Rightarrow> (case listed_tools msg' of Some ts \<Rightarrow> ts | None \<Rightarrow> [])
      | Inr _ \<Rightarrow> (case listed_tools msg of Some ts \<Rightarrow> ts | None \<Rightarrow> [])
      | Inl _ \<Rightarrow> (case listed_tools msg of Some ts \<Rightarrow> ts | None \<Rightarrow> []))"

lemma listed_with_listing:
  "listed_tools msg = Some tools \<Longrightarrow> listed_tools (with_listing msg ts) = Some ts"
  by (erule listed_toolsE) (simp add: with_listing_def listed_tools_def)

lemma listing_unchanged:
  "\<not> changes x ctx tools s \<Longrightarrow> secret_descriptors ctx = [] \<Longrightarrow> listing_of x ctx tools s = tools"
  by (rule nth_equalityI)
    (auto simp: listing_of_def changes_def replacement_def cong: filter_cong map_cong intro!: nth_equalityI)

lemma sent_tools_eq:
  assumes "listed_tools msg = Some tools" "fst (analyze_tools_list x io ctx msg s) = Inr out"
  shows "sent_tools msg (Inr out) = listing_of x ctx tools (snd (reload_store x io s))"
  using analysis_outcome(1) [OF assms(1) refl refl, of x io ctx s] assms
    listing_unchanged [of x ctx tools "snd (reload_store x io s)"]
  by (auto simp: sent_tools_def listed_with_listing split: if_splits)

subsection \<open>What is in the listing\<close>

lemma in_listing_of:
  assumes "t \<in> set (listing_of x ctx tools s)" "t \<notin> set (secret_descriptors ctx)"
  obtains i where "i < length tools" "decision_at x ctx tools s i \<noteq> Drop" "t = replacement x ctx tools s i"
  using assms by (auto simp: listing_of_def)

lemma decide_not_Drop:
  assumes "decide x ctx defect tool s \<noteq> Drop"
  shows "\<not> withheld defect" "\<not> shadowed ctx (tool_label tool)" "\<not> is_revoked s (tool_label tool)"
    and "ac_first_contact ctx = Approve \<Longrightarrow> decide x ctx defect tool s \<noteq> Abort \<Longrightarrow> contains s (tool_label tool)"
  using assms by (auto simp: decide_def Let_def split: if_splits option.splits)

lemma decide_Keep_clean:
  "decide x ctx defect tool s = Keep \<Longrightarrow> ac_mode ctx = Enforce \<Longrightarrow> scan_description (description_of tool) = []"
  by (auto simp: decide_def Let_def split: if_splits option.splits)

lemma decide_Replace:
  "decide x ctx defect tool s = Replace t \<Longrightarrow> ac_mode ctx = Enforce \<and>
    (\<exists>e. hm_get (bs_tools s) (tool_label tool) = Some e \<and> entry_tool e = t)"
  by (auto simp: decide_def Let_def split: if_splits option.splits)

lemma unwithheld_name:
  assumes "\<not> withheld (inspect_tool_entries tools ! i)" "i < length tools"
  shows "get_str (tools ! i) ''name'' = Some (tool_label (tools ! i)) \<and> tool_label (tools ! i) \<noteq> []"
proof -
  obtain nm where "trimmed_name (tools ! i) = Some nm"
    using assms by (auto simp: inspect_nth elim: not_withheldD)
  then show ?thesis using trimmed_name_label by blast
qed

lemma authentic_not_null: "authentic mac ser k (n, e) \<Longrightarrow> \<not> is_null (entry_tool e)"
  by (auto simp: authentic_def get_str_Some is_null_def)

text \<open>One entry of the listing against the final store.\<close>

definition vouched :: "Ext \<Rightarrow> AnalysisContext \<Rightarrow> BaselineStore \<Rightarrow> json \<Rightarrow> bool" where
  "vouched x ctx s t \<longleftrightarrow>
     (case get_str t ''name'' of
        None \<Rightarrow> False
      | Some n \<Rightarrow> \<not> is_revoked s n \<and> \<not> shadowed ctx n \<and>
          (case hm_get (bs_tools s) n of
             None \<Rightarrow> False
           | Some e \<Rightarrow> fingerprint_tool (x_mac x) (x_ser x) (ac_hmac_key ctx) t = Some (entry_hash e) \<and>
               (scan_description (description_of t) = [] \<or> t = entry_tool e)))"

lemma vouched_cong: "bs_tools s' = bs_tools s \<Longrightarrow> bs_revoked s' = bs_revoked s \<Longrightarrow> vouched x ctx s' t = vouched x ctx s t"
  by (simp add: vouched_def is_revoked_def cong: option.case_cong)

lemma listing_vouched:
  assumes inv: "loop_inv x ctx tools s (length tools) st" and enf: "ac_mode ctx = Enforce"
    and auth: "store_authentic (x_mac x) (x_ser x) s" "bs_key s = ac_hmac_key ctx"
    and t: "t \<in> set (listing_of x ctx tools s)" "t \<notin> set (secret_descriptors ctx)"
  shows "vouched x ctx (lp_store st) t"
proof -
  obtain i where i: "i < length tools" and nd: "decision_at x ctx tools s i \<noteq> Drop"
      and rep: "t = replacement x ctx tools s i" using t by (rule in_listing_of)
  note d = decide_not_Drop [OF nd [unfolded decision_at_def]]
  note nm = unwithheld_name [OF d(1) i]
  note auth' = loop_invD(9) [OF inv auth]
  note grows = loop_invD(6) [OF inv]
  have key: "bs_key (lp_store st) = ac_hmac_key ctx" using grows auth(2) by (simp add: store_grows_def)
  have rev: "\<not> is_revoked (lp_store st) (tool_label (tools ! i))"
    using d(3) grows by (simp add: store_grows_def is_revoked_def)
  show ?thesis
  proof (cases "decision_at x ctx tools s i")
    case Keep
    then have t_eq: "t = tools ! i" using rep by (simp add: replacement_def)
    obtain h e where h: "fingerprint_tool (x_mac x) (x_ser x) (ac_hmac_key ctx) (tools ! i) = Some h"
        "hm_get (bs_tools (lp_store st)) (tool_label (tools ! i)) = Some e"
        "\<not> is_null (entry_tool e) \<longrightarrow> entry_hash e = h"
      using loop_invD(8) [OF inv i Keep] enf by (auto simp: kept_ok_def)
    have "entry_hash e = h" using h(3) authentic_not_null [OF authentic_lookup(1) [OF auth' h(2)]] by simp
    then show ?thesis using h nm rev d(2) decide_Keep_clean [OF Keep [unfolded decision_at_def] enf]
      by (simp add: vouched_def t_eq)
  next
    case (Replace u)
    then have t_eq: "t = u" using rep by (simp add: replacement_def)
    obtain e where e: "hm_get (bs_tools s) (tool_label (tools ! i)) = Some e" "entry_tool e = u"
      using decide_Replace [OF Replace [unfolded decision_at_def]] by blast
    have e': "hm_get (bs_tools (lp_store st)) (tool_label (tools ! i)) = Some e"
      using grows e(1) by (simp add: store_grows_def)
    have "authentic (x_mac x) (x_ser x) (ac_hmac_key ctx) (tool_label (tools ! i), e)"
      using authentic_lookup(1) [OF auth' e'] key by simp
    then show ?thesis using e e' rev d(2) by (simp add: vouched_def t_eq authentic_def)
  qed (use nd loop_invD(7) [OF inv i] in simp_all)
qed

subsection \<open>First contact under approval\<close>

lemma approve_registers_nothing:
  assumes "ac_first_contact ctx = Approve"
  shows "bs_tools (lp_store (analyze_tool x io ctx tools defect i tool st)) = bs_tools (lp_store st)"
proof -
  have snd_if: "bs_tools (snd (check now n h d t s)) = bs_tools s" if "contains s n" for now n h d t s
    using that by (auto simp: check_cases contains_def hm_contains_def split: option.splits)
  have "bs_tools (lp_store (analyze_sound_tool x io ctx tools i tool st')) = bs_tools (lp_store st')" for st'
    using assms snd_if check_tool_fields(1) [OF refl, where st = st' and tool = tool and x = x and io = io and ctx = ctx and tools = tools and i = i] register_pending_tools
    unfolding analyze_sound_tool_def Let_def
    by (simp add: report_findings_fields split: option.splits prod.splits) (metis fst_conv snd_conv)
  moreover have "bs_tools (lp_store (case defect of Some d \<Rightarrow> report_defect n d st | None \<Rightarrow> st)) = bs_tools (lp_store st)" for n
    by (simp split: option.splits)
  ultimately show ?thesis by (simp add: analyze_tool_def Let_def)
qed

lemma approve_registers_nothing_loop:
  "ac_first_contact ctx = Approve \<Longrightarrow>
    bs_tools (lp_store (analyze_tools x io ctx tools its st)) = bs_tools (lp_store st)"
  by (induction x io ctx tools its st rule: analyze_tools.induct)
    (simp_all add: Let_def approve_registers_nothing)

subsection \<open>The ledger does not overstate\<close>

definition enforcement_actions :: "string list" where
  "enforcement_actions =
     [''withheld_malformed'', ''withheld_revoked'', ''blocked_first_contact'', ''withheld_pending_approval'',
      ''rewritten'', ''restored_baseline'', ''blocked'']"

definition claims_action :: "json \<Rightarrow> bool" where
  "claims_action details \<longleftrightarrow>
     (case get_str details ''action'' of Some a \<Rightarrow> a \<in> set enforcement_actions | None \<Rightarrow> False)"

definition honest_event :: "bool \<Rightarrow> DeferredEvent \<Rightarrow> bool" where
  "honest_event enforced e \<longleftrightarrow>
     (\<exists>m. de_details e = JObj m) \<and>
     (if claims_enforcement e then enforced else \<not> claims_action (de_details e))"

definition enforces :: "Loop \<Rightarrow> bool" where
  "enforces st \<longleftrightarrow> lp_clean st \<noteq> None \<or> lp_blocked st \<noteq> []"

definition honest :: "Loop \<Rightarrow> bool" where
  "honest st \<longleftrightarrow> list_all (honest_event (enforces st)) (lp_deferred st)"

text \<open>An event may be deferred before the effect it claims takes place.\<close>

definition honest_if :: "bool \<Rightarrow> Loop \<Rightarrow> bool" where
  "honest_if b st \<longleftrightarrow> list_all (honest_event b) (lp_deferred st)"

lemma honest_eventI: "honest_event b e \<Longrightarrow> b \<longrightarrow> b' \<Longrightarrow> honest_event b' e"
  by (auto simp: honest_event_def split: if_splits)

lemma honest_if_mono: "honest_if b st \<Longrightarrow> b \<longrightarrow> b' \<Longrightarrow> honest_if b' st"
  by (auto simp: honest_if_def list_all_iff intro: honest_eventI)

lemma honest_honest_if: "honest st = honest_if (enforces st) st"
  by (simp add: honest_def honest_if_def)

lemma honest_if_defer:
  "honest_if b (defer_event t sv (JObj m) c st) \<longleftrightarrow>
     honest_if b st \<and> (if c then b else \<not> claims_action (JObj m))"
  by (auto simp: honest_if_def honest_event_def)

lemma honest_if_same [simp]:
  "honest_if b (block_tool i st) = honest_if b st"
  "honest_if b (st\<lparr>lp_store := s\<rparr>) = honest_if b st"
  "honest_if b (st\<lparr>lp_clean := c\<rparr>) = honest_if b st"
  "honest_if b (st\<lparr>lp_failed := f\<rparr>) = honest_if b st"
  by (simp_all add: honest_if_def block_tool_def)

lemma claims_action_simps:
  "claims_action (JObj [(''action'', JStr ''analysed''), (''reason'', r), (''tool'', n)]) = False"
  "claims_action (JObj [(''hash'', h), (''tool'', n)]) = False"
  "claims_action (JObj [(''action'', JStr ''reported''), (''findings'', f), (''tool'', n)]) = False"
  "claims_action (JObj ((''action'', JStr ''forwarded'') # rest)) = False"
  "claims_action (JObj [(''action'', JStr ''continued_with_last_known_good_baseline''), (''error'', e)]) = False"
  "claims_action (JObj [(''action'', JStr ''baseline_not_persisted''), (''error'', e)]) = False"
  "claims_action (JObj [(''error'', e)]) = False"
  "claims_action (JObj [(''reason'', e)]) = False"
  by (simp_all add: claims_action_def get_str_def enforcement_actions_def)

lemma blocked_enforces: "enforces (block_tool i st)"
proof -
  have "i \<in> set (lp_blocked (block_tool i st))" by simp
  then have "lp_blocked (block_tool i st) \<noteq> []" by force
  then show ?thesis by (simp add: enforces_def)
qed

lemma enforces_mono:
  assumes "step_ok x io ctx tools i tool d st st'" "enforces st"
  shows "enforces st'"
proof -
  have "lp_blocked st' \<noteq> []" if "lp_blocked st \<noteq> []"
  proof -
    have "set (lp_blocked st) \<subseteq> set (lp_blocked st')" using step_okD(2) [OF assms(1)] by auto
    moreover have "set (lp_blocked st) \<noteq> {}" using that by simp
    ultimately show ?thesis by force
  qed
  moreover have "lp_clean st' \<noteq> None" if "lp_clean st \<noteq> None"
    using step_okD(3) [OF assms(1)] that by (simp split: decision.splits)
  ultimately show ?thesis using assms(2) by (auto simp: enforces_def)
qed

lemma check_tool_honest:
  "honest_if b (fst (check_tool x io ctx tools i tool h st)) \<longleftrightarrow>
     honest_if b st \<and> (snd (check_tool x io ctx tools i tool h st) \<longrightarrow> b)"
  by (auto simp: check_tool_def Let_def honest_if_defer claims_action_simps split: prod.splits Verdict.splits)

lemma report_findings_honest:
  "honest_if b (report_findings ctx i n fs r st) \<longleftrightarrow>
     honest_if b st \<and> (fs \<noteq> [] \<and> ac_mode ctx = Enforce \<longrightarrow> b)"
  by (auto simp: report_findings_def Let_def honest_if_defer claims_action_simps)

lemma analyze_sound_tool_honest:
  assumes "honest_if b st" "b = enforces (analyze_sound_tool x io ctx tools i tool st)"
  shows "honest_if b (analyze_sound_tool x io ctx tools i tool st)"
proof (cases rule: analyze_sound_tool_cases [of st tool ctx x io tools i])
  case (drop t sv m)
  have b using assms(2) blocked_enforces [of i st] unfolding drop(2) by (simp add: enforces_def)
  then show ?thesis using assms(1) unfolding drop(2) by (simp add: honest_if_defer)
next
  case abort
  then show ?thesis using assms(1) by simp
next
  case (park h t sv m)
  let ?st0 = "st\<lparr>lp_store := snd (register_pending (io_now io) (tool_label tool) h (description_of tool) tool (lp_store st))\<rparr>"
  have b using assms(2) blocked_enforces [of i ?st0] unfolding park(6) by (simp add: enforces_def)
  then show ?thesis using assms(1) unfolding park(6) by (simp add: honest_if_defer)
next
  case (check h)
  let ?c = "check_tool x io ctx tools i tool h st"
  note f = check_tool_fields [OF refl, where st = st and tool = tool and x = x and io = io and ctx = ctx
      and tools = tools and i = i and h = h]
  have "b" if "snd ?c"
  proof -
    have "lp_clean (fst ?c) \<noteq> None" using that unfolding f(4,5) by auto
    then show ?thesis using assms(2) unfolding check(5) by (simp add: enforces_def report_findings_fields)
  qed
  moreover have "b" if "scan_description (description_of tool) \<noteq> []" "ac_mode ctx = Enforce" "\<not> snd ?c"
  proof -
    have "i \<in> set (lp_blocked (analyze_sound_tool x io ctx tools i tool st))"
      unfolding check(5) report_findings_fields using that by simp
    then show ?thesis using assms(2) by (auto simp: enforces_def)
  qed
  ultimately show ?thesis using assms(1) unfolding check(5)
    by (auto simp: report_findings_honest check_tool_honest)
qed

lemma analyze_tool_honest:
  assumes "honest st"
  shows "honest (analyze_tool x io ctx tools defect i tool st)"
proof -
  let ?st' = "analyze_tool x io ctx tools defect i tool st"
  have h: "honest_if (enforces ?st') st"
    using assms enforces_mono [OF analyze_tool_step] unfolding honest_honest_if by (blast intro: honest_if_mono)
  define st1 where "st1 = (case defect of Some d \<Rightarrow> report_defect (tool_label tool) d st | None \<Rightarrow> st)"
  have st1: "honest_if b st1 \<longleftrightarrow> honest_if b st \<and> (withheld defect \<longrightarrow> b)" for b
    by (auto simp: st1_def report_defect_def honest_if_defer claims_action_simps withheld_def split: option.splits)
  have eq: "?st' = (if withheld defect \<or> shadowed ctx (tool_label tool) then block_tool i st1
      else analyze_sound_tool x io ctx tools i tool st1)"
    by (auto simp: analyze_tool_def Let_def st1_def withheld_def split: option.splits)
  show ?thesis
  proof (cases "withheld defect \<or> shadowed ctx (tool_label tool)")
    case True
    then show ?thesis using h st1 [of "enforces ?st'"] blocked_enforces [of i st1]
      unfolding honest_honest_if eq by simp
  next
    case False
    then have "honest_if (enforces ?st') st1" using h st1 by simp
    then show ?thesis
      using analyze_sound_tool_honest [of "enforces ?st'" st1 x io ctx tools i tool] False
      unfolding honest_honest_if eq by simp
  qed
qed

lemma analyze_tools_honest: "honest st \<Longrightarrow> honest (analyze_tools x io ctx tools its st)"
  by (induction x io ctx tools its st rule: analyze_tools.induct) (simp_all add: Let_def analyze_tool_honest)

lemma emit_deferred_unapplied:
  "list_all (honest_event b) ds \<Longrightarrow> \<not> applied \<Longrightarrow>
    list_all (\<lambda>e. \<not> claims_action (ev_details e)) (emit_deferred ds trace applied)"
  by (auto simp: list_all_iff emit_deferred_def emit_traced_def restate_def honest_event_def claims_action_def
      get_str_def enforcement_actions_def split: if_splits)

subsection \<open>A changed tool is reported\<close>

lemma check_tool_deferred: "set (lp_deferred st) \<subseteq> set (lp_deferred (fst (check_tool x io ctx tools i tool h st)))"
  by (auto simp: check_tool_def Let_def split: prod.splits Verdict.splits)

lemma report_findings_deferred: "set (lp_deferred st) \<subseteq> set (lp_deferred (report_findings ctx i n fs r st))"
  by (auto simp: report_findings_def Let_def)

lemma analyze_tool_deferred:
  "set (lp_deferred st) \<subseteq> set (lp_deferred (analyze_tool x io ctx tools defect i tool st))"
proof -
  have sound: "set (lp_deferred st1) \<subseteq> set (lp_deferred (analyze_sound_tool x io ctx tools i tool st1))" for st1
  proof (cases rule: analyze_sound_tool_cases [of st1 tool ctx x io tools i])
    case (check h)
    show ?thesis unfolding check(5) by (rule subset_trans [OF check_tool_deferred report_findings_deferred])
  qed auto
  have "set (lp_deferred st) \<subseteq> set (lp_deferred (case defect of Some d \<Rightarrow> report_defect n d st | None \<Rightarrow> st))" for n
    by (auto simp: report_defect_def split: option.splits)
  with sound show ?thesis unfolding analyze_tool_def Let_def by (auto split: option.splits; blast)
qed

lemma analyze_tools_deferred:
  "set (lp_deferred st) \<subseteq> set (lp_deferred (analyze_tools x io ctx tools its st))"
  by (induction x io ctx tools its st rule: analyze_tools.induct)
    (simp_all add: Let_def, meson analyze_tool_deferred subset_trans)

text \<open>The loop reaches every entry, with the decisions of the earlier ones taken.\<close>

lemma loop_visits:
  assumes "loop_inv x ctx tools s n st" "n \<le> i" "i < length tools"
    and "st' = analyze_tools x io ctx tools (enumerate n (drop n tools)) st" "\<not> lp_failed st'"
  shows "\<exists>sti. loop_inv x ctx tools s i sti \<and>
    set (lp_deferred (analyze_tool x io ctx tools (inspect_tool_entries tools ! i) i (tools ! i) sti))
      \<subseteq> set (lp_deferred st')"
  using assms
proof (induction "i - n" arbitrary: n st)
  case 0
  then have n: "n = i" "n < length tools" by simp_all
  have "st' = (let st1 = analyze_tool x io ctx tools (inspect_tool_entries tools ! n) n (tools ! n) st in
      if lp_failed st1 then st1 else analyze_tools x io ctx tools (enumerate (Suc n) (drop (Suc n) tools)) st1)"
    using 0(5) unfolding enumerate_drop [OF n(2)] by simp
  then have "set (lp_deferred (analyze_tool x io ctx tools (inspect_tool_entries tools ! n) n (tools ! n) st))
      \<subseteq> set (lp_deferred st')"
    using analyze_tools_deferred by (simp add: Let_def)
  then show ?case using 0(2) n(1) by blast
next
  case (Suc k)
  then have n: "n < length tools" "k = i - Suc n" "Suc n \<le> i" by simp_all
  let ?st = "analyze_tool x io ctx tools (inspect_tool_entries tools ! n) n (tools ! n) st"
  have st': "st' = (if lp_failed ?st then ?st else analyze_tools x io ctx tools (enumerate (Suc n) (drop (Suc n) tools)) ?st)"
    using Suc.prems(4) unfolding enumerate_drop [OF n(1)] by (simp add: Let_def)
  with Suc.prems(5) have nf: "\<not> lp_failed ?st" by (auto split: if_splits)
  have "st' = analyze_tools x io ctx tools (enumerate (Suc n) (drop (Suc n) tools)) ?st" using st' nf by simp
  from Suc.hyps(1) [OF n(2) loop_inv_step(2) [OF Suc.prems(1) n(1) refl nf] n(3) Suc.prems(3) this Suc.prems(5)]
  show ?case .
qed

text \<open>The tool at an index no longer has the fingerprint it was trusted with.\<close>

definition rug_pulled ::
  "Ext \<Rightarrow> AnalysisContext \<Rightarrow> json list \<Rightarrow> BaselineStore \<Rightarrow> nat \<Rightarrow> BaselineEntry \<Rightarrow> bool" where
  "rug_pulled x ctx tools s i e \<longleftrightarrow>
     i < length tools \<and> \<not> withheld (inspect_tool_entries tools ! i) \<and>
     (let name = tool_label (tools ! i) in
       \<not> shadowed ctx name \<and> \<not> is_revoked s name \<and> contains s name \<and>
       hm_get (bs_tools s) name = Some e \<and> \<not> is_null (entry_tool e) \<and>
       (case fingerprint_tool (x_mac x) (x_ser x) (ac_hmac_key ctx) (tools ! i) of
          Some h \<Rightarrow> h \<noteq> entry_hash e | None \<Rightarrow> False))"

lemma rug_pulled_decision:
  "rug_pulled x ctx tools s i e \<Longrightarrow>
    decision_at x ctx tools s i = (if ac_mode ctx = Enforce then Replace (entry_tool e) else Keep)"
  by (auto simp: rug_pulled_def decision_at_def decide_def Let_def split: option.splits)

definition mismatch_event :: "AnalysisContext \<Rightarrow> json \<Rightarrow> DeferredEvent \<Rightarrow> bool" where
  "mismatch_event ctx tool e \<longleftrightarrow>
     de_type e = ''schema_mismatch'' \<and> de_severity e = Critical \<and>
     claims_enforcement e = (ac_mode ctx = Enforce) \<and>
     get_str (de_details e) ''tool'' = Some (tool_label tool) \<and>
     get_str (de_details e) ''action'' = Some (if ac_mode ctx = Enforce then ''rewritten'' else ''forwarded'')"

lemma check_tool_mismatch:
  assumes "hm_get (bs_tools (lp_store st)) (tool_label tool) = Some e" "entry_hash e \<noteq> h" "\<not> is_null (entry_tool e)"
  shows "\<exists>ev \<in> set (lp_deferred (fst (check_tool x io ctx tools i tool h st))). mismatch_event ctx tool ev"
  using assms
  by (auto simp: check_tool_def Let_def check_cases mismatch_event_def get_str_def)

lemma rug_pulled_reported:
  assumes rp: "rug_pulled x ctx tools s i e"
    and st: "st = analyze_tools x io ctx tools (enumerate 0 tools) (start_loop s)" "\<not> lp_failed st"
  shows "\<exists>ev \<in> set (lp_deferred st). mismatch_event ctx (tools ! i) ev"
proof -
  let ?tool = "tools ! i" and ?def = "inspect_tool_entries tools ! i"
  obtain h where h: "i < length tools" "\<not> withheld ?def" "\<not> shadowed ctx (tool_label ?tool)"
      "\<not> is_revoked s (tool_label ?tool)" "contains s (tool_label ?tool)"
      "hm_get (bs_tools s) (tool_label ?tool) = Some e" "\<not> is_null (entry_tool e)"
      "fingerprint_tool (x_mac x) (x_ser x) (ac_hmac_key ctx) ?tool = Some h" "h \<noteq> entry_hash e"
    using rp by (auto simp: rug_pulled_def Let_def split: option.splits)
  obtain sti where inv: "loop_inv x ctx tools s i sti" and sub:
      "set (lp_deferred (analyze_tool x io ctx tools ?def i ?tool sti)) \<subseteq> set (lp_deferred st)"
    using loop_visits [OF loop_inv_start _ h(1), of st x io ctx s] st by auto
  define st1 where "st1 = (case ?def of Some d \<Rightarrow> report_defect (tool_label ?tool) d sti | None \<Rightarrow> sti)"
  have eq: "analyze_tool x io ctx tools ?def i ?tool sti = analyze_sound_tool x io ctx tools i ?tool st1"
    using h(2,3) by (auto simp: analyze_tool_def Let_def st1_def withheld_def split: option.splits)
  have store: "lp_store st1 = lp_store sti" by (simp add: st1_def split: option.splits)
  have grows: "store_grows s (lp_store st1)" using loop_invD(6) [OF inv] store by simp
  then have same: "hm_get (bs_tools (lp_store st1)) (tool_label ?tool) = Some e"
      "\<not> is_revoked (lp_store st1) (tool_label ?tool)" "contains (lp_store st1) (tool_label ?tool)"
    using h by (simp_all add: store_grows_def is_revoked_def)
  show ?thesis
  proof (cases rule: analyze_sound_tool_cases [of st1 ?tool ctx x io tools i])
    case (check h')
    then have "h' = h" using h(8) by simp
    then have "\<exists>ev \<in> set (lp_deferred (analyze_sound_tool x io ctx tools i ?tool st1)). mismatch_event ctx ?tool ev"
      unfolding check(5) using check_tool_mismatch [OF same(1) h(9) [symmetric] h(7), of x io ctx tools i]
        subsetD [OF report_findings_deferred] by blast
    then show ?thesis using sub eq by auto
  qed (use same h(8) in simp_all)
qed

lemma rug_pulled_in_listing:
  assumes "rug_pulled x ctx tools s i e"
  shows "(if ac_mode ctx = Enforce then entry_tool e else tools ! i) \<in> set (listing_of x ctx tools s)"
proof -
  have "i \<in> set (filter (\<lambda>i. decision_at x ctx tools s i \<noteq> Drop) [0..<length tools])"
    "replacement x ctx tools s i = (if ac_mode ctx = Enforce then entry_tool e else tools ! i)"
    using assms rug_pulled_decision [OF assms] by (auto simp: rug_pulled_def replacement_def)
  then show ?thesis unfolding listing_of_def by force
qed

subsection \<open>The events of an analysis\<close>

lemma analysis_enforced:
  assumes "loop_inv x ctx tools s (length tools) st"
  shows "(lp_clean st \<noteq> None \<or> lp_blocked st \<noteq> []) = changes x ctx tools s"
proof -
  have "d \<noteq> Abort \<Longrightarrow> d \<noteq> Keep \<longleftrightarrow> d = Drop \<or> (\<exists>t. d = Replace t)" for d by (cases d) auto
  then have "lp_clean st = None \<and> set (lp_blocked st) = {} \<longleftrightarrow> \<not> changes x ctx tools s"
    unfolding loop_invD(2,5) [OF assms] changes_def using loop_invD(7) [OF assms] by blast
  then show ?thesis by auto
qed

lemma store_events_plain:
  "list_all (\<lambda>e. \<not> claims_action (ev_details e)) (lock_events io)"
  "list_all (\<lambda>e. \<not> claims_action (ev_details e)) (fst (reload_store x io s))"
  "list_all (\<lambda>e. \<not> claims_action (ev_details e)) (fst (persist_store x io s))"
  by (auto simp: lock_events_def reload_store_def persist_store_def emit_traced_def claims_action_simps
      split: option.splits prod.splits sum.splits)

lemma analysis_events:
  assumes "listed_tools msg = Some tools"
    and "s1 = snd (reload_store x io s)"
    and st: "st = analyze_tools x io ctx tools (enumerate 0 tools) (start_loop s1)"
  shows "\<exists>before. snd (snd (analyze_tools_list x io ctx msg s)) =
      before @ emit_deferred (lp_deferred st) (io_trace io) (\<not> lp_failed st \<and> changes x ctx tools s1) \<and>
    list_all (\<lambda>e. \<not> claims_action (ev_details e)) before"
proof -
  obtain m where m: "rpc_result msg = Some (JObj m)" using assms(1) by (rule listed_toolsE)
  obtain ev where ev: "reload_store x io s = (ev, s1)" using assms(2) by (cases "reload_store x io s") simp
  obtain pe s2 where pe: "persist_store x io (lp_store st) = (pe, s2)" by fastforce
  note unf = analyze_tools_list_def assms(1) option.case Let_def ev prod.case st [symmetric] pe
  have plain: "list_all (\<lambda>e. \<not> claims_action (ev_details e)) (lock_events io @ ev)"
      "list_all (\<lambda>e. \<not> claims_action (ev_details e)) (lock_events io @ ev @ pe)"
    using store_events_plain(1) [of io] store_events_plain(2) [of x io s]
      store_events_plain(3) [of x io "lp_store st"] by (simp_all add: ev pe)
  show ?thesis
  proof (cases "lp_failed st")
    case True
    show ?thesis
      by (rule exI [of _ "lock_events io @ ev"]) (use plain(1) True in \<open>simp add: unf\<close>)
  next
    case False
    note inv = loop_result(2) [OF st False]
    have reb: "rebuild_response msg (filtered_tools ctx tools st) = Inr (with_listing msg (listing_of x ctx tools s1))"
      by (simp add: rebuild_response_def filtered_tools_eq [OF inv] with_listing_def m)
    show ?thesis
      by (rule exI [of _ "lock_events io @ ev @ pe"], unfold unf analysis_enforced [OF inv] reb)
        (use plain(2) False in simp)
  qed
qed

text \<open>An analysis that completed.\<close>

lemma completed:
  assumes "listed_tools msg = Some tools" "analyze_tools_list x io ctx msg s = (Inr out, s', evs)"
    and s1_def: "s1 = snd (reload_store x io s)"
    and st_def: "st = analyze_tools x io ctx tools (enumerate 0 tools) (start_loop s1)"
  shows "\<not> lp_failed st" and "loop_inv x ctx tools s1 (length tools) st"
    and "s' = snd (persist_store x io (lp_store st))"
    and "sent_tools msg (Inr out) = listing_of x ctx tools s1"
    and "i < length tools \<Longrightarrow> decision_at x ctx tools s1 i \<noteq> Abort"
proof -
  note o = analysis_outcome [OF assms(1) st_def [unfolded s1_def] s1_def, unfolded assms(2) fst_conv snd_conv]
  show nf: "\<not> lp_failed st" using o(1) loop_result(1) [OF st_def] by (auto split: if_splits)
  then show inv: "loop_inv x ctx tools s1 (length tools) st" by (rule loop_result(2) [OF st_def])
  show "s' = snd (persist_store x io (lp_store st))" by (rule o(3) [OF nf])
  show "sent_tools msg (Inr out) = listing_of x ctx tools s1"
    using sent_tools_eq [OF assms(1), of x io ctx s out] assms(2) by (simp add: s1_def)
  show "i < length tools \<Longrightarrow> decision_at x ctx tools s1 i \<noteq> Abort" by (rule loop_invD(7) [OF inv])
qed

subsection \<open>Concrete values for the witnesses\<close>

definition demo_ext :: Ext where
  "demo_ext = \<lparr>x_mac = demo_mac, x_ser = demo_ser, x_sha = (\<lambda>raw. raw), x_sha_hex = (\<lambda>t. ''digest''),
     x_parse_file = demo_parse, x_pretty_file = (\<lambda>f. Some ''F''), x_key_err = ''bad key''\<rparr>"

text \<open>The file is unchanged since it was loaded, and a write would succeed.\<close>

definition demo_io :: IO where
  "demo_io = \<lparr>io_now = 7, io_trace = ''trace'', io_lock_error = None, io_fs = demo_fs ''F'',
     io_fs_again = demo_fs ''F'', io_write = Inr None\<rparr>"

definition demo_ctx :: "ShieldMode \<Rightarrow> FirstContact \<Rightarrow> AnalysisContext" where
  "demo_ctx mode first = \<lparr>ac_hmac_key = ''k'', ac_mode = mode, ac_first_contact = first, ac_boundary = None\<rparr>"

definition demo_listing :: "json list \<Rightarrow> JsonRpcMessage" where
  "demo_listing tools = \<lparr>rpc_jsonrpc = Some ''2.0'', rpc_id = Some (JNum (PosInt 1)), rpc_method = None,
     rpc_params = None, rpc_result = Some (JObj [(''tools'', JArr tools)]), rpc_error = None\<rparr>"

lemma demo_reload: "reload_store demo_ext demo_io demo_loaded = ([], demo_loaded)"
  by (simp add: reload_store_def reload_if_changed_def demo_ext_def demo_io_def demo_fs_def demo_loaded_def
      demo_store_def empty_store_def)

lemma demo_listed: "listed_tools (demo_listing tools) = Some tools"
  by (simp add: listed_tools_def demo_listing_def)

lemma demo_loaded_authentic: "store_authentic demo_mac demo_ser demo_loaded"
  using demo_store_authentic [of "''t''" "''d''"] by (simp add: demo_loaded_def store_authentic_def)

lemma demo_hash: "fingerprint_tool demo_mac demo_ser k (demo_tool ''t'' ''evil'') \<noteq>
    Some (entry_hash (demo_entry k ''t'' ''d''))"
proof -
  have sorted: "sort_key fst [(''name'', v), (''description'', w)] = [(''description'', w), (''name'', v)]"
    for v w :: json by (simp add: str_defs)
  show ?thesis
    by (simp add: fingerprint_tool_def demo_mac_def demo_entry_def make_entry_def demo_tool_def sorted)
qed

lemma demo_inspect:
  "inspect_tool_entries [demo_tool ''t'' d] =
     [Some \<lparr>defect_reason = ''tool '' @ debug_str ''t'' @ '' has no object inputSchema'', withhold = False\<rparr>]"
  by (simp add: inspect_tool_entries_def inspect_tool_entry_def demo_tool_def trimmed_name_def name_count_def
      get_str_def MAX_TOOL_NAME_LENGTH_def trim_def str_defs Let_def)

lemma demo_null: "is_null (demo_tool n d) = False"
  by (simp add: is_null_def demo_tool_def)

lemma demo_rug_pull:
  "rug_pulled demo_ext (demo_ctx mode first) [demo_tool ''t'' ''evil''] demo_loaded 0 (demo_entry ''k'' ''t'' ''d'')"
proof -
  have "tool_label (demo_tool ''t'' ''evil'') = ''t''"
    by (simp add: tool_label_def demo_tool_def get_str_def unwrap_or_def)
  moreover have "\<not> withheld (inspect_tool_entries [demo_tool ''t'' ''evil''] ! 0)"
    by (simp add: demo_inspect withheld_def)
  ultimately show ?thesis
    using demo_hash [of "''k''"]
    by (simp add: rug_pulled_def shadowed_def demo_ctx_def is_revoked_def demo_loaded_def
        demo_store_def empty_store_def contains_def hm_contains_def demo_entry_def make_entry_def demo_null demo_ext_def fingerprint_tool_def demo_mac_def cong del: if_weak_cong)
qed

subsection \<open>Properties\<close>

text \<open>
  C23: the loop, with its mutable store, its index set and its lazily copied list, implements one
  decision per advertised tool, taken against the store as it was after the reload: the listing
  is forwarded unchanged exactly if every decision is to keep and the boundary has no
  descriptors of its own; otherwise the tools dropped are gone, the tools replaced are the
  stored ones at the same place, and the descriptors follow. The only failure is a tool that
  cannot be fingerprinted.
\<close>

theorem tools_list_decisions:
  assumes "listed_tools msg = Some tools"
  shows "fst (analyze_tools_list x io ctx msg s) =
    (let s1 = snd (reload_store x io s); ds = map (decision_at x ctx tools s1) [0..<length tools] in
     if Abort \<in> set ds then Inl ''failed to fingerprint a tool schema''
     else if set ds \<subseteq> {Keep} \<and> secret_descriptors ctx = [] then Inr (Analyzed None)
     else Inr (Analyzed (Some (with_listing msg
       (concat (map2 (\<lambda>d t. case d of Keep \<Rightarrow> [t] | Replace u \<Rightarrow> [u] | _ \<Rightarrow> []) ds tools) @ secret_descriptors ctx)))))"
proof -
  define s1 where "s1 = snd (reload_store x io s)"
  define ds where "ds = map (decision_at x ctx tools s1) [0..<length tools]"
  have pairs: "map2 (\<lambda>d t. case d of Keep \<Rightarrow> [t] | Replace u \<Rightarrow> [u] | _ \<Rightarrow> []) ds tools =
      map (\<lambda>i. case decision_at x ctx tools s1 i of Keep \<Rightarrow> [tools ! i] | Replace u \<Rightarrow> [u] | _ \<Rightarrow> []) [0..<length tools]"
    by (rule nth_equalityI) (simp_all add: ds_def split: decision.splits)
  have pick: "concat (map (\<lambda>i. case decision_at x ctx tools s1 i of Keep \<Rightarrow> [tools ! i] | Replace u \<Rightarrow> [u] | _ \<Rightarrow> []) is) =
      map (replacement x ctx tools s1) (filter (\<lambda>i. decision_at x ctx tools s1 i \<noteq> Drop) is)"
    if "\<forall>i \<in> set is. decision_at x ctx tools s1 i \<noteq> Abort" for "is"
    using that by (induction "is") (auto simp: replacement_def split: decision.splits)
  have listing: "concat (map2 (\<lambda>d t. case d of Keep \<Rightarrow> [t] | Replace u \<Rightarrow> [u] | _ \<Rightarrow> []) ds tools) @ secret_descriptors ctx
      = listing_of x ctx tools s1" if "Abort \<notin> set ds"
  proof -
    have "\<forall>i \<in> set [0..<length tools]. decision_at x ctx tools s1 i \<noteq> Abort"
      using that by (metis ds_def image_eqI set_map)
    from pick [OF this] show ?thesis unfolding pairs listing_of_def by simp
  qed
  have in_ds: "d \<in> set ds \<longleftrightarrow> (\<exists>i < length tools. decision_at x ctx tools s1 i = d)" for d
    unfolding ds_def by force
  have abort: "(\<exists>i < length tools. decision_at x ctx tools s1 i = Abort) \<longleftrightarrow> Abort \<in> set ds"
    by (simp add: in_ds)
  have keep: "changes x ctx tools s1 \<or> secret_descriptors ctx \<noteq> [] \<longleftrightarrow> \<not> (set ds \<subseteq> {Keep} \<and> secret_descriptors ctx = [])"
    unfolding changes_def subset_iff in_ds by blast
  show ?thesis
    unfolding analysis_outcome(1) [OF assms refl s1_def] abort keep
    unfolding s1_def [symmetric] Let_def ds_def [symmetric]
    by (cases "Abort \<in> set ds", simp) (simp only: if_False listing not_not simp_thms split: if_split, blast)
qed

theorem tools_list_decisions_witness:
  "fst (analyze_tools_list demo_ext demo_io (demo_ctx Enforce Trust) (demo_listing [demo_tool ''t'' ''evil'']) demo_loaded)
   = Inr (Analyzed (Some (demo_listing [demo_tool ''t'' ''d''])))"
proof -
  have "decision_at demo_ext (demo_ctx Enforce Trust) [demo_tool ''t'' ''evil''] demo_loaded 0 = Replace (demo_tool ''t'' ''d'')"
    using rug_pulled_decision [OF demo_rug_pull, of Enforce Trust] by (simp add: demo_ctx_def demo_entry_def make_entry_def)
  then show ?thesis
    using tools_list_decisions [OF demo_listed, of demo_ext demo_io "demo_ctx Enforce Trust" "[demo_tool ''t'' ''evil'']" demo_loaded]
    by (simp add: demo_reload secret_descriptors_def) (simp add: demo_ctx_def with_listing_def demo_listing_def obj_insert_def)
qed

lemma served_vouched:
  assumes "listed_tools msg = Some tools" "ac_mode ctx = Enforce"
    and "store_authentic (x_mac x) (x_ser x) s" "bs_key s = ac_hmac_key ctx"
    and "analyze_tools_list x io ctx msg s = (Inr out, s', evs)"
  shows "store_authentic (x_mac x) (x_ser x) s' \<and>
    list_all (\<lambda>t. t \<in> set (secret_descriptors ctx) \<or> vouched x ctx s' t) (sent_tools msg (Inr out))"
proof -
  define s1 where "s1 = snd (reload_store x io s)"
  define st where "st = analyze_tools x io ctx tools (enumerate 0 tools) (start_loop s1)"
  note c = completed [OF assms(1,5) s1_def st_def]
  have auth: "store_authentic (x_mac x) (x_ser x) s1" "bs_key s1 = ac_hmac_key ctx"
    using reload_store_fields [where x = x and s = s and io = io] assms(3,4) by (simp_all add: s1_def)
  have "store_authentic (x_mac x) (x_ser x) s'"
    using loop_invD(9) [OF c(2) auth] by (simp add: c(3) store_authentic_def persist_store_fields)
  moreover have "vouched x ctx s' t" if "t \<in> set (listing_of x ctx tools s1)" "t \<notin> set (secret_descriptors ctx)" for t
    unfolding c(3) vouched_cong [OF persist_store_fields(1,3)] by (rule listing_vouched [OF c(2) assms(2) auth that])
  ultimately show ?thesis unfolding c(4) list_all_iff by blast
qed

text \<open>
  C1: enforce mode serves only what the baseline vouches for: of every analysed listing the
  client receives, each tool is one of the boundary's own descriptors, or carries its own name,
  is neither revoked nor under a name the boundary owns, has exactly the HMAC the final store
  holds for that name, and has a description without findings unless it is the stored tool
  itself; and the store stays authentic. (A stored tool is served without being scanned.)
\<close>

theorem enforced_listing_vouched:
  assumes "listed_tools msg = Some tools" "ac_mode ctx = Enforce"
    and "store_authentic (x_mac x) (x_ser x) s" "bs_key s = ac_hmac_key ctx"
    and "analyze_tools_list x io ctx msg s = (Inr out, s', evs)"
  shows "store_authentic (x_mac x) (x_ser x) s' \<and>
    list_all (\<lambda>t. t \<in> set (secret_descriptors ctx) \<or> vouched x ctx s' t) (sent_tools msg (Inr out))"
  using assms by (rule served_vouched)

lemma demo_fields:
  "x_mac demo_ext = demo_mac" "x_ser demo_ext = demo_ser" "bs_key demo_loaded = ''k''"
  "ac_hmac_key (demo_ctx mode first) = ''k''" "ac_mode (demo_ctx mode first) = mode"
  "ac_first_contact (demo_ctx mode first) = first" "ac_boundary (demo_ctx mode first) = None"
  by (simp_all add: demo_ext_def demo_ctx_def demo_loaded_def demo_store_def empty_store_def)

lemma demo_completes:
  obtains out s' evs
  where "analyze_tools_list demo_ext demo_io (demo_ctx mode first) (demo_listing tools) demo_loaded = (Inr out, s', evs)"
proof -
  let ?ctx = "demo_ctx mode first"
  let ?r = "analyze_tools_list demo_ext demo_io ?ctx (demo_listing tools) demo_loaded"
  have "decide demo_ext ?ctx d t s \<noteq> Abort" for d t s
    by (auto simp: decide_def Let_def fingerprint_tool_def demo_fields demo_mac_def split: option.splits)
  then have "fst ?r \<noteq> Inl e" for e
    unfolding analysis_outcome(1) [OF demo_listed refl refl] decision_at_def by simp
  then obtain out where "fst ?r = Inr out" by (cases "fst ?r") auto
  then have "?r = (Inr out, fst (snd ?r), snd (snd ?r))" by (cases ?r) auto
  then show thesis by (rule that)
qed

theorem enforced_listing_vouched_witness:
  "let r = analyze_tools_list demo_ext demo_io (demo_ctx Enforce Trust) (demo_listing [demo_tool ''t'' ''evil'', JNull]) demo_loaded
   in \<exists>out. fst r = Inr out \<and> store_authentic demo_mac demo_ser (fst (snd r)) \<and>
     list_all (vouched demo_ext (demo_ctx Enforce Trust) (fst (snd r)))
       (sent_tools (demo_listing [demo_tool ''t'' ''evil'', JNull]) (Inr out))"
proof -
  let ?ctx = "demo_ctx Enforce Trust" and ?tools = "[demo_tool ''t'' ''evil'', JNull]"
  obtain out s' evs where r:
      "analyze_tools_list demo_ext demo_io ?ctx (demo_listing ?tools) demo_loaded = (Inr out, s', evs)"
    by (rule demo_completes)
  have "store_authentic (x_mac demo_ext) (x_ser demo_ext) demo_loaded" "bs_key demo_loaded = ac_hmac_key ?ctx"
    "ac_mode ?ctx = Enforce" by (simp_all add: demo_fields demo_loaded_authentic)
  from enforced_listing_vouched [OF demo_listed this(3,1,2) r] show ?thesis
    by (simp add: r demo_fields secret_descriptors_def)
qed

text \<open>
  C22: under first-contact approval a listing never extends the trusted set, and the client is
  offered only tools an operator has approved: the trusted table after the analysis is the one
  the reload produced, and every tool received is a boundary descriptor or bears a name that
  was trusted, on disk and not revoked at that moment.
\<close>

theorem approval_offers_only_approved:
  assumes "listed_tools msg = Some tools" "ac_first_contact ctx = Approve"
    and "store_authentic (x_mac x) (x_ser x) s" "bs_key s = ac_hmac_key ctx"
    and "analyze_tools_list x io ctx msg s = (Inr out, s', evs)"
  shows "bs_tools s' = bs_tools (snd (reload_store x io s)) \<and>
    list_all (\<lambda>t. t \<in> set (secret_descriptors ctx) \<or>
      (case get_str t ''name'' of Some n \<Rightarrow> contains (snd (reload_store x io s)) n \<and> \<not> is_revoked (snd (reload_store x io s)) n
        | None \<Rightarrow> False)) (sent_tools msg (Inr out))"
proof -
  define s1 where "s1 = snd (reload_store x io s)"
  define st where "st = analyze_tools x io ctx tools (enumerate 0 tools) (start_loop s1)"
  note c = completed [OF assms(1,5) s1_def st_def]
  have auth: "store_authentic (x_mac x) (x_ser x) s1"
    using reload_store_fields [where x = x and s = s and io = io] assms(3) by (simp add: s1_def)
  have "bs_tools (lp_store st) = bs_tools s1"
    unfolding st_def by (simp add: approve_registers_nothing_loop [OF assms(2)] start_loop_def)
  then have "bs_tools s' = bs_tools s1" by (simp add: c(3) persist_store_fields)
  moreover have "case get_str t ''name'' of Some n \<Rightarrow> contains s1 n \<and> \<not> is_revoked s1 n | None \<Rightarrow> False"
    if t: "t \<in> set (listing_of x ctx tools s1)" "t \<notin> set (secret_descriptors ctx)" for t
  proof -
    obtain i where i: "i < length tools" and nd: "decision_at x ctx tools s1 i \<noteq> Drop"
        and rep: "t = replacement x ctx tools s1 i" using t by (rule in_listing_of)
    note d = decide_not_Drop [OF nd [unfolded decision_at_def]]
    have ok: "contains s1 (tool_label (tools ! i))" "\<not> is_revoked s1 (tool_label (tools ! i))"
      using d(3) d(4) [OF assms(2)] c(5) [OF i] by (simp_all add: decision_at_def)
    have "get_str t ''name'' = Some (tool_label (tools ! i))"
    proof (cases "decision_at x ctx tools s1 i")
      case (Replace u)
      then obtain e where "hm_get (bs_tools s1) (tool_label (tools ! i)) = Some e" "entry_tool e = u"
        using decide_Replace unfolding decision_at_def by blast
      then show ?thesis using authentic_lookup(1) [OF auth] Replace rep
        by (auto simp: authentic_def replacement_def)
    qed (use nd c(5) [OF i] rep unwithheld_name [OF d(1) i] in \<open>simp_all add: replacement_def\<close>)
    with ok show ?thesis by simp
  qed
  ultimately show ?thesis unfolding s1_def [symmetric] c(4) list_all_iff by blast
qed

theorem approval_offers_only_approved_witness:
  "let r = analyze_tools_list demo_ext demo_io (demo_ctx Monitor Approve) (demo_listing [demo_tool ''t'' ''evil'', demo_tool ''new'' ''d'']) demo_loaded
   in bs_tools (fst (snd r)) = [(''t'', demo_entry ''k'' ''t'' ''d'')] \<and> (\<exists>out. fst r = Inr out)"
proof -
  let ?ctx = "demo_ctx Monitor Approve" and ?tools = "[demo_tool ''t'' ''evil'', demo_tool ''new'' ''d'']"
  obtain out s' evs where r:
      "analyze_tools_list demo_ext demo_io ?ctx (demo_listing ?tools) demo_loaded = (Inr out, s', evs)"
    by (rule demo_completes)
  have "store_authentic (x_mac demo_ext) (x_ser demo_ext) demo_loaded" "bs_key demo_loaded = ac_hmac_key ?ctx"
    "ac_first_contact ?ctx = Approve" by (simp_all add: demo_fields demo_loaded_authentic)
  from approval_offers_only_approved [OF demo_listed this(3,1,2) r] show ?thesis
    by (simp add: r demo_reload) (simp add: demo_loaded_def demo_store_def)
qed



text \<open>
  C21: the ledger does not overstate: unless a rewritten listing is sent, no event of the
  analysis has an action that says a tool was withheld, blocked, restored or rewritten.
\<close>

theorem ledger_honest:
  "case analyze_tools_list x io ctx msg s of (out, s', evs) \<Rightarrow>
     (case out of Inr (Analyzed (Some m)) \<Rightarrow> True | _ \<Rightarrow>
       list_all (\<lambda>e. \<not> claims_action (ev_details e)) evs)"
proof (cases "listed_tools msg")
  case None
  then show ?thesis using store_events_plain(1) [of io]
    by (simp add: analyze_tools_list_def emit_traced_def claims_action_simps)
next
  case (Some tools)
  define s1 where "s1 = snd (reload_store x io s)"
  define st where "st = analyze_tools x io ctx tools (enumerate 0 tools) (start_loop s1)"
  obtain out s' evs where r: "analyze_tools_list x io ctx msg s = (out, s', evs)"
    by (cases "analyze_tools_list x io ctx msg s") auto
  note o = analysis_outcome [OF Some st_def [unfolded s1_def] s1_def, unfolded r fst_conv snd_conv]
  obtain before where evs: "evs = before @ emit_deferred (lp_deferred st) (io_trace io) (\<not> lp_failed st \<and> changes x ctx tools s1)"
      and plain: "list_all (\<lambda>e. \<not> claims_action (ev_details e)) before"
    using analysis_events [OF Some s1_def st_def] r by auto
  have honest: "honest st"
    unfolding st_def by (rule analyze_tools_honest) (simp add: honest_def start_loop_def)
  have "list_all (\<lambda>e. \<not> claims_action (ev_details e)) evs" if "\<nexists>m. out = Inr (Analyzed (Some m))"
  proof -
    have "lp_failed st \<or> \<not> changes x ctx tools s1"
      using that o(1) loop_result(1) [OF st_def] by (auto split: if_splits)
    then have "evs = before @ emit_deferred (lp_deferred st) (io_trace io) False" using evs by auto
    then show ?thesis using plain emit_deferred_unapplied [OF honest [unfolded honest_def], of False] by simp
  qed
  then show ?thesis using r by (auto split: sum.splits AnalysisOutcome.splits option.splits)
qed

end
