(* ===== verification/Https_Transport.thy ===== *)
theory Https_Transport
  imports Http_Op
begin

section \<open>The HTTPS transport\<close>

text \<open>
  Model of \<^verbatim>\<open>mcp-shield/src/secret_boundary/transport.rs\<close>. The HTTP client is the \<^verbatim>\<open>reqwest\<close>
  package: building a client, checking header names and values, and sending are parameters, and
  a response is what the code reads of it. How the future is driven (the flavour of the running
  runtime) changes the thread that waits and not the result; it is not modelled.
\<close>

text \<open>The options the code sets on a client.\<close>

record HttpsClient =
  cl_no_proxy :: bool
  cl_follow_redirects :: bool
  cl_connect_timeout :: nat
  cl_timeout :: nat
  cl_resolve_host :: string
  cl_resolve_addrs :: "SocketAddr list"

record HttpsRequest =
  hq_method :: string
  hq_url :: Url
  hq_headers :: "(string \<times> string) list"
  hq_body :: "bytes option"

text \<open>A header value is \<open>None\<close> when it is not visible ASCII; a chunk may be an error.\<close>

record HttpsResponse =
  hr_status :: nat
  hr_headers :: "(string \<times> string option) list"
  hr_content_length :: "nat option"
  hr_chunks :: "(string + bytes) list"

record Reqwest =
  rq_build :: "HttpsClient \<Rightarrow> string option"
  rq_header_name_ok :: "string \<Rightarrow> bool"
  rq_header_value_ok :: "string \<Rightarrow> bool"
  rq_send :: "HttpsClient \<Rightarrow> HttpsRequest \<Rightarrow> (string \<times> string list) + HttpsResponse"

definition build_client :: "Reqwest \<Rightarrow> string \<Rightarrow> SocketAddr list \<Rightarrow> nat \<Rightarrow> BoundaryError + HttpsClient" where
  "build_client rq host pinned_addrs timeout =
     (let client = \<lparr>cl_no_proxy = True, cl_follow_redirects = False, cl_connect_timeout = timeout,
                     cl_timeout = timeout, cl_resolve_host = host, cl_resolve_addrs = pinned_addrs\<rparr>
      in case rq_build rq client of
           Some e \<Rightarrow> Inl (TransportError (''Failed to build HTTPS client: '' @ e))
         | None \<Rightarrow> Inr client)"

text \<open>Lengths are machine words of 64 bits: the checked addition fails at two to the 64.\<close>

fun read_chunks :: "nat \<Rightarrow> bytes \<Rightarrow> (string + bytes) list \<Rightarrow> BoundaryError + bytes" where
  "read_chunks limit body [] = Inr body"
| "read_chunks limit body (Inl e # _) = Inl (TransportError (''Failed reading response chunk: '' @ e))"
| "read_chunks limit body (Inr chunk # rest) =
     (let prospective_len = length body + length chunk in
      if 2 ^ 64 \<le> prospective_len
      then Inl (TransportError ''Response payload size calculation overflowed'')
      else if limit < prospective_len
      then Inl (TransportError (''Response payload size (at least '' @ show_nat prospective_len
             @ '' bytes) exceeded maximum bound ('' @ show_nat limit @ '' bytes)''))
      else read_chunks limit (body @ chunk) rest)"

definition read_bounded_response_body :: "HttpsResponse \<Rightarrow> nat \<Rightarrow> BoundaryError + bytes" where
  "read_bounded_response_body resp max_response_bytes =
     (case hr_content_length resp of
        Some n \<Rightarrow>
          if max_response_bytes < n
          then Inl (TransportError (''Response declared Content-Length ('' @ show_nat n
                 @ '' bytes) exceeds maximum bound ('' @ show_nat max_response_bytes @ '' bytes)''))
          else read_chunks max_response_bytes [] (hr_chunks resp)
      | None \<Rightarrow> read_chunks max_response_bytes [] (hr_chunks resp))"

definition SUPPORTED_METHODS :: "string list" where
  [str_defs]: "SUPPORTED_METHODS = [''GET'', ''POST'', ''PUT'', ''DELETE'', ''HEAD'', ''PATCH'']"

fun checked_headers :: "Reqwest \<Rightarrow> (string \<times> string) list \<Rightarrow> BoundaryError option" where
  "checked_headers rq [] = None"
| "checked_headers rq ((k, v) # rest) =
     (if \<not> rq_header_name_ok rq k
      then Some (InvalidRequest (''Header name '' @ squote k @ '' is not a valid HTTP header name''))
      else if \<not> rq_header_value_ok rq v
      then Some (InvalidRequest (''Header '' @ squote k @ '' has a value that is not a valid HTTP header value''))
      else checked_headers rq rest)"

fun response_headers :: "(string \<times> string option) list \<Rightarrow> (string, string) hashmap \<Rightarrow> (string, string) hashmap" where
  "response_headers [] hs = hs"
| "response_headers ((k, v) # rest) hs =
     response_headers rest (case v of Some s \<Rightarrow> hm_insert k s hs | None \<Rightarrow> hs)"

definition https_execute :: "Reqwest \<Rightarrow> transport" where
  "https_execute rq req =
     (if url_scheme (hd_url req) \<noteq> ''https''
      then Inl (DestinationViolation (''Insecure scheme '' @ squote (url_scheme (hd_url req))
             @ '' rejected: credential-bearing operations strictly require HTTPS''))
      else if hd_pinned_addrs req = []
      then Inl (DestinationViolation ''Connection pinning required: no pre-validated socket addresses provided'')
      else
        (case build_client rq (hd_host_header req) (hd_pinned_addrs req) (hd_timeout req) of
           Inl e \<Rightarrow> Inl e
         | Inr client \<Rightarrow>
             (let meth = to_ascii_uppercase (hd_method req) in
              if meth \<notin> set SUPPORTED_METHODS
              then Inl (OperationNotAllowed (''Unsupported HTTP method '' @ squote meth))
              else
                (case checked_headers rq (hd_headers req) of
                   Some e \<Rightarrow> Inl e
                 | None \<Rightarrow>
                     (case rq_send rq client \<lparr>hq_method = meth, hq_url = hd_url req,
                              hq_headers = hd_headers req, hq_body = hd_body req\<rparr> of
                        Inl (e, causes) \<Rightarrow>
                          Inl (TransportError (''HTTPS request failed: '' @ e
                            @ concat (map (\<lambda>c. ''; caused by: '' @ c) causes)))
                      | Inr resp \<Rightarrow>
                          (case read_bounded_response_body resp (hd_max_response_bytes req) of
                             Inl e \<Rightarrow> Inl e
                           | Inr body \<Rightarrow>
                               Inr \<lparr>raw_status_code = hr_status resp,
                                    raw_headers = response_headers (hr_headers resp) [],
                                    raw_body = body\<rparr>))))))"

subsection \<open>Bounds\<close>

lemma read_chunks_bound: "length body \<le> limit \<Longrightarrow> read_chunks limit body cs = Inr b \<Longrightarrow> length b \<le> limit"
  by (induction limit body cs rule: read_chunks.induct) (auto simp: Let_def split: if_splits)

lemma read_chunks_whole:
  "read_chunks limit body cs = Inr b \<Longrightarrow> \<exists>chunks. cs = map Inr chunks \<and> b = body @ concat chunks"
proof (induction limit body cs arbitrary: b rule: read_chunks.induct)
  case (3 limit body chunk rest)
  then have "read_chunks limit (body @ chunk) rest = Inr b" by (simp add: Let_def split: if_splits)
  with 3 obtain chunks where "rest = map Inr chunks" "b = (body @ chunk) @ concat chunks"
    by (auto simp: Let_def split: if_splits)
  then show ?case by (intro exI [of _ "chunk # chunks"]) simp
qed simp_all

lemma read_bounded_response_body_bound:
  "read_bounded_response_body resp limit = Inr b \<Longrightarrow>
     length b \<le> limit \<and> (\<exists>chunks. hr_chunks resp = map Inr chunks \<and> b = concat chunks)"
  using read_chunks_bound [of "[]" limit "hr_chunks resp" b] read_chunks_whole [of limit "[]" "hr_chunks resp" b]
  by (auto simp: read_bounded_response_body_def split: option.splits if_splits)

subsection \<open>Properties\<close>

text \<open>A client that goes where it is told and nowhere else.\<close>

definition confined_client :: "HttpRequestDetails \<Rightarrow> HttpsClient \<Rightarrow> HttpsRequest \<Rightarrow> bool" where
  "confined_client req client q \<longleftrightarrow>
     cl_no_proxy client \<and> \<not> cl_follow_redirects client \<and> cl_resolve_host client = hd_host_header req \<and>
     cl_resolve_addrs client = hd_pinned_addrs req \<and> hd_pinned_addrs req \<noteq> [] \<and>
     url_scheme (hq_url q) = ''https'' \<and> hq_url q = hd_url req \<and>
     set (hq_headers q) = set (hd_headers req) \<and> hq_body q = hd_body req"

text \<open>
  C18: composed with the executor, a request leaves only over HTTPS, through a client that
  ignores proxies, follows no redirect and resolves the host to the pinned addresses, all of
  which passed the address check; and a body that is accepted is the whole of what was sent and
  within the limit.
\<close>

theorem https_confined:
  "http_execute cfg url_parse resolve (https_execute rq) elapsed_ms request secret =
     http_execute cfg url_parse resolve
       (\<lambda>d. https_execute (rq\<lparr>rq_send := (\<lambda>client q.
               if confined_client d client q \<and> pins_ok cfg (cl_resolve_addrs client)
               then rq_send rq client q else Inl ([], []))\<rparr>) d)
       elapsed_ms request secret \<and>
   (case https_execute rq d of
      Inl e \<Rightarrow> True
    | Inr raw \<Rightarrow> length (raw_body raw) \<le> hd_max_response_bytes d)"
proof
  let ?guard = "\<lambda>d. rq\<lparr>rq_send := (\<lambda>client q.
      if confined_client d client q \<and> pins_ok cfg (cl_resolve_addrs client)
      then rq_send rq client q else Inl ([], []))\<rparr>"
  have headers: "checked_headers (?guard d) hs = checked_headers rq hs" for d hs
    by (induction hs) auto
  have same: "https_execute rq d = https_execute (?guard d) d" if "details_ok cfg request secret d" for d
    using that unfolding https_execute_def headers
    by (auto simp: build_client_def details_ok_def confined_client_def Let_def split: option.split sum.split)
  let ?only = "\<lambda>t d. if details_ok cfg request secret d then t d else Inl (TransportError [])"
  have eq: "?only (https_execute rq) = ?only (\<lambda>d. https_execute (?guard d) d)"
    using same by (intro ext) simp
  show "http_execute cfg url_parse resolve (https_execute rq) elapsed_ms request secret =
     http_execute cfg url_parse resolve (\<lambda>d. https_execute (?guard d) d) elapsed_ms request secret"
    unfolding safe_details_only [of cfg url_parse resolve "https_execute rq"]
      safe_details_only [of cfg url_parse resolve "\<lambda>d. https_execute (?guard d) d"] eq ..
  show "case https_execute rq d of Inl e \<Rightarrow> True | Inr raw \<Rightarrow> length (raw_body raw) \<le> hd_max_response_bytes d"
    by (auto simp: https_execute_def Let_def dest!: read_bounded_response_body_bound split: sum.split option.split prod.split)
qed

end
