(* ===== verification/Secret_Reference.thy ===== *)
theory Secret_Reference
  imports Policy
begin

section \<open>References to 1Password secrets, and the settings checked before one is read\<close>

text \<open>
  Model of the validation functions of \<^verbatim>\<open>provider/onepassword.rs\<close> in
  \<^verbatim>\<open>crates/pbm-secret-boundary/src\<close>: secret references, account identifiers and the path of the
  \<^verbatim>\<open>op\<close> binary. Paths are those of a Unix host (\<^verbatim>\<open>std::path\<close> is platform dependent).
\<close>

subsection \<open>References\<close>

record ParsedSecretReference =
  pr_raw :: string
  pr_vault :: string
  pr_item :: string
  pr_section :: "string option"
  pr_field :: string

text \<open>\<^verbatim>\<open>b as char\<close>, printed: the scalar value of one byte in UTF-8.\<close>

definition byte_as_char :: "char \<Rightarrow> string" where
  "byte_as_char b = (if ord b < 0x80 then [b]
     else [char_of (0xC0 + ord b div 64), char_of (0x80 + ord b mod 64)])"

definition hex_value :: "char \<Rightarrow> nat" where
  [str_defs]: "hex_value c =
     (if is_ascii_digit c then ord c - 48 else if is_ascii_uppercase c then ord c - 55 else ord c - 87)"

definition hex_upper :: "nat \<Rightarrow> string" where
  "hex_upper v = to_ascii_uppercase [hex_digit (v div 16), hex_digit (v mod 16)]"

definition plain_ref_byte :: "char \<Rightarrow> bool" where
  [str_defs]: "plain_ref_byte b \<longleftrightarrow> is_ascii_alphanumeric b \<or> b = CHR 0x2D \<or> b = CHR 0x5F \<or> b = CHR 0x2E"

text \<open>The loop over the bytes of a segment.\<close>

fun check_ref_bytes :: "string \<Rightarrow> bytes \<Rightarrow> BoundaryError option" where
  "check_ref_bytes segment [] = None"
| "check_ref_bytes segment (b # r) =
     (if plain_ref_byte b then check_ref_bytes segment r
      else if b = CHR 0x25 then
        (case r of
           h1 # h2 # rest \<Rightarrow>
             if \<not> is_ascii_hexdigit h1 \<or> \<not> is_ascii_hexdigit h2
             then Some (InvalidRequest (''Invalid percent-encoding ''
                    @ squote (''%'' @ byte_as_char h1 @ byte_as_char h2)
                    @ '' in secret reference segment '' @ squote segment))
             else (let val = 16 * hex_value h1 + hex_value h2 in
                   if val < 0x20 \<or> val = 0x7F \<or> val = 0x2F
                   then Some (InvalidRequest (''Forbidden percent-encoded byte 0x'' @ hex_upper val
                          @ '' in secret reference segment '' @ squote segment))
                   else check_ref_bytes segment rest)
         | _ \<Rightarrow> Some (InvalidRequest (''Incomplete percent-encoding in secret reference segment ''
                  @ squote segment)))
      else Some (InvalidRequest (''Disallowed character '' @ squote (byte_as_char b)
             @ '' in secret reference segment '' @ squote segment)))"

fun check_segments :: "string \<Rightarrow> nat \<Rightarrow> string list \<Rightarrow> BoundaryError option" where
  "check_segments secret_ref idx [] = None"
| "check_segments secret_ref idx (segment # rest) =
     (if segment = []
      then Some (InvalidRequest (''Secret reference '' @ squote secret_ref
             @ '' contains empty segment at index '' @ show_nat idx))
      else if 256 < length segment
      then Some (InvalidRequest (''Secret reference segment at index '' @ show_nat idx
             @ '' exceeds maximum length of 256 characters''))
      else if segment = ''.'' \<or> segment = ''..''
      then Some (InvalidRequest (''Secret reference '' @ squote secret_ref
             @ '' contains forbidden traversal sequence '' @ squote segment))
      else if starts_with segment ''-''
      then Some (InvalidRequest (''Secret reference segment '' @ squote segment
             @ '' cannot start with a hyphen (flag injection guard)''))
      else (case check_ref_bytes segment segment of
              Some e \<Rightarrow> Some e
            | None \<Rightarrow> check_segments secret_ref (idx + 1) rest))"

definition validate_secret_reference :: "string \<Rightarrow> BoundaryError + ParsedSecretReference" where
  "validate_secret_reference secret_ref =
     (if length secret_ref < 8
      then Inl (InvalidRequest (''Secret reference '' @ squote secret_ref
             @ '' is too short; must begin with '' @ squote ''op://''))
      else if 1024 < length secret_ref
      then Inl (InvalidRequest ''Secret reference exceeds maximum allowed length of 1024 characters'')
      else if \<not> starts_with secret_ref ''op://''
      then Inl (InvalidRequest (''Secret reference '' @ squote secret_ref
             @ '' must begin with '' @ squote ''op://''))
      else
        (let remainder = drop 5 secret_ref in
         if starts_with remainder ''/'' \<or> ends_with remainder ''/''
         then Inl (InvalidRequest (''Secret reference '' @ squote secret_ref
                @ '' contains invalid leading or trailing slash''))
         else
           (let segments = split_ch CHR 0x2F remainder in
            if length segments < 3 \<or> 4 < length segments
            then Inl (InvalidRequest (''Secret reference '' @ squote secret_ref @ '' has ''
                   @ show_nat (length segments) @ '' segments; expected 3 or 4 (''
                   @ squote ''op://<vault>/<item>[/<section>]/<field>'' @ '')''))
            else (case check_segments secret_ref 0 segments of
                    Some e \<Rightarrow> Inl e
                  | None \<Rightarrow>
                      Inr (if length segments = 3
                           then \<lparr>pr_raw = secret_ref, pr_vault = segments ! 0, pr_item = segments ! 1,
                                 pr_section = None, pr_field = segments ! 2\<rparr>
                           else \<lparr>pr_raw = secret_ref, pr_vault = segments ! 0, pr_item = segments ! 1,
                                 pr_section = Some (segments ! 2), pr_field = segments ! 3\<rparr>)))))"

subsection \<open>Accounts\<close>

definition account_char :: "string \<Rightarrow> bool" where
  "account_char ch \<longleftrightarrow> (case ch of [c] \<Rightarrow> plain_ref_byte c | _ \<Rightarrow> False)"

definition validate_account_identifier :: "string \<Rightarrow> BoundaryError + unit" where
  "validate_account_identifier account =
     (if account = [] \<or> 128 < length account
      then Inl (ConfigurationError ''Account identifier must be between 1 and 128 characters'')
      else if starts_with account ''-''
      then Inl (ConfigurationError (''Account identifier '' @ squote account
             @ '' cannot start with a hyphen (flag injection guard)''))
      else (case find (\<lambda>ch. \<not> account_char ch) (chars account) of
              Some ch \<Rightarrow> Inl (ConfigurationError (''Account identifier '' @ squote account
                           @ '' contains disallowed character '' @ squote ch))
            | None \<Rightarrow> Inr ()))"

subsection \<open>The path of the binary\<close>

definition shell_char :: "string \<Rightarrow> bool" where
  "shell_char ch \<longleftrightarrow> ch \<in> set [''|'', ''&'', '';'', ''$'', ''`'', ''<'', ''>'', [CHR 0x22], [CHR 0x27]]"

definition ascii_control_char :: "string \<Rightarrow> bool" where
  "ascii_control_char ch \<longleftrightarrow> (case ch of [c] \<Rightarrow> is_ascii_control c | _ \<Rightarrow> False)"

fun check_cli_chars :: "string list \<Rightarrow> BoundaryError option" where
  "check_cli_chars [] = None"
| "check_cli_chars (c # cs) =
     (if ascii_control_char c
      then Some (ConfigurationError ''CLI executable path contains control characters'')
      else if shell_char c
      then Some (ConfigurationError (''CLI executable path contains forbidden shell character '' @ squote c))
      else check_cli_chars cs)"

definition validate_cli_path :: "string \<Rightarrow> BoundaryError + unit" where
  "validate_cli_path cli_path =
     (if cli_path = [] \<or> 512 < length cli_path
      then Inl (ConfigurationError ''CLI executable path must be between 1 and 512 characters'')
      else if starts_with cli_path ''-''
      then Inl (ConfigurationError ''CLI executable path cannot start with a hyphen'')
      else (case check_cli_chars (chars cli_path) of Some e \<Rightarrow> Inl e | None \<Rightarrow> Inr ()))"

text \<open>
  \<^verbatim>\<open>std::path::Path\<close> on Unix: components are the pieces between slashes that are neither empty
  nor a dot; the extension is what follows the last dot of the last component, unless that dot
  is its first byte.
\<close>

definition path_components :: "string \<Rightarrow> string list" where
  [str_defs]: "path_components p = filter (\<lambda>c. c \<noteq> [] \<and> c \<noteq> ''.'') (split_ch CHR 0x2F p)"

definition path_extension :: "string \<Rightarrow> string option" where
  [str_defs]: "path_extension p =
     (case rev (path_components p) of
        [] \<Rightarrow> None
      | name # _ \<Rightarrow>
          if name = ''..'' then None
          else (case split_once CHR 0x2E (rev name) of
                  None \<Rightarrow> None
                | Some (ext, stem) \<Rightarrow> if stem = [] then None else Some (rev ext)))"

definition UNSAFE_EXTENSIONS :: "string list" where
  [str_defs]: "UNSAFE_EXTENSIONS = [''bat'', ''cmd'', ''ps1'', ''vbs'', ''js'', ''wsf'', ''com'', ''scr'', ''pif'']"

definition validate_trusted_cli_path :: "string \<Rightarrow> bool \<Rightarrow> BoundaryError + unit" where
  "validate_trusted_cli_path cli_path require_absolute =
     (case validate_cli_path cli_path of
        Inl e \<Rightarrow> Inl e
      | Inr _ \<Rightarrow>
          if require_absolute \<and> \<not> starts_with cli_path ''/''
          then Inl (ConfigurationError (''CLI executable path '' @ squote cli_path
                 @ '' must be an absolute path when require_absolute_path is enabled''))
          else if list_ex (\<lambda>c. c = ''..'') (path_components cli_path)
          then Inl (ConfigurationError (''CLI executable path '' @ squote cli_path
                 @ '' contains forbidden parent directory traversal ('' @ squote ''..'' @ '')''))
          else (case path_extension cli_path of
                  Some ext \<Rightarrow>
                    if to_ascii_lowercase ext \<in> set UNSAFE_EXTENSIONS
                    then Inl (ConfigurationError (''CLI executable path '' @ squote cli_path
                           @ '' has unsafe extension '' @ squote (''.'' @ ext)
                           @ ''; only native executables are allowed''))
                    else Inr ()
                | None \<Rightarrow> Inr ()))"

subsection \<open>The grammar of references\<close>

text \<open>A token of a segment: one plain byte, or a percent sign and two hexadecimal digits.\<close>

definition ref_token :: "string \<Rightarrow> bool" where
  "ref_token t \<longleftrightarrow>
     (case t of
        [b] \<Rightarrow> plain_ref_byte b
      | [p, h1, h2] \<Rightarrow> p = CHR 0x25 \<and> is_ascii_hexdigit h1 \<and> is_ascii_hexdigit h2 \<and>
          (let v = 16 * hex_value h1 + hex_value h2 in 0x20 \<le> v \<and> v \<noteq> 0x7F \<and> v \<noteq> 0x2F)
      | _ \<Rightarrow> False)"

definition ref_tokens :: "string \<Rightarrow> bool" where
  "ref_tokens s \<longleftrightarrow> (\<exists>ts. s = concat ts \<and> list_all ref_token ts)"

definition ref_segment :: "string \<Rightarrow> bool" where
  "ref_segment s \<longleftrightarrow> s \<noteq> [] \<and> length s \<le> 256 \<and> s \<noteq> ''.'' \<and> s \<noteq> ''..'' \<and> \<not> starts_with s ''-'' \<and> ref_tokens s"

definition ref_parts :: "ParsedSecretReference \<Rightarrow> string list" where
  "ref_parts p = [pr_vault p, pr_item p] @ (case pr_section p of None \<Rightarrow> [] | Some s \<Rightarrow> [s]) @ [pr_field p]"

lemma ref_tokens_Nil [simp]: "ref_tokens []"
  by (auto simp: ref_tokens_def intro: exI [of _ "[]"])

lemma ref_token_triple:
  "ref_token [p, h1, h2] \<longleftrightarrow> p = CHR 0x25 \<and> is_ascii_hexdigit h1 \<and> is_ascii_hexdigit h2 \<and>
     (let v = 16 * hex_value h1 + hex_value h2 in 0x20 \<le> v \<and> v \<noteq> 0x7F \<and> v \<noteq> 0x2F)"
  by (simp add: ref_token_def)

lemma ref_tokens_Cons:
  "ref_tokens (b # r) \<longleftrightarrow> (plain_ref_byte b \<and> ref_tokens r) \<or>
     (\<exists>h1 h2 rest. r = h1 # h2 # rest \<and> ref_token [b, h1, h2] \<and> ref_tokens rest)"
  (is "?l \<longleftrightarrow> ?a \<or> ?b")
proof
  assume ?l
  then obtain ts where ts: "b # r = concat ts" "list_all ref_token ts" by (auto simp: ref_tokens_def)
  then obtain t ts' where t: "ts = t # ts'" "ref_token t" by (cases ts) auto
  with ts show "?a \<or> ?b"
    by (auto simp: ref_token_def ref_tokens_def split: list.splits)
next
  assume "?a \<or> ?b"
  then show ?l
  proof
    assume ?a
    then obtain ts where "r = concat ts" "list_all ref_token ts" "plain_ref_byte b" by (auto simp: ref_tokens_def)
    then show ?l unfolding ref_tokens_def by (intro exI [of _ "[b] # ts"]) (simp add: ref_token_def)
  next
    assume ?b
    then obtain h1 h2 ts where "r = h1 # h2 # concat ts" "list_all ref_token ts" "ref_token [b, h1, h2]"
      by (auto simp: ref_tokens_def)
    then show ?l unfolding ref_tokens_def by (intro exI [of _ "[b, h1, h2] # ts"]) simp
  qed
qed

lemma check_ref_bytes_None: "check_ref_bytes segment bs = None \<longleftrightarrow> ref_tokens bs"
proof (induction segment bs rule: check_ref_bytes.induct)
  case (2 segment b r)
  show ?case
  proof (cases "plain_ref_byte b")
    case True
    then have "\<not> ref_token [b, h1, h2]" for h1 h2
      by (auto simp: ref_token_def str_defs)
    with True 2(1) show ?thesis by (simp add: ref_tokens_Cons)
  next
    case False
    show ?thesis
    proof (cases "b = CHR 0x25")
      case b: True
      consider "r = []" | h1 where "r = [h1]" | h1 h2 rest where "r = h1 # h2 # rest"
        by (metis list.exhaust)
      then show ?thesis
      proof cases
        case (3 h1 h2 rest)
        have IH: "ref_token [b, h1, h2] \<Longrightarrow> check_ref_bytes segment rest = None \<longleftrightarrow> ref_tokens rest"
          using 2(2) [OF False b 3 refl _ refl] by (auto simp: ref_token_triple Let_def)
        have "check_ref_bytes segment (b # r) = None \<longleftrightarrow>
            ref_token [b, h1, h2] \<and> check_ref_bytes segment rest = None"
          using False b by (auto simp: 3 ref_token_triple Let_def)
        then show ?thesis using IH False 3 by (auto simp: ref_tokens_Cons)
      qed (use False b in \<open>auto simp: ref_tokens_Cons\<close>)
    next
      case nb: False
      then have "\<not> ref_token [b, h1, h2]" for h1 h2 by (simp add: ref_token_def)
      with False nb show ?thesis by (simp add: ref_tokens_Cons)
    qed
  qed
qed simp

lemma check_segments_None:
  "check_segments ref idx segs = None \<longleftrightarrow> list_all ref_segment segs"
  by (induction ref idx segs rule: check_segments.induct)
    (auto simp: ref_segment_def check_ref_bytes_None [of s s for s, symmetric] split: option.splits)

text \<open>A segment has no slash.\<close>

lemma ref_token_no_slash: "ref_token t \<Longrightarrow> CHR 0x2F \<notin> set t"
  by (auto simp: ref_token_def str_defs split: list.splits)

lemma ref_segment_no_slash: "ref_segment s \<Longrightarrow> CHR 0x2F \<notin> set s"
  unfolding ref_segment_def ref_tokens_def list_all_iff
  using ref_token_no_slash by (metis concat.simps(1) in_set_conv_decomp set_concat UN_E)

lemma split_ch_single: "d \<notin> set x \<Longrightarrow> split_ch d x = [x]"
  by (induction x) auto

lemma split_ch_sep: "d \<notin> set x \<Longrightarrow> split_ch d (x @ d # rest) = x # split_ch d rest"
  by (induction x) auto

lemma split_join:
  "xs \<noteq> [] \<Longrightarrow> list_all (\<lambda>x. d \<notin> set x) xs \<Longrightarrow> split_ch d (join_str [d] xs) = xs"
proof (induction "[d]" xs rule: join_str.induct)
  case (3 x y ys)
  then show ?case by (simp add: split_ch_sep)
qed (simp_all add: split_ch_single)

lemma split_ch_snoc: "split_ch d (x @ [d]) = split_ch d x @ [[]]"
  by (induction x) (auto split: list.splits)

lemma split_ch_first: "[] \<notin> set (split_ch d s) \<Longrightarrow> \<not> starts_with s [d]"
  by (auto simp: starts_with_iff)

lemma split_ch_last: "[] \<notin> set (split_ch d s) \<Longrightarrow> \<not> ends_with s [d]"
  by (auto simp: ends_with_iff split_ch_snoc)

lemma join_str_length: "[] \<notin> set xs \<Longrightarrow> length xs \<le> length (join_str sep xs)"
proof (induction sep xs rule: join_str.induct)
  case (2 sep x)
  then show ?case by (cases x) auto
next
  case (3 sep x y ys)
  then show ?case by (cases x) auto
qed simp

lemma parts_cases:
  obtains a b c where "xs = [a, b, c]" | a b c d where "xs = [a, b, c, d]"
  | "length xs < 3 \<or> 4 < length xs"
proof (cases "length xs = 3 \<or> length xs = 4")
  case True
  then have "(\<exists>a b c. xs = [a, b, c]) \<or> (\<exists>a b c d. xs = [a, b, c, d])"
    by (auto simp: numeral_eq_Suc length_Suc_conv)
  then show thesis using that by blast
next
  case False
  then have "length xs < 3 \<or> 4 < length xs" by linarith
  then show thesis by (rule that)
qed

subsection \<open>Properties\<close>

text \<open>
  a reference is accepted exactly when it is \<^verbatim>\<open>op://\<close> and three or four segments joined by
  slashes, in at most 1,024 bytes, each segment non-empty, at most 256 bytes, not a dot or two
  dots, without a leading hyphen and made of plain bytes and percent escapes of neither control
  characters nor slashes; the parsed parts are those segments, so they rebuild the reference.
\<close>

theorem reference_roundtrip:
  "validate_secret_reference ref = Inr p \<longleftrightarrow>
     pr_raw p = ref \<and> ref = ''op://'' @ join_str ''/'' (ref_parts p) \<and>
     list_all ref_segment (ref_parts p) \<and> length ref \<le> 1024"
proof -
  let ?segs = "split_ch CHR 0x2F (drop 5 ref)"
  have "validate_secret_reference ref = Inr p \<longleftrightarrow>
      8 \<le> length ref \<and> length ref \<le> 1024 \<and> starts_with ref ''op://'' \<and>
      \<not> starts_with (drop 5 ref) ''/'' \<and> \<not> ends_with (drop 5 ref) ''/'' \<and>
      check_segments ref 0 ?segs = None \<and> pr_raw p = ref \<and> ?segs = ref_parts p"
    by (cases p, rule parts_cases [of ?segs])
      (auto simp: validate_secret_reference_def Let_def ref_parts_def simp del: check_segments.simps split: option.splits)
  note accepted = this [unfolded check_segments_None]
  show ?thesis
  proof
    assume "validate_secret_reference ref = Inr p"
    then have a: "length ref \<le> 1024" "starts_with ref ''op://''" "list_all ref_segment ?segs"
      "pr_raw p = ref" "?segs = ref_parts p" unfolding accepted by blast+
    have "ref = ''op://'' @ drop 5 ref" using starts_with_dropD [OF a(2)] by (simp add: numeral_eq_Suc)
    then show "pr_raw p = ref \<and> ref = ''op://'' @ join_str ''/'' (ref_parts p) \<and>
        list_all ref_segment (ref_parts p) \<and> length ref \<le> 1024"
      using a join_split_ch [of "CHR 0x2F" "drop 5 ref"] by simp
  next
    assume r: "pr_raw p = ref \<and> ref = ''op://'' @ join_str ''/'' (ref_parts p) \<and>
        list_all ref_segment (ref_parts p) \<and> length ref \<le> 1024"
    have segs: "?segs = ref_parts p"
      using r split_join [of "ref_parts p" "CHR 0x2F"]
      by (auto simp: ref_parts_def list_all_iff dest: ref_segment_no_slash)
    have ne: "[] \<notin> set ?segs" using r unfolding segs by (auto simp: list_all_iff ref_segment_def)
    have long: "3 \<le> length (drop 5 ref)"
      using join_str_length [of "ref_parts p" "''/''"] ne r unfolding segs by (simp add: ref_parts_def)
    then have "8 \<le> length ref" by simp
    moreover have ok: "list_all ref_segment ?segs" using r unfolding segs by blast
    moreover have "starts_with ref ''op://''" using r by simp
    ultimately show "validate_secret_reference ref = Inr p"
      unfolding accepted using r segs split_ch_first [OF ne] split_ch_last [OF ne] ok by blast
  qed
qed

end
