(* ===== verification/OnePassword.thy ===== *)
theory OnePassword
  imports Providers Secret_Reference
begin

section \<open>The 1Password provider\<close>

text \<open>
  Model of the rest of \<^verbatim>\<open>provider/onepassword.rs\<close>: the configuration, the environment built
  for the child process, the bounded reading of its output, the deadline, and the provider.
  The child process is outside: a \<open>Child\<close> is what it lets the parent observe, the chunks that
  successive reads return until end of file and, for each turn of the polling loop, the time
  elapsed and the answer of \<^verbatim>\<open>try_wait\<close>. Times are milliseconds. A call that panics or does not
  return is \<open>None\<close>.
\<close>

subsection \<open>Configuration\<close>

datatype OnePasswordAuthMode = SystemAuth | ServiceAccount string | SessionToken string

record OnePasswordCliConfig =
  op_enabled :: bool
  op_cli_path :: string
  op_timeout_seconds :: nat
  op_max_output_bytes :: nat
  op_account :: "string option"
  op_auth_mode :: OnePasswordAuthMode
  op_require_absolute_path :: bool

definition default_op_config :: OnePasswordCliConfig where
  "default_op_config =
     \<lparr>op_enabled = False, op_cli_path = ''op'', op_timeout_seconds = 5, op_max_output_bytes = 64 * 1024,
      op_account = None, op_auth_mode = SystemAuth, op_require_absolute_path = False\<rparr>"

record SubprocessOutput =
  so_exit_code :: "int option"
  so_success :: bool
  so_stdout :: bytes
  so_stderr :: bytes

definition env_var_char :: "string \<Rightarrow> bool" where
  "env_var_char ch \<longleftrightarrow> (case ch of [c] \<Rightarrow> is_ascii_alphanumeric c \<or> c = CHR 0x5F | _ \<Rightarrow> False)"

text \<open>The checks of the constructor; the provider it builds is the configuration and a runner.\<close>

definition with_runner :: "OnePasswordCliConfig \<Rightarrow> BoundaryError + OnePasswordCliConfig" where
  "with_runner cfg =
     (case validate_trusted_cli_path (op_cli_path cfg) (op_require_absolute_path cfg) of
        Inl e \<Rightarrow> Inl e
      | Inr _ \<Rightarrow>
          if op_timeout_seconds cfg = 0
          then Inl (ConfigurationError ''Timeout must be greater than zero'')
          else if op_max_output_bytes cfg = 0 \<or> 50 * 1024 * 1024 < op_max_output_bytes cfg
          then Inl (ConfigurationError ''max_output_bytes must be between 1 and 52428800 bytes'')
          else
            (case (case op_account cfg of Some a \<Rightarrow> validate_account_identifier a | None \<Rightarrow> Inr ()) of
               Inl e \<Rightarrow> Inl e
             | Inr _ \<Rightarrow>
                 (case op_auth_mode cfg of
                    SystemAuth \<Rightarrow> Inr cfg
                  | ServiceAccount env_var \<Rightarrow>
                      if env_var = [] \<or> 128 < length env_var \<or> \<not> list_all env_var_char (chars env_var)
                      then Inl (ConfigurationError (''Invalid service account environment variable name ''
                             @ squote env_var))
                      else Inr cfg
                  | SessionToken account \<Rightarrow>
                      (case validate_account_identifier account of Inl e \<Rightarrow> Inl e | Inr _ \<Rightarrow> Inr cfg))))"

subsection \<open>The environment of the child\<close>

definition OS_ALLOWLIST :: "string list" where
  "OS_ALLOWLIST =
     [''PATH'', ''SYSTEMROOT'', ''SYSTEMDRIVE'', ''WINDIR'', ''USERPROFILE'', ''HOME'', ''APPDATA'',
      ''LOCALAPPDATA'', ''TEMP'', ''TMP'', ''USER'', ''TMPDIR'', ''XDG_CONFIG_HOME'', ''XDG_DATA_HOME'']"

definition forwarded :: "host_env \<Rightarrow> string \<Rightarrow> (string \<times> string) option" where
  "forwarded host key = (case host key of VarOk v \<Rightarrow> Some (key, v) | _ \<Rightarrow> None)"

definition auth_token :: "host_env \<Rightarrow> string \<Rightarrow> string \<Rightarrow> string \<Rightarrow> BoundaryError + (string \<times> string)" where
  "auth_token host what var_name target =
     (case host var_name of
        VarOk token \<Rightarrow>
          if trim token = []
          then Inl (ConfigurationError (what @ '' environment variable '' @ squote var_name @ '' is empty''))
          else Inr (target, token)
      | _ \<Rightarrow> Inl (ConfigurationError (what @ '' environment variable '' @ squote var_name
               @ '' is not set in host environment'')))"

definition build_child_environment ::
  "OnePasswordCliConfig \<Rightarrow> host_env \<Rightarrow> BoundaryError + (string \<times> string) list" where
  "build_child_environment cfg host =
     (let envs = List.map_filter (forwarded host) OS_ALLOWLIST in
      case op_auth_mode cfg of
        SystemAuth \<Rightarrow> Inr envs
      | ServiceAccount env_var \<Rightarrow>
          map_sum id (\<lambda>tok. envs @ [tok]) (auth_token host ''Service account'' env_var ''OP_SERVICE_ACCOUNT_TOKEN'')
      | SessionToken account \<Rightarrow>
          (let var_name = ''OP_SESSION_'' @ account in
           map_sum id (\<lambda>tok. envs @ [tok]) (auth_token host ''Session token'' var_name var_name)))"

subsection \<open>Reading the output of the child\<close>

text \<open>The two reader threads: bytes so far, and for standard output whether the limit was passed.\<close>

fun drain_stdout :: "nat \<Rightarrow> bytes \<Rightarrow> bytes list \<Rightarrow> bytes \<times> bool" where
  "drain_stdout limit buf [] = (buf, False)"
| "drain_stdout limit buf (chunk # rest) =
     (if chunk = [] then (buf, False)
      else if limit < length buf + length chunk then (buf @ take (limit - length buf) chunk, True)
      else drain_stdout limit (buf @ chunk) rest)"

fun drain_stderr :: "bytes \<Rightarrow> bytes list \<Rightarrow> bytes" where
  "drain_stderr buf [] = buf"
| "drain_stderr buf (chunk # rest) =
     (if chunk = [] then buf
      else if 4096 < length buf + length chunk then buf @ take (4096 - length buf) chunk
      else drain_stderr (buf @ chunk) rest)"

datatype poll = Exited "int option" bool | Running | PollError string

record Child =
  ch_stdout :: "bytes list"
  ch_stderr :: "bytes list"
  ch_elapsed :: "nat \<Rightarrow> nat"
  ch_poll :: "nat \<Rightarrow> poll"

text \<open>The polling loop: \<open>Inr None\<close> when the deadline passes before the child exits.\<close>

partial_function (option) poll_loop ::
  "Child \<Rightarrow> nat \<Rightarrow> nat \<Rightarrow> (string + (int option \<times> bool) option) option" where
  "poll_loop child timeout_ms i =
     (if ch_elapsed child i < timeout_ms
      then (case ch_poll child i of
              Exited code success \<Rightarrow> Some (Inr (Some (code, success)))
            | Running \<Rightarrow> poll_loop child timeout_ms (i + 1)
            | PollError e \<Rightarrow> Some (Inl e))
      else Some (Inr None))"

type_synonym spawner = "string \<Rightarrow> string list \<Rightarrow> (string \<times> string) list \<Rightarrow> string + Child"
type_synonym runner =
  "string \<Rightarrow> string list \<Rightarrow> (string \<times> string) list \<Rightarrow> nat \<Rightarrow> nat \<Rightarrow> (BoundaryError + SubprocessOutput) option"

definition standard_run :: "spawner \<Rightarrow> runner" where
  "standard_run spawn program args envs timeout_seconds max_output_bytes =
     (case spawn program args envs of
        Inl e \<Rightarrow> Some (Inl (ProviderError (''Failed to spawn 1Password CLI binary '' @ squote program @ '': '' @ e)))
      | Inr child \<Rightarrow>
          (case poll_loop child (1000 * timeout_seconds) 0 of
             None \<Rightarrow> None
           | Some (Inl e) \<Rightarrow> Some (Inl (ProviderError (''Error polling child process: '' @ e)))
           | Some (Inr None) \<Rightarrow>
               Some (Inl (ProviderError (''1Password CLI command timed out after '' @ show_nat timeout_seconds
                 @ '' seconds and was terminated'')))
           | Some (Inr (Some (code, success))) \<Rightarrow>
               (case drain_stdout (max_output_bytes + 1) [] (ch_stdout child) of
                  (stdout, stdout_exceeded) \<Rightarrow>
                    if stdout_exceeded \<or> max_output_bytes < length stdout
                    then Some (Inl (ProviderError (''1Password CLI stdout exceeded maximum allowed size of ''
                           @ show_nat max_output_bytes @ '' bytes'')))
                    else Some (Inr \<lparr>so_exit_code = code, so_success = success, so_stdout = stdout,
                                    so_stderr = drain_stderr [] (ch_stderr child)\<rparr>))))"

subsection \<open>The mock runner\<close>

record MockInvocation =
  mi_program :: string
  mi_args :: "string list"
  mi_envs :: "(string \<times> string) list"
  mi_timeout :: nat
  mi_max_output_bytes :: nat

record MockSubprocessRunner =
  mr_invocations :: "MockInvocation list"
  mr_responses :: "(string, string + SubprocessOutput) hashmap"
  mr_default_response :: "(string + SubprocessOutput) option"

definition set_response :: "string \<Rightarrow> string + SubprocessOutput \<Rightarrow> MockSubprocessRunner \<Rightarrow> MockSubprocessRunner" where
  "set_response key res r = r\<lparr>mr_responses := hm_insert key res (mr_responses r)\<rparr>"

definition set_default_response :: "string + SubprocessOutput \<Rightarrow> MockSubprocessRunner \<Rightarrow> MockSubprocessRunner" where
  "set_default_response res r = r\<lparr>mr_default_response := Some res\<rparr>"

text \<open>The response of the first argument that has one.\<close>

fun first_response :: "(string, 'a) hashmap \<Rightarrow> string list \<Rightarrow> 'a option" where
  "first_response m [] = None"
| "first_response m (a # rest) = (case hm_get m a of Some r \<Rightarrow> Some r | None \<Rightarrow> first_response m rest)"

definition mock_run ::
  "MockSubprocessRunner \<Rightarrow> string \<Rightarrow> string list \<Rightarrow> (string \<times> string) list \<Rightarrow> nat \<Rightarrow> nat
   \<Rightarrow> (BoundaryError + SubprocessOutput) \<times> MockSubprocessRunner" where
  "mock_run r program args envs timeout_seconds max_output_bytes =
     (let invocation = \<lparr>mi_program = program, mi_args = args, mi_envs = envs, mi_timeout = timeout_seconds,
                         mi_max_output_bytes = max_output_bytes\<rparr>;
          r' = r\<lparr>mr_invocations := mr_invocations r @ [invocation]\<rparr>;
          selected =
            (case first_response (mr_responses r) args of
               Some res \<Rightarrow> res
             | None \<Rightarrow>
                 (case mr_default_response r of
                    Some res \<Rightarrow> res
                  | None \<Rightarrow> Inr \<lparr>so_exit_code = Some 0, so_success = True,
                                 so_stdout = ''synthetic-mock-secret-value-1234'', so_stderr = []\<rparr>))
      in (case selected of
            Inl e \<Rightarrow> (Inl (ProviderError e), r')
          | Inr out \<Rightarrow>
              if max_output_bytes < length (so_stdout out)
              then (Inl (ProviderError (''1Password CLI stdout exceeded maximum allowed size of ''
                     @ show_nat max_output_bytes @ '' bytes'')), r')
              else (Inr out, r')))"

subsection \<open>The provider\<close>

definition debug_exit_code :: "int option \<Rightarrow> string" where
  "debug_exit_code c = (case c of None \<Rightarrow> ''None'' | Some i \<Rightarrow> ''Some('' @ show_int i @ '')'')"

text \<open>\<^verbatim>\<open>str::is_char_boundary\<close>; a slice that ends elsewhere panics.\<close>

definition is_char_boundary :: "string \<Rightarrow> nat \<Rightarrow> bool" where
  "is_char_boundary s i \<longleftrightarrow> i = 0 \<or> i = length s \<or> (i < length s \<and> \<not> utf8_cont (s ! i))"

definition bounded_stderr :: "bytes \<Rightarrow> string option" where
  "bounded_stderr stderr =
     (let trimmed = trim (from_utf8_lossy stderr) in
      if 256 < length trimmed
      then (if is_char_boundary trimmed 256 then Some (take 256 trimmed) else None)
      else Some trimmed)"

definition op_args :: "OnePasswordCliConfig \<Rightarrow> string \<Rightarrow> string list" where
  "op_args cfg secret_ref =
     [''read'', ''--no-newline'', secret_ref] @
     (case op_account cfg of Some account \<Rightarrow> [''--account'', account] | None \<Rightarrow> [])"

text \<open>What becomes of a finished child: its error text, or its output as the secret.\<close>

definition op_secret_of_output ::
  "OnePasswordCliConfig \<Rightarrow> string \<Rightarrow> SubprocessOutput \<Rightarrow> (BoundaryError + SecretString) option" where
  "op_secret_of_output cfg secret_ref output =
     (if \<not> so_success output
      then map_option (\<lambda>bounded. Inl (ProviderError (''1Password CLI error for ref '' @ squote secret_ref
             @ '' (exit code '' @ debug_exit_code (so_exit_code output) @ ''): '' @ bounded)))
             (bounded_stderr (so_stderr output))
      else if op_max_output_bytes cfg < length (so_stdout output)
      then Some (Inl (ProviderError (''1Password CLI stdout exceeded maximum allowed size of ''
             @ show_nat (op_max_output_bytes cfg) @ '' bytes'')))
      else Some (from_bytes (so_stdout output)))"

definition op_get_secret ::
  "runner \<Rightarrow> OnePasswordCliConfig \<Rightarrow> host_env \<Rightarrow> string \<Rightarrow> (BoundaryError + SecretString) option" where
  "op_get_secret run cfg host secret_ref =
     (if \<not> op_enabled cfg
      then Some (Inl (ProviderError ''1Password CLI provider is disabled by default in configuration''))
      else
        (case validate_secret_reference secret_ref of
           Inl e \<Rightarrow> Some (Inl e)
         | Inr _ \<Rightarrow>
             (case (case op_account cfg of Some a \<Rightarrow> validate_account_identifier a | None \<Rightarrow> Inr ()) of
                Inl e \<Rightarrow> Some (Inl e)
              | Inr _ \<Rightarrow>
                  (case build_child_environment cfg host of
                     Inl e \<Rightarrow> Some (Inl e)
                   | Inr envs \<Rightarrow>
                       (case run (op_cli_path cfg) (op_args cfg secret_ref) envs (op_timeout_seconds cfg)
                               (op_max_output_bytes cfg) of
                          None \<Rightarrow> None
                        | Some (Inl e) \<Rightarrow> Some (Inl e)
                        | Some (Inr output) \<Rightarrow> op_secret_of_output cfg secret_ref output)))))"


subsection \<open>The output is bounded\<close>

lemma drain_stdout_spec:
  "length buf \<le> limit \<Longrightarrow> [] \<notin> set chunks \<Longrightarrow>
     drain_stdout limit buf chunks =
       (take limit (buf @ concat chunks), limit < length buf + length (concat chunks))"
  by (induction limit buf chunks rule: drain_stdout.induct) (auto simp: not_less)

lemma drain_stderr_spec:
  "length buf \<le> 4096 \<Longrightarrow> [] \<notin> set chunks \<Longrightarrow> drain_stderr buf chunks = take 4096 (buf @ concat chunks)"
  by (induction buf chunks rule: drain_stderr.induct) (auto simp: not_less)

text \<open>What successive reads return before end of file.\<close>

definition until_eof :: "bytes list \<Rightarrow> bytes" where
  "until_eof chunks = concat (takeWhile (\<lambda>c. c \<noteq> []) chunks)"

lemma drain_stdout_eof:
  "drain_stdout limit buf chunks = drain_stdout limit buf (takeWhile (\<lambda>c. c \<noteq> []) chunks)"
  by (induction limit buf chunks rule: drain_stdout.induct) auto

lemma drain_stderr_eof: "drain_stderr buf chunks = drain_stderr buf (takeWhile (\<lambda>c. c \<noteq> []) chunks)"
  by (induction buf chunks rule: drain_stderr.induct) auto

lemma eof_chunks: "[] \<notin> set (takeWhile (\<lambda>c. c \<noteq> []) chunks)"
  by (induction chunks) auto

lemma drain_stdout_whole:
  "drain_stdout limit [] chunks = (take limit (until_eof chunks), limit < length (until_eof chunks))"
  unfolding drain_stdout_eof [of limit "[]" chunks] until_eof_def
  by (simp add: drain_stdout_spec eof_chunks)

lemma drain_stderr_whole: "drain_stderr [] chunks = take 4096 (until_eof chunks)"
  unfolding drain_stderr_eof [of "[]" chunks] until_eof_def
  by (simp add: drain_stderr_spec eof_chunks)

lemma standard_run_success:
  "standard_run spawn program args envs timeout_s limit = Some (Inr out) \<longleftrightarrow>
     (\<exists>child code success. spawn program args envs = Inr child \<and>
        poll_loop child (1000 * timeout_s) 0 = Some (Inr (Some (code, success))) \<and>
        length (until_eof (ch_stdout child)) \<le> limit \<and>
        out = \<lparr>so_exit_code = code, so_success = success, so_stdout = until_eof (ch_stdout child),
               so_stderr = take 4096 (until_eof (ch_stderr child))\<rparr>)"
  by (auto simp: standard_run_def drain_stdout_whole drain_stderr_whole split: sum.splits option.splits)

subsection \<open>The deadline\<close>

lemma poll_loop_returns:
  assumes "timeout_ms \<le> ch_elapsed child (i + n)"
  shows "\<exists>r. poll_loop child timeout_ms i = Some r"
  using assms
proof (induction n arbitrary: i)
  case 0
  then show ?case by (subst poll_loop.simps) simp
next
  case (Suc n)
  from Suc.prems have "timeout_ms \<le> ch_elapsed child (i + 1 + n)" by simp
  from Suc.IH [OF this] show ?case
    by (subst poll_loop.simps) (auto split: poll.split)
qed


text \<open>The answer of the loop is one the child gave before the deadline, after running till then.\<close>

lemma poll_loop_exited:
  assumes "poll_loop child timeout_ms i = Some (Inr (Some (code, success)))"
    and "timeout_ms \<le> ch_elapsed child (i + n)"
  shows "\<exists>k. i \<le> k \<and> ch_elapsed child k < timeout_ms \<and> ch_poll child k = Exited code success"
  using assms
proof (induction n arbitrary: i)
  case 0
  then show ?case by (subst (asm) poll_loop.simps) simp
next
  case (Suc n)
  show ?case
  proof (cases "ch_elapsed child i < timeout_ms \<and> ch_poll child i = Running")
    case True
    then have "poll_loop child timeout_ms (i + 1) = Some (Inr (Some (code, success)))"
      using Suc.prems(1) by (subst (asm) poll_loop.simps) simp
    from Suc.IH [OF this] Suc.prems(2) obtain k where "i + 1 \<le> k" "ch_elapsed child k < timeout_ms"
      "ch_poll child k = Exited code success" by auto
    then show ?thesis by (intro exI [of _ k]) simp
  next
    case False
    with Suc.prems(1) show ?thesis
      by (subst (asm) poll_loop.simps) (auto split: if_splits poll.splits)
  qed
qed

subsection \<open>The provider keeps its promise\<close>

lemma from_bytes_Inl: "from_bytes bs = Inl e \<Longrightarrow> e = ProviderError ''Secret bytes contained invalid UTF-8''"
  by (auto simp: from_bytes_def Let_def split: if_splits)

text \<open>
  With what the child reports besides its standard output held fixed, the errors of the provider
  depend on whether that output is too long and whether it is a secret's encoding, on no more.
\<close>

definition op_on_stdout ::
  "OnePasswordCliConfig \<Rightarrow> host_env \<Rightarrow> SubprocessOutput \<Rightarrow> bytes \<Rightarrow> string \<Rightarrow> (BoundaryError + SecretString) option" where
  "op_on_stdout cfg host out stdout ref =
     op_get_secret (\<lambda>_ _ _ _ _. Some (Inr (out\<lparr>so_stdout := stdout\<rparr>))) cfg host ref"

definition op_shape :: "OnePasswordCliConfig \<Rightarrow> bytes \<Rightarrow> string \<Rightarrow> bool \<times> bool" where
  "op_shape cfg stdout ref =
     (op_max_output_bytes cfg < length stdout, case from_bytes stdout of Inl _ \<Rightarrow> True | Inr _ \<Rightarrow> False)"

lemma op_on_stdout_cases:
  "(\<exists>r. \<forall>stdout. op_on_stdout cfg host out stdout ref = r) \<or>
   (\<forall>stdout. op_on_stdout cfg host out stdout ref =
      op_secret_of_output cfg ref (out\<lparr>so_stdout := stdout\<rparr>))"
  unfolding op_on_stdout_def op_get_secret_def by (auto split: sum.split)

interpretation op: secret_provider "op_on_stdout cfg host out" "op_shape cfg" for cfg host out
proof
  fix s s' ref e
  assume sh: "op_shape cfg s ref = op_shape cfg s' ref"
  have out_eq: "op_secret_of_output cfg ref (out\<lparr>so_stdout := s'\<rparr>) = r"
    if "op_secret_of_output cfg ref (out\<lparr>so_stdout := s\<rparr>) = r" "r = None \<or> r = Some (Inl e)" for r
    using sh that from_bytes_Inl [of s] from_bytes_Inl [of s']
    by (auto simp: op_secret_of_output_def op_shape_def split: if_splits sum.splits)
  show "op_on_stdout cfg host out s ref = Some (Inl e) \<Longrightarrow> op_on_stdout cfg host out s' ref = Some (Inl e)"
    using op_on_stdout_cases [of cfg host out ref] out_eq by metis
  show "op_on_stdout cfg host out s ref = None \<Longrightarrow> op_on_stdout cfg host out s' ref = None"
    using op_on_stdout_cases [of cfg host out ref] out_eq by metis
qed

subsection \<open>Properties\<close>


definition demo_child :: Child where
  "demo_child = \<lparr>ch_stdout = [''s3cr'', ''et''], ch_stderr = [], ch_elapsed = (\<lambda>i. 20 * i),
     ch_poll = (\<lambda>i. if i = 0 then Running else Exited (Some 0) True)\<rparr>"

definition demo_spawn :: spawner where
  "demo_spawn = (\<lambda>program args envs. Inr demo_child)"


text \<open>
  the provider starts nothing unless it is enabled and the reference is well formed; the
  only command it runs is the configured binary with \<^verbatim>\<open>read --no-newline\<close>, the reference and
  perhaps an account, neither of which begins with a hyphen; and every variable of the child's
  environment is an allowlisted one with its value on the host, or the one token of the
  configured mode.
\<close>

definition args_guarded :: "OnePasswordCliConfig \<Rightarrow> string \<Rightarrow> string list \<Rightarrow> bool" where
  "args_guarded cfg ref args \<longleftrightarrow> starts_with ref ''op://'' \<and>
     (case op_account cfg of
        None \<Rightarrow> args = [''read'', ''--no-newline'', ref]
      | Some a \<Rightarrow> args = [''read'', ''--no-newline'', ref, ''--account'', a] \<and> a \<noteq> [] \<and> \<not> starts_with a ''-'')"

definition env_guarded :: "OnePasswordCliConfig \<Rightarrow> host_env \<Rightarrow> string \<times> string \<Rightarrow> bool" where
  "env_guarded cfg host kv \<longleftrightarrow>
     (case kv of (k, v) \<Rightarrow>
        k \<in> set OS_ALLOWLIST \<and> host k = VarOk v \<or>
        (case op_auth_mode cfg of
           SystemAuth \<Rightarrow> False
         | ServiceAccount var \<Rightarrow> k = ''OP_SERVICE_ACCOUNT_TOKEN'' \<and> host var = VarOk v
         | SessionToken a \<Rightarrow> k = ''OP_SESSION_'' @ a \<and> host k = VarOk v))"

lemma forwarded_guarded: "list_all (env_guarded cfg host) (List.map_filter (forwarded host) ks)"
  if "set ks \<subseteq> set OS_ALLOWLIST"
  using that by (induction ks) (auto simp: map_filter_simps forwarded_def env_guarded_def split: VarResult.splits)

lemma child_environment_guarded:
  "build_child_environment cfg host = Inr envs \<Longrightarrow> list_all (env_guarded cfg host) envs"
  using forwarded_guarded [of OS_ALLOWLIST cfg host]
  by (auto simp: build_child_environment_def Let_def auth_token_def env_guarded_def map_sum.simps
      split: OnePasswordAuthMode.splits VarResult.splits if_splits)

theorem op_call_guarded:
  "op_get_secret run cfg host ref =
     op_get_secret (\<lambda>program args envs t m.
       if op_enabled cfg \<and> program = op_cli_path cfg \<and> args_guarded cfg ref args \<and>
          list_all (env_guarded cfg host) envs \<and> t = op_timeout_seconds cfg \<and> m = op_max_output_bytes cfg
       then run program args envs t m else None) cfg host ref"
proof -
  have ref: "starts_with ref ''op://''" if "validate_secret_reference ref = Inr p" for p
    using that by (auto simp: validate_secret_reference_def Let_def split: if_splits)
  have "args_guarded cfg ref (op_args cfg ref)"
    if "validate_secret_reference ref = Inr p"
      "(case op_account cfg of Some a \<Rightarrow> validate_account_identifier a | None \<Rightarrow> Inr ()) = Inr u" for p u
    using that ref [OF that(1)]
    by (auto simp: args_guarded_def op_args_def validate_account_identifier_def split: option.splits if_splits)
  with child_environment_guarded [of cfg host] show ?thesis
    by (auto simp: op_get_secret_def split: sum.split)
qed

text \<open>
  reading a secret from a finished child panics exactly when the child failed and byte 256
  of its trimmed error text is inside a character; otherwise the result is an error, whose text
  repeats the child's error text unredacted, or the secret that the output encodes.
\<close>

theorem op_stderr_slice:
  "case op_secret_of_output cfg ref out of
     None \<Rightarrow> \<not> so_success out \<and>
       (let trimmed = trim (from_utf8_lossy (so_stderr out)) in 256 < length trimmed \<and> utf8_cont (trimmed ! 256))
   | Some r \<Rightarrow>
       if so_success out
       then (if op_max_output_bytes cfg < length (so_stdout out)
             then r = Inl (ProviderError (''1Password CLI stdout exceeded maximum allowed size of ''
                    @ show_nat (op_max_output_bytes cfg) @ '' bytes''))
             else r = from_bytes (so_stdout out))
       else (let trimmed = trim (from_utf8_lossy (so_stderr out)) in
             r = Inl (ProviderError (''1Password CLI error for ref '' @ squote ref @ '' (exit code ''
                   @ debug_exit_code (so_exit_code out) @ ''): '' @ take 256 trimmed)) \<and>
             (if 256 < length trimmed then \<not> utf8_cont (trimmed ! 256) else True))"
  by (auto simp: op_secret_of_output_def bounded_stderr_def is_char_boundary_def Let_def)

end
