(* ===== verification/Boundary.thy ===== *)
theory Boundary
  imports Https_Transport OnePassword Tool_Mapping Jsonrpc
begin

section \<open>The secret boundary of the shield\<close>

text \<open>
  Model of \<^verbatim>\<open>mcp-shield/src/secret_boundary/mod.rs\<close>: building the boundary from its
  configuration, executing an intercepted tool call through the broker, and screening the
  response. Reading the configuration file and the JSON parser are outside; a response is the
  JSON value it is printed from. A call of the broker that panics is answered like the error
  \<^verbatim>\<open>spawn_blocking\<close> reports, whose text is an argument.
\<close>

subsection \<open>Configuration\<close>

record BoundaryConfig =
  cfg_enabled :: bool
  cfg_agent_id :: string
  cfg_active_provider :: string
  cfg_synthetic_secrets :: "(string, string) hashmap"
  cfg_onepassword_cli :: "OnePasswordCliConfig option"
  cfg_tools :: "SecretBoundToolDefinition list"

definition default_boundary_config :: BoundaryConfig where
  "default_boundary_config =
     \<lparr>cfg_enabled = False, cfg_agent_id = [], cfg_active_provider = ''mock'', cfg_synthetic_secrets = [],
      cfg_onepassword_cli = None, cfg_tools = []\<rparr>"

definition REDACTED_BOUNDARY_RESPONSE :: string where
  "REDACTED_BOUNDARY_RESPONSE = ''[MCP-Shield redacted suspicious secret boundary response]''"

text \<open>The provider the broker holds.\<close>

datatype ActiveProvider =
    MockProvider MockSecretProvider
  | EnvProvider EnvSecretProvider
  | OpProvider OnePasswordCliConfig

definition provider_get :: "runner \<Rightarrow> host_env \<Rightarrow> ActiveProvider \<Rightarrow> provider" where
  "provider_get run host p ref =
     (case p of
        MockProvider m \<Rightarrow> Some (mock_get_secret m ref)
      | EnvProvider e \<Rightarrow> Some (env_get_secret e host ref)
      | OpProvider c \<Rightarrow> op_get_secret run c host ref)"

record ShieldSecretBoundary =
  sb_engine :: PolicyEngine
  sb_provider :: ActiveProvider
  sb_registry :: SecretToolRegistry
  sb_agent_id :: string

definition configure_provider :: "BoundaryConfig \<Rightarrow> string + ActiveProvider" where
  "configure_provider config =
     (if cfg_active_provider config = ''mock''
      then Inr (MockProvider (foldl (\<lambda>m (ref_path, val). insert_synthetic ref_path val m) new_mock_provider
             (cfg_synthetic_secrets config)))
      else if cfg_active_provider config = ''env'' then Inr (EnvProvider default_env_provider)
      else if cfg_active_provider config = ''1password-cli''
      then (case cfg_onepassword_cli config of
              None \<Rightarrow> Inl (''1Password CLI provider selected but `onepassword_cli` is not configured'')
            | Some cli_config \<Rightarrow>
                if \<not> op_enabled cli_config
                then Inl ''1Password CLI provider selected but onepassword_cli.enabled is false''
                else (case with_runner cli_config of
                        Inl e \<Rightarrow> Inl (''1Password CLI provider setup error: '' @ error_text e)
                      | Inr op \<Rightarrow> Inr (OpProvider op)))
      else Inl (''Unrecognized credential provider: '' @ squote (cfg_active_provider config)))"

text \<open>The loop over the tools; the first that cannot be registered aborts.\<close>

fun register_tools ::
  "(string \<Rightarrow> string + Url) \<Rightarrow> string \<Rightarrow> EnvSecretProvider option \<Rightarrow> SecretBoundToolDefinition list
   \<Rightarrow> PolicyEngine \<Rightarrow> SecretToolRegistry \<Rightarrow> string + (PolicyEngine \<times> SecretToolRegistry)" where
  "register_tools url_parse agent env_check [] engine registry = Inr (engine, registry)"
| "register_tools url_parse agent env_check (d # rest) engine registry =
     (if rule_agent_id (policy_rule d) \<noteq> agent
      then Inl (''Tool '' @ squote (tool_name d) @ '' policy rule authorizes agent ''
             @ squote (rule_agent_id (policy_rule d)) @ '' but this boundary serves '' @ squote agent
             @ ''; a rule for another agent can never be matched'')
      else
        (case (case env_check of
                 Some p \<Rightarrow> validate_var_name p (approved_credential_ref (policy_rule d))
               | None \<Rightarrow> Inr []) of
           Inl e \<Rightarrow> Inl (''Tool '' @ squote (tool_name d) @ '' has invalid env credential reference: ''
                  @ error_text e)
         | Inr _ \<Rightarrow>
             (case add_rule (policy_rule d) engine of
                Inl e \<Rightarrow> Inl (''Policy rule registration error: '' @ error_text e)
              | Inr engine' \<Rightarrow>
                  (case register_tool url_parse d registry of
                     Inl e \<Rightarrow> Inl (''Tool registration error: '' @ error_text e)
                   | Inr registry' \<Rightarrow> register_tools url_parse agent env_check rest engine' registry'))))"

definition from_config :: "(string \<Rightarrow> string + Url) \<Rightarrow> BoundaryConfig \<Rightarrow> string + ShieldSecretBoundary" where
  "from_config url_parse config =
     (if \<not> cfg_enabled config then Inl ''Secret Boundary configuration is marked disabled''
      else
        (let agent = trim (cfg_agent_id config) in
         if agent = []
         then Inl (''Secret Boundary configuration must declare a non-empty `agent_id`; ''
                @ ''it is the identity the policy engine authorizes against'')
         else if 128 < length agent \<or> has_control agent
         then Inl ''Secret Boundary `agent_id` must be at most 128 printable characters''
         else
           (case configure_provider config of
              Inl e \<Rightarrow> Inl e
            | Inr provider \<Rightarrow>
                (case register_tools url_parse agent
                        (if cfg_active_provider config = ''env'' then Some default_env_provider else None)
                        (cfg_tools config) new_engine new_registry of
                   Inl e \<Rightarrow> Inl e
                 | Inr (engine, registry) \<Rightarrow>
                     Inr \<lparr>sb_engine = engine, sb_provider = provider, sb_registry = registry,
                          sb_agent_id = agent\<rparr>))))"

text \<open>
  The environment variable holds a path or an inline document; \<open>parse\<close> is \<^verbatim>\<open>serde_json\<close> and
  \<open>read_file\<close> the file system.
\<close>

definition from_config_json ::
  "(string \<Rightarrow> string + BoundaryConfig) \<Rightarrow> (string \<Rightarrow> string + Url) \<Rightarrow> string \<Rightarrow> string + ShieldSecretBoundary" where
  "from_config_json parse url_parse doc =
     (case parse doc of
        Inl e \<Rightarrow> Inl (''Failed to parse Secret Boundary config JSON: '' @ e)
      | Inr config \<Rightarrow> from_config url_parse config)"

definition boundary_from_env ::
  "(string \<Rightarrow> string + string) \<Rightarrow> (string \<Rightarrow> string + BoundaryConfig) \<Rightarrow> (string \<Rightarrow> string + Url) \<Rightarrow> host_env
   \<Rightarrow> string + ShieldSecretBoundary option" where
  "boundary_from_env read_file parse url_parse host =
     (case host ''MCP_SHIELD_SECRET_BOUNDARY_CONFIG'' of
        VarOk raw \<Rightarrow>
          (let trimmed = trim raw in
           if trimmed = [] then Inr None
           else if starts_with trimmed ''{''
           then map_sum (\<lambda>e. ''failed to initialize secret boundary from JSON string'') Some
                  (from_config_json parse url_parse trimmed)
           else
             (case read_file trimmed of
                Inl e \<Rightarrow> Inl (''failed to read secret boundary config file: '' @ trimmed)
              | Inr content \<Rightarrow>
                  map_sum (\<lambda>e. ''failed to initialize secret boundary from config file: '' @ trimmed) Some
                    (from_config_json parse url_parse content)))
      | _ \<Rightarrow> Inr None)"

subsection \<open>Executing a call\<close>

definition rpc_failure :: "json \<Rightarrow> int \<Rightarrow> string \<Rightarrow> json" where
  "rpc_failure req_id code msg =
     JObj [(''error'', JObj [(''code'', JNum (NegInt code)), (''message'', JStr msg)]),
           (''id'', req_id), (''jsonrpc'', JStr ''2.0'')]"

definition rpc_text_result :: "json \<Rightarrow> string \<Rightarrow> json" where
  "rpc_text_result req_id t =
     JObj [(''id'', req_id), (''jsonrpc'', JStr ''2.0''),
           (''result'', JObj [(''content'', JArr [JObj [(''text'', JStr t), (''type'', JStr ''text'')]])])]"

definition sanitize_response_body :: "string \<Rightarrow> bytes \<Rightarrow> string \<times> Event list" where
  "sanitize_response_body tool body =
     (let t = from_utf8_lossy body; fs = scan_description t in
      if fs = [] then (t, [])
      else (REDACTED_BOUNDARY_RESPONSE,
            [emit ''suspicious_description'' Warning
               (JObj [(''action'', JStr ''redacted_secret_boundary_response''), (''findings'', findings_json fs),
                      (''tool'', JStr tool)])]))"

text \<open>What the boundary uses of its surroundings.\<close>

record BoundaryWorld =
  bw_url_parse :: "string \<Rightarrow> string + Url"
  bw_append_pair :: "Url \<Rightarrow> string \<Rightarrow> string \<Rightarrow> Url"
  bw_url_show :: "Url \<Rightarrow> string"
  bw_ser :: "json \<Rightarrow> string"
  bw_show_time :: "int \<Rightarrow> string"
  bw_now :: int
  bw_event_id :: string
  bw_join_error :: string
  bw_get :: "ActiveProvider \<Rightarrow> provider"
  bw_exec :: executor

definition boundary_ctx :: "BoundaryWorld \<Rightarrow> ShieldSecretBoundary \<Rightarrow> BrokerContext" where
  "boundary_ctx w b = \<lparr>bc_engine = sb_engine b, bc_url_parse = bw_url_parse w, bc_show_time = bw_show_time w,
     bc_now = bw_now w, bc_event_id = bw_event_id w\<rparr>"

definition execute_mcp_tool_call ::
  "BoundaryWorld \<Rightarrow> ShieldSecretBoundary \<Rightarrow> 64 word \<Rightarrow> JsonRpcMessage \<Rightarrow> json \<times> Event list \<times> 64 word" where
  "execute_mcp_tool_call w b counter msg =
     (let req_id = (case rpc_id msg of Some i \<Rightarrow> i | None \<Rightarrow> JNull) in
      case Option.bind (rpc_params msg) as_object of
        None \<Rightarrow> (rpc_failure req_id (- 32602) ''Invalid params: tools/call requires a params object'', [], counter)
      | Some params \<Rightarrow>
          (case get_str (JObj params) ''name'' of
             None \<Rightarrow> (rpc_failure req_id (- 32602) ''Invalid params: missing tool name'', [], counter)
           | Some tool \<Rightarrow>
               (let arguments = (case jget (JObj params) ''arguments'' of Some a \<Rightarrow> a | None \<Rightarrow> JNull) in
                case build_operation_request (bw_url_parse w) (bw_append_pair w) (bw_url_show w) (bw_ser w)
                       (sb_registry b) tool (sb_agent_id b) arguments of
                  Inl err \<Rightarrow>
                    (rpc_failure req_id (- 32602) (''Secret boundary validation error: '' @ error_text err), [], counter)
                | Inr op_request \<Rightarrow>
                    (case broker_execute (boundary_ctx w b) (bw_get w (sb_provider b)) (bw_exec w) counter op_request of
                       (result, audit, counter') \<Rightarrow>
                         (case (case result of
                                  Some r \<Rightarrow> r
                                | None \<Rightarrow> Inl (ExecutionFailed (''Broker execution task panicked: '' @ bw_join_error w))) of
                            Inr resp \<Rightarrow>
                              (case sanitize_response_body tool (sanitized_body resp) of
                                 (t, events) \<Rightarrow>
                                   (rpc_text_result req_id t, map bridge_log_event audit @ events, counter'))
                          | Inl err \<Rightarrow>
                              (rpc_failure req_id (- 32000) (''Secret boundary error: '' @ error_text err),
                               map bridge_log_event audit, counter'))))))"

subsection \<open>What a configured boundary holds\<close>

definition tool_ok ::
  "(string \<Rightarrow> string + Url) \<Rightarrow> string \<Rightarrow> EnvSecretProvider option \<Rightarrow> SecretBoundToolDefinition \<Rightarrow> bool" where
  "tool_ok url_parse agent chk d \<longleftrightarrow>
     validate url_parse d = None \<and> rule_agent_id (policy_rule d) = agent \<and>
     (case chk of
        None \<Rightarrow> True
      | Some p \<Rightarrow>
          (case validate_var_name p (approved_credential_ref (policy_rule d)) of Inl _ \<Rightarrow> False | Inr _ \<Rightarrow> True))"

lemma register_tools_step:
  assumes "register_tools url_parse agent chk (d # rest) engine registry = Inr out"
  obtains engine' registry' where "add_rule (policy_rule d) engine = Inr engine'"
    "registry' = registry\<lparr>reg_tools := hm_insert (tool_name d) d (reg_tools registry)\<rparr>"
    "tool_ok url_parse agent chk d"
    "register_tools url_parse agent chk rest engine' registry' = Inr out"
  using assms by (auto simp: register_tool_def tool_ok_def split: sum.splits if_splits option.splits)

lemma register_tools_engine:
  "register_tools url_parse agent chk ds engine registry = Inr (engine', registry') \<Longrightarrow> engine_ok engine \<Longrightarrow>
     engine_ok engine' \<and> set (pe_rules engine') = policy_rule ` set ds \<union> set (pe_rules engine)"
proof (induction ds arbitrary: engine registry)
  case (Cons d ds)
  from register_tools_step [OF Cons.prems(1)] obtain e r where e: "add_rule (policy_rule d) engine = Inr e"
    "register_tools url_parse agent chk ds e r = Inr (engine', registry')" by metis
  from add_rule_ok [OF Cons.prems(2) e(1)] Cons.IH [OF e(2)] show ?case by auto
qed simp

lemma register_tools_registry:
  "register_tools url_parse agent chk ds engine registry = Inr (engine', registry') \<Longrightarrow>
     (n, d) \<in> set (reg_tools registry') \<Longrightarrow>
     (n, d) \<in> set (reg_tools registry) \<or> (n = tool_name d \<and> d \<in> set ds \<and> tool_ok url_parse agent chk d)"
proof (induction ds arbitrary: engine registry)
  case (Cons x ds)
  from register_tools_step [OF Cons.prems(1)] obtain e r where
    r: "r = registry\<lparr>reg_tools := hm_insert (tool_name x) x (reg_tools registry)\<rparr>"
    and ok: "tool_ok url_parse agent chk x"
    and rest: "register_tools url_parse agent chk ds e r = Inr (engine', registry')" by metis
  from Cons.IH [OF rest Cons.prems(2)] show ?case
  proof
    assume "(n, d) \<in> set (reg_tools r)"
    then have "(n, d) = (tool_name x, x) \<or> (n, d) \<in> set (reg_tools registry)"
      unfolding r by (auto dest: set_hm_insert)
    then show ?thesis using ok by auto
  qed auto
qed simp

lemma from_config_Inr:
  assumes "from_config url_parse config = Inr b"
  obtains "cfg_enabled config" "sb_agent_id b = trim (cfg_agent_id config)" "sb_agent_id b \<noteq> []"
    "length (sb_agent_id b) \<le> 128" "\<not> has_control (sb_agent_id b)"
    "configure_provider config = Inr (sb_provider b)"
    "register_tools url_parse (sb_agent_id b)
       (if cfg_active_provider config = ''env'' then Some default_env_provider else None)
       (cfg_tools config) new_engine new_registry = Inr (sb_engine b, sb_registry b)"
  using assms by (auto simp: from_config_def Let_def split: if_splits sum.splits prod.splits)

subsection \<open>What the agent receives\<close>

lemma boundary_notice_clean: "scan_description REDACTED_BOUNDARY_RESPONSE = []"
  by (simp add: scan_description_Nil_iff REDACTED_BOUNDARY_RESPONSE_def INSTRUCTION_PHRASES_def SHELL_PATTERNS_def
      INVISIBLE_CHARS_def has_hidden_control_def str_defs)

lemma sanitize_clean: "scan_description (fst (sanitize_response_body tool body)) = []"
  by (simp add: sanitize_response_body_def Let_def boundary_notice_clean)

definition reply_id :: "JsonRpcMessage \<Rightarrow> json" where
  "reply_id msg = (case rpc_id msg of Some i \<Rightarrow> i | None \<Rightarrow> JNull)"

lemma reply_cases:
  assumes "execute_mcp_tool_call w b counter msg = (reply, events, counter')"
  shows "(\<exists>code text'. reply = rpc_failure (reply_id msg) code text') \<or>
    (\<exists>op resp audit tool. broker_execute (boundary_ctx w b) (bw_get w (sb_provider b)) (bw_exec w) counter op =
        (Some (Inr resp), audit, counter') \<and>
       reply = rpc_text_result (reply_id msg) (fst (sanitize_response_body tool (sanitized_body resp))))"
  using assms unfolding execute_mcp_tool_call_def Let_def reply_id_def [symmetric]
  by (simp split: option.splits sum.splits prod.splits) (blast | metis fst_conv)+

subsection \<open>Properties\<close>

text \<open>
  a boundary is built only from an enabled configuration with a printable agent identity of
  1 to 128 bytes and a recognised provider; its engine has exactly the rules of the configured
  tools, no two for one agent and operation; and every tool of its registry is a configured one
  that passed validation, whose rule authorizes this identity (and, for the environment
  provider, names a variable that provider reads).
\<close>

theorem boundary_fails_closed:
  "case from_config url_parse config of
     Inl e \<Rightarrow> True
   | Inr b \<Rightarrow>
       cfg_enabled config \<and> sb_agent_id b = trim (cfg_agent_id config) \<and> sb_agent_id b \<noteq> [] \<and>
       length (sb_agent_id b) \<le> 128 \<and> \<not> has_control (sb_agent_id b) \<and>
       configure_provider config = Inr (sb_provider b) \<and>
       engine_ok (sb_engine b) \<and> set (pe_rules (sb_engine b)) = policy_rule ` set (cfg_tools config) \<and>
       list_all (\<lambda>(n, d). n = tool_name d \<and> d \<in> set (cfg_tools config) \<and>
           tool_ok url_parse (sb_agent_id b)
             (if cfg_active_provider config = ''env'' then Some default_env_provider else None) d)
         (reg_tools (sb_registry b))"
proof (cases "from_config url_parse config")
  case (Inr b)
  from Inr show ?thesis
  proof (cases rule: from_config_Inr)
    case 1
    have "(n, d) \<notin> set (reg_tools new_registry)" for n d by (simp add: new_registry_def)
    then have "list_all (\<lambda>(n, d). n = tool_name d \<and> d \<in> set (cfg_tools config) \<and>
           tool_ok url_parse (sb_agent_id b)
             (if cfg_active_provider config = ''env'' then Some default_env_provider else None) d)
         (reg_tools (sb_registry b))"
      using register_tools_registry [OF 1(7)] by (auto simp: list_all_iff)
    moreover have "pe_rules new_engine = []" by (simp add: new_engine_def)
    ultimately show ?thesis
      using 1 register_tools_engine [OF 1(7) new_engine_ok] unfolding Inr sum.case by simp
  qed
qed simp


end
