(* ===== verification/Proxy.thy ===== *)
theory Proxy
  imports Line_Reader Inspect Listing_Trust Boundary "HOL-Library.Sublist"
begin

section \<open>The two directions of the proxy\<close>

text \<open>
  Model of \<^verbatim>\<open>forward_agent_to_server\<close> and \<^verbatim>\<open>forward_server_to_agent\<close> in
  \<^verbatim>\<open>mcp-shield/src/proxy.rs\<close>. Each direction is a loop over the lines of its input; the body
  of the loop is a function of the line and of the state the directions share. Log lines are
  not modelled; what is written to the server and to the agent, and the events emitted, are the
  outputs of a step.

  The bodies run concurrently. A body of the agent direction takes the mutex of one queue, once;
  a body of the server direction takes that of the listing queue and then, at most once, that of
  the inspections; the store belongs to the server direction. Two overlapping bodies therefore
  have the effect of one after the other, and a history is a sequence of whole bodies.
\<close>

subsection \<open>State\<close>

text \<open>
  The parser of lines, the printer of values, of keys and of messages, the environment, the
  configuration of the run and the code outside the repository.
\<close>

record ProxyWorld =
  pw_parse :: "string \<Rightarrow> string + JsonRpcMessage"
  pw_ser :: "json \<Rightarrow> string"
  pw_print :: "JsonRpcMessage \<Rightarrow> string"
  pw_snapshot :: "string \<Rightarrow> json option"
  pw_env :: env
  pw_ext :: Ext
  pw_key :: string
  pw_mode :: ShieldMode
  pw_first_contact :: FirstContact
  pw_boundary :: "ShieldSecretBoundary option"

record ProxyState =
  px_pending :: "string list"
  px_inspections :: "PendingInspection list"
  px_revocations :: Revocations
  px_counter :: "64 word"
  px_store :: BaselineStore

datatype Output = ToServer string | ToAgent string

definition analysis_context :: "ProxyWorld \<Rightarrow> AnalysisContext" where
  "analysis_context w = \<lparr>ac_hmac_key = pw_key w, ac_mode = pw_mode w, ac_first_contact = pw_first_contact w,
     ac_boundary = map_option sb_registry (pw_boundary w)\<rparr>"

subsection \<open>From the agent\<close>

text \<open>The boundary and the call it must answer itself.\<close>

definition secret_bound_call :: "ProxyWorld \<Rightarrow> JsonRpcMessage \<Rightarrow> ShieldSecretBoundary option" where
  "secret_bound_call w msg =
     (case pw_boundary w of
        None \<Rightarrow> None
      | Some b \<Rightarrow>
          if is_jsonrpc_2 msg \<and> rpc_method msg = Some ''tools/call''
          then (case Option.bind (rpc_params msg) (\<lambda>p. get_str p ''name'') of
                  None \<Rightarrow> None
                | Some name \<Rightarrow> if is_secret_tool (sb_registry b) name then Some b else None)
          else None)"

definition capacity_event :: Event where
  "capacity_event = emit ''analysis_error'' Warning
     (JObj [(''cap'', JNum (PosInt MAX_PENDING_TOOLS_LIST)),
            (''reason'', JStr ''pending tools/list correlation capacity exceeded'')])"

definition inspected_resource :: "JsonRpcMessage \<Rightarrow> InspectionKind \<Rightarrow> string option" where
  "inspected_resource msg k =
     (if k = ToolResult
      then map_option (\<lambda>name. concat (take MAX_TOOL_NAME_LENGTH (chars name)))
             (Option.bind (rpc_params msg) (\<lambda>p. get_str p ''name''))
      else None)"

text \<open>A forwarded request is remembered, so that its response can be recognised.\<close>

definition remember_request :: "ProxyWorld \<Rightarrow> JsonRpcMessage \<Rightarrow> ProxyState \<Rightarrow> ProxyState \<times> Event list" where
  "remember_request w msg st =
     (if is_jsonrpc_2 msg \<and> rpc_method msg = Some ''tools/list''
      then (case id_key (pw_ser w) msg of
              None \<Rightarrow> (st, [])
            | Some key \<Rightarrow>
                (let (evicted, pending) = track_pending (px_pending st) key in
                 (st\<lparr>px_pending := pending\<rparr>, if evicted = None then [] else [capacity_event])))
      else if is_jsonrpc_2 msg
      then (case (id_key (pw_ser w) msg, Option.bind (rpc_method msg) inspection_kind) of
              (Some key, Some k) \<Rightarrow>
                (st\<lparr>px_inspections := snd (track_inspection (px_inspections st)
                      \<lparr>pi_key = key, pi_kind = k, pi_resource_id = inspected_resource msg k\<rparr>)\<rparr>, [])
            | _ \<Rightarrow> (st, []))
      else (st, []))"

definition agent_message ::
  "ProxyWorld \<Rightarrow> BoundaryWorld \<Rightarrow> string \<Rightarrow> JsonRpcMessage \<Rightarrow> ProxyState \<Rightarrow> ProxyState \<times> Output \<times> Event list" where
  "agent_message w bw line msg st =
     (case secret_bound_call w msg of
        Some b \<Rightarrow>
          (case execute_mcp_tool_call bw b (px_counter st) msg of
             (reply, events, counter) \<Rightarrow> (st\<lparr>px_counter := counter\<rparr>, ToAgent (pw_ser w reply), events))
      | None \<Rightarrow>
          (case inspect_revoked_session_tool_call (pw_env w) msg (pw_mode w) (px_revocations st) of
             (revoked, rv, e1) \<Rightarrow>
               (let st1 = st\<lparr>px_revocations := rv\<rparr> in
                case revoked of
                  Some reply \<Rightarrow> (st1, ToAgent (pw_ser w reply), e1)
                | None \<Rightarrow>
                    (case inspect_outbound_tool_call msg (pw_mode w) of
                       (Some reply, e2) \<Rightarrow> (st1, ToAgent (pw_ser w reply), e1 @ e2)
                     | (None, e2) \<Rightarrow>
                         (case remember_request w msg st1 of
                            (st2, e3) \<Rightarrow> (st2, ToServer line, e1 @ e2 @ e3))))))"

text \<open>
  The body of the loop: blank lines are skipped, a line that does not parse ends the direction
  with an error.
\<close>

definition agent_step ::
  "ProxyWorld \<Rightarrow> BoundaryWorld \<Rightarrow> string \<Rightarrow> ProxyState \<Rightarrow> string + (ProxyState \<times> Output list \<times> Event list)" where
  "agent_step w bw line st =
     (if trim line = [] then Inr (st, [], [])
      else case pw_parse w line of
             Inl e \<Rightarrow> Inl ''invalid JSON-RPC from agent''
           | Inr msg \<Rightarrow> (case agent_message w bw line msg st of (st', out, events) \<Rightarrow> Inr (st', [out], events)))"

subsection \<open>From the server\<close>

definition list_changed_events :: "JsonRpcMessage \<Rightarrow> Event list" where
  "list_changed_events msg =
     (if rpc_method msg = Some ''notifications/tools/list_changed''
      then [emit ''tools_list_changed'' Info (JObj [])] else [])"

definition analysis_failed :: "string \<Rightarrow> Event" where
  "analysis_failed e = emit ''analysis_error'' Warning (JObj [(''error'', JStr e)])"

text \<open>Whether the message answers a pending listing; the id is taken from the queue.\<close>

definition answers_listing :: "ProxyWorld \<Rightarrow> JsonRpcMessage \<Rightarrow> ProxyState \<Rightarrow> bool \<times> ProxyState" where
  "answers_listing w msg st =
     (if is_jsonrpc_2 msg \<and> is_response msg
      then (case id_key (pw_ser w) msg of
              None \<Rightarrow> (False, st)
            | Some key \<Rightarrow>
                (let (found, pending) = take_pending (px_pending st) key in (found, st\<lparr>px_pending := pending\<rparr>)))
      else (False, st))"

definition answers_inspection :: "ProxyWorld \<Rightarrow> JsonRpcMessage \<Rightarrow> ProxyState \<Rightarrow> PendingInspection option \<times> ProxyState" where
  "answers_inspection w msg st =
     (if is_jsonrpc_2 msg \<and> is_response msg
      then (case id_key (pw_ser w) msg of
              None \<Rightarrow> (None, st)
            | Some key \<Rightarrow>
                (let (found, inspections) = take_inspection (px_inspections st) key in
                 (found, st\<lparr>px_inspections := inspections\<rparr>)))
      else (None, st))"

text \<open>An analysis that fails leaves the line as it is, and says so.\<close>

definition server_message ::
  "ProxyWorld \<Rightarrow> IO \<Rightarrow> JsonRpcMessage \<Rightarrow> ProxyState \<Rightarrow> ProxyState \<times> string option \<times> Event list" where
  "server_message w io msg st =
     (case answers_listing w msg st of
        (True, st1) \<Rightarrow>
          (case analyze_tools_list (pw_ext w) io (analysis_context w) msg (px_store st1) of
             (outcome, store, events) \<Rightarrow>
               (let st2 = st1\<lparr>px_store := store\<rparr> in
                case outcome of
                  Inr (Analyzed rewritten) \<Rightarrow> (st2, map_option (pw_print w) rewritten, list_changed_events msg @ events)
                | Inr Malformed \<Rightarrow> (st2, None, list_changed_events msg @ events)
                | Inl e \<Rightarrow> (st2, None, list_changed_events msg @ events @ [analysis_failed e])))
      | (False, st1) \<Rightarrow>
          (case answers_inspection w msg st1 of
             (Some inspection, st2) \<Rightarrow>
               (case analyze_inspectable_response msg inspection (pw_mode w) (io_trace io) of
                  (Inr rewritten, events) \<Rightarrow>
                    (st2, map_option (pw_print w) rewritten, list_changed_events msg @ events)
                | (Inl e, events) \<Rightarrow> (st2, None, list_changed_events msg @ events @ [analysis_failed e]))
           | (None, st2) \<Rightarrow> (st2, None, list_changed_events msg)))"

definition server_step ::
  "ProxyWorld \<Rightarrow> IO \<Rightarrow> string \<Rightarrow> ProxyState \<Rightarrow> string + (ProxyState \<times> Output list \<times> Event list)" where
  "server_step w io line st =
     (if trim line = [] then Inr (st, [], [])
      else case pw_parse w line of
             Inl e \<Rightarrow> Inl ''invalid JSON-RPC from server''
           | Inr msg \<Rightarrow>
               (case server_message w io msg st of
                  (st', rewritten, events) \<Rightarrow> Inr (st', [ToAgent (unwrap_or rewritten line)], events)))"

subsection \<open>Histories\<close>

text \<open>
  A step is a line from the agent, a line from the server, or a response of the dashboard, which
  the outbox thread hands to the mirror of revoked sessions. A direction that fails ends the run.
\<close>

datatype Step = AgentSends string BoundaryWorld | ServerSends string IO | DashboardAnswers string

fun proxy_step :: "ProxyWorld \<Rightarrow> Step \<Rightarrow> ProxyState \<Rightarrow> string + (ProxyState \<times> Output list \<times> Event list)" where
  "proxy_step w (AgentSends line bw) st = agent_step w bw line st"
| "proxy_step w (ServerSends line io) st = server_step w io line st"
| "proxy_step w (DashboardAnswers body) st =
     Inr (st\<lparr>px_revocations := snd (observe_revoked_sessions (pw_snapshot w) body (px_revocations st))\<rparr>, [], [])"

fun run_proxy :: "ProxyWorld \<Rightarrow> Step list \<Rightarrow> ProxyState \<Rightarrow> string option \<times> ProxyState \<times> Output list \<times> Event list" where
  "run_proxy w [] st = (None, st, [], [])"
| "run_proxy w (s # rest) st =
     (case proxy_step w s st of
        Inl e \<Rightarrow> (Some e, st, [], [])
      | Inr (st1, out1, ev1) \<Rightarrow>
          (case run_proxy w rest st1 of (err, st2, out2, ev2) \<Rightarrow> (err, st2, out1 @ out2, ev1 @ ev2)))"

text \<open>A fresh run, with the store loaded at its start.\<close>

definition start_proxy :: "BaselineStore \<Rightarrow> ProxyState" where
  "start_proxy store = \<lparr>px_pending = [], px_inspections = [],
     px_revocations = \<lparr>rv_sessions = [], rv_reported = []\<rparr>, px_counter = 0, px_store = store\<rparr>"

end
