(* ===== verification/Proxy_Trust.thy ===== *)
theory Proxy_Trust
  imports Proxy
begin

section \<open>Trust across the proxy\<close>

text \<open>
  Properties of whole runs of the proxy: what reaches the server, what is kept of the state, and
  that the response to a listing request is the one that is analysed. The queue facts come from
  the interpretations of \<open>keyed_fifo\<close>.
\<close>

subsection \<open>One step\<close>

lemma agent_message_cases:
  obtains
    (boundary) b reply events where "secret_bound_call w msg = Some b"
      "fst (execute_mcp_tool_call bw b (px_counter st) msg) = reply"
      "agent_message w bw line msg st =
         (st\<lparr>px_counter := snd (snd (execute_mcp_tool_call bw b (px_counter st) msg))\<rparr>, ToAgent (pw_ser w reply), events)"
  | (revoked) rv reply events where "secret_bound_call w msg = None"
      "fst (inspect_revoked_session_tool_call (pw_env w) msg (pw_mode w) (px_revocations st)) = Some reply"
      "agent_message w bw line msg st = (st\<lparr>px_revocations := rv\<rparr>, ToAgent (pw_ser w reply), events)"
  | (blocked) rv reply events where "secret_bound_call w msg = None"
      "fst (inspect_revoked_session_tool_call (pw_env w) msg (pw_mode w) (px_revocations st)) = None"
      "fst (inspect_outbound_tool_call msg (pw_mode w)) = Some reply"
      "agent_message w bw line msg st = (st\<lparr>px_revocations := rv\<rparr>, ToAgent (pw_ser w reply), events)"
  | (forwarded) rv events where "secret_bound_call w msg = None"
      "fst (inspect_revoked_session_tool_call (pw_env w) msg (pw_mode w) (px_revocations st)) = None"
      "fst (inspect_outbound_tool_call msg (pw_mode w)) = None"
      "agent_message w bw line msg st =
         (fst (remember_request w msg (st\<lparr>px_revocations := rv\<rparr>)), ToServer line, events)"
proof (cases "secret_bound_call w msg")
  case (Some b)
  then show ?thesis using boundary [of b] by (cases "execute_mcp_tool_call bw b (px_counter st) msg") (auto simp: agent_message_def)
next
  case None
  obtain r rv e1 where r: "inspect_revoked_session_tool_call (pw_env w) msg (pw_mode w) (px_revocations st) = (r, rv, e1)"
    using prod_cases3 by blast
  obtain o' e2 where o': "inspect_outbound_tool_call msg (pw_mode w) = (o', e2)" by fastforce
  note unf = agent_message_def None r o' option.case prod.case Let_def
  consider (r) reply where "r = Some reply" | (b) reply where "r = None" "o' = Some reply" | (f) "r = None" "o' = None"
    by (cases r; cases o') auto
  then show ?thesis
  proof cases
    case f
    show ?thesis
      by (rule forwarded [of rv "e1 @ e2 @ snd (remember_request w msg (st\<lparr>px_revocations := rv\<rparr>))"])
        (simp_all add: f unf split_beta)
  qed (use None r o' revoked blocked in \<open>auto simp: agent_message_def Let_def\<close>)
qed

text \<open>The queue operations of a step.\<close>

lemma remember_queues:
  "px_pending (fst (remember_request w msg st)) =
     (case if is_jsonrpc_2 msg \<and> rpc_method msg = Some ''tools/list'' then id_key (pw_ser w) msg else None of
        Some key \<Rightarrow> run_pending (Track key) (px_pending st) | None \<Rightarrow> px_pending st)"
  "(\<exists>q. px_inspections (fst (remember_request w msg st)) = run_inspection (Track q) (px_inspections st)) \<or>
   px_inspections (fst (remember_request w msg st)) = px_inspections st"
  "px_store (fst (remember_request w msg st)) = px_store st"
  by (auto simp: remember_request_def split: option.splits prod.splits)

lemma agent_message_frame:
  "px_store (fst (agent_message w bw line msg st)) = px_store st"
  "px_pending (fst (agent_message w bw line msg st)) =
     (case if (\<exists>l. fst (snd (agent_message w bw line msg st)) = ToServer l) \<and> is_jsonrpc_2 msg \<and>
              rpc_method msg = Some ''tools/list'' then id_key (pw_ser w) msg else None of
        Some key \<Rightarrow> run_pending (Track key) (px_pending st) | None \<Rightarrow> px_pending st)"
  "(\<exists>q. px_inspections (fst (agent_message w bw line msg st)) = run_inspection (Track q) (px_inspections st)) \<or>
   px_inspections (fst (agent_message w bw line msg st)) = px_inspections st"
  by (cases rule: agent_message_cases [of w msg bw st line];
      use remember_queues [of w msg "st\<lparr>px_revocations := _\<rparr>"] in \<open>simp split: option.splits\<close>)+

lemma server_message_pending:
  "px_pending (fst (server_message w io msg st)) =
     (case if is_jsonrpc_2 msg \<and> is_response msg then id_key (pw_ser w) msg else None of
        Some key \<Rightarrow> run_pending (Take key) (px_pending st) | None \<Rightarrow> px_pending st)"
  by (auto simp: server_message_def answers_listing_def answers_inspection_def Let_def
      split: option.splits prod.splits sum.splits AnalysisOutcome.splits if_splits bool.splits)

lemma server_message_inspections:
  "(\<exists>k. px_inspections (fst (server_message w io msg st)) = run_inspection (Take k) (px_inspections st)) \<or>
   px_inspections (fst (server_message w io msg st)) = px_inspections st"
proof -
  have i: "(\<exists>k. px_inspections (snd (answers_inspection w msg s)) = run_inspection (Take k) (px_inspections s)) \<or>
      px_inspections (snd (answers_inspection w msg s)) = px_inspections s" for s
    by (auto simp: answers_inspection_def split: option.splits prod.splits) (metis snd_conv)
  have l: "px_inspections (snd (answers_listing w msg st)) = px_inspections st"
    by (auto simp: answers_listing_def split: option.splits prod.splits)
  have "px_inspections (fst (server_message w io msg st)) = px_inspections st \<or>
      px_inspections (fst (server_message w io msg st)) =
        px_inspections (snd (answers_inspection w msg (snd (answers_listing w msg st))))"
    using l by (auto simp: server_message_def Let_def split: prod.splits sum.splits AnalysisOutcome.splits option.splits bool.splits)
  then show ?thesis using i [of "snd (answers_listing w msg st)"] l by auto
qed

lemma server_message_store:
  "px_store (fst (server_message w io msg st)) = px_store st \<or>
   px_store (fst (server_message w io msg st)) =
     fst (snd (analyze_tools_list (pw_ext w) io (analysis_context w) msg (px_store st)))"
proof -
  have i: "px_store (snd (answers_inspection w msg s)) = px_store s" for s
    by (auto simp: answers_inspection_def split: option.splits prod.splits)
  have l: "px_store (snd (answers_listing w msg st)) = px_store st"
    by (auto simp: answers_listing_def split: option.splits prod.splits)
  show ?thesis using l i [of "snd (answers_listing w msg st)"]
    by (auto simp: server_message_def Let_def split: prod.splits sum.splits AnalysisOutcome.splits option.splits bool.splits)
qed

subsection \<open>The store stays authentic\<close>

definition store_ok :: "Ext \<Rightarrow> string \<Rightarrow> BaselineStore \<Rightarrow> bool" where
  "store_ok x key s \<longleftrightarrow> store_authentic (x_mac x) (x_ser x) s \<and> bs_key s = key"

lemma analyze_tool_store_ok:
  assumes n: "n < length tools" and ok: "store_ok x (ac_hmac_key ctx) (lp_store st)"
  shows "store_ok x (ac_hmac_key ctx)
    (lp_store (analyze_tool x io ctx tools (inspect_tool_entries tools ! n) n (tools ! n) st))"
proof (cases "withheld (inspect_tool_entries tools ! n)")
  case True
  then show ?thesis using ok by (simp add: analyze_tool_withheld)
next
  case False
  then obtain nm where "trimmed_name (tools ! n) = Some nm"
    using n by (auto simp: inspect_nth elim: not_withheldD)
  then have "get_str (tools ! n) ''name'' = Some (tool_label (tools ! n)) \<and> tool_label (tools ! n) \<noteq> []"
    using trimmed_name_label by blast
  with analyze_tool_step [of x io ctx tools n "tools ! n" "inspect_tool_entries tools ! n" st] ok
  show ?thesis by (auto simp: step_ok_def store_ok_def store_grows_def)
qed

lemma analyze_tools_store_ok:
  "\<forall>(i, t) \<in> set its. i < length tools \<and> t = tools ! i \<Longrightarrow> store_ok x (ac_hmac_key ctx) (lp_store st) \<Longrightarrow>
     store_ok x (ac_hmac_key ctx) (lp_store (analyze_tools x io ctx tools its st))"
proof (induction its arbitrary: st)
  case (Cons it its)
  obtain i t where it: "it = (i, t)" "i < length tools" "t = tools ! i" using Cons.prems(1) by (cases it) auto
  from Cons.IH [OF _ analyze_tool_store_ok [OF it(2) Cons.prems(2)]] Cons.prems it
  show ?case using analyze_tool_store_ok [OF it(2) Cons.prems(2)] by (simp add: Let_def)
qed simp

lemma analyze_store_ok:
  assumes "store_ok x (ac_hmac_key ctx) s"
  shows "store_ok x (ac_hmac_key ctx) (fst (snd (analyze_tools_list x io ctx msg s)))"
proof (cases "listed_tools msg")
  case None
  then show ?thesis using assms by (simp add: analyze_tools_list_def)
next
  case (Some tools)
  define s1 where "s1 = snd (reload_store x io s)"
  define st where "st = analyze_tools x io ctx tools (enumerate 0 tools) (start_loop s1)"
  have "store_ok x (ac_hmac_key ctx) s1"
    using assms reload_store_fields [where x = x and s = s and io = io] by (simp add: store_ok_def s1_def)
  then have "store_ok x (ac_hmac_key ctx) (lp_store st)"
    unfolding st_def by (intro analyze_tools_store_ok) (auto simp: in_set_enumerate_eq start_loop_def)
  moreover have "store_ok x k (snd (persist_store x io s)) = store_ok x k s" for k s
    by (simp add: store_ok_def store_authentic_def persist_store_fields)
  ultimately show ?thesis
    using analysis_outcome(2,3) [OF Some st_def [unfolded s1_def] s1_def]
    by (cases "lp_failed st") simp_all
qed

subsection \<open>Every reachable state\<close>

definition proxy_ok :: "ProxyWorld \<Rightarrow> ProxyState \<Rightarrow> bool" where
  "proxy_ok w st \<longleftrightarrow>
     fifo_ok (\<lambda>k. k) MAX_PENDING_TOOLS_LIST (px_pending st) \<and>
     fifo_ok pi_key MAX_PENDING_TOOLS_LIST (px_inspections st) \<and>
     store_ok (pw_ext w) (pw_key w) (px_store st)"

lemma run_queue_ok:
  "fifo_ok (\<lambda>k. k) MAX_PENDING_TOOLS_LIST p \<Longrightarrow> fifo_ok (\<lambda>k. k) MAX_PENDING_TOOLS_LIST (run_pending x p)"
  "fifo_ok pi_key MAX_PENDING_TOOLS_LIST q \<Longrightarrow> fifo_ok pi_key MAX_PENDING_TOOLS_LIST (run_inspection y q)"
  by (simp_all only: run_pending_eq run_inspection_eq pend.run_ok insp.run_ok)

lemma agent_message_ok:
  assumes "proxy_ok w st"
  shows "proxy_ok w (fst (agent_message w bw line msg st))"
proof -
  have "fifo_ok (\<lambda>k. k) MAX_PENDING_TOOLS_LIST (px_pending (fst (agent_message w bw line msg st)))"
    using assms unfolding agent_message_frame(2) proxy_ok_def
    by (auto split: option.splits simp del: run_pending.simps intro: run_queue_ok)
  moreover have "fifo_ok pi_key MAX_PENDING_TOOLS_LIST (px_inspections (fst (agent_message w bw line msg st)))"
    using agent_message_frame(3) [of w bw line msg st] assms run_queue_ok(2) unfolding proxy_ok_def by metis
  ultimately show ?thesis using assms unfolding proxy_ok_def by (simp add: agent_message_frame(1))
qed

lemma server_message_ok:
  assumes "proxy_ok w st"
  shows "proxy_ok w (fst (server_message w io msg st))"
proof -
  have "fifo_ok (\<lambda>k. k) MAX_PENDING_TOOLS_LIST (px_pending (fst (server_message w io msg st)))"
    using assms unfolding server_message_pending proxy_ok_def
    by (auto split: option.splits simp del: run_pending.simps intro: run_queue_ok)
  moreover have "fifo_ok pi_key MAX_PENDING_TOOLS_LIST (px_inspections (fst (server_message w io msg st)))"
    using server_message_inspections [of w io msg st] assms run_queue_ok(2) unfolding proxy_ok_def by metis
  moreover have "store_ok (pw_ext w) (pw_key w) (px_store (fst (server_message w io msg st)))"
    using server_message_store [of w io msg st] assms
      analyze_store_ok [of "pw_ext w" "analysis_context w" "px_store st" io msg]
    by (auto simp: proxy_ok_def analysis_context_def)
  ultimately show ?thesis unfolding proxy_ok_def by simp
qed

lemma proxy_step_ok:
  assumes "proxy_ok w st" "proxy_step w s st = Inr (st', out, ev)"
  shows "proxy_ok w st'"
proof (cases s)
  case (AgentSends line bw)
  then show ?thesis using assms agent_message_ok [OF assms(1), of bw line]
    by (auto simp: agent_step_def split: if_splits sum.splits prod.splits) (metis fst_conv)
next
  case (ServerSends line io)
  then show ?thesis using assms server_message_ok [OF assms(1), of io]
    by (auto simp: server_step_def split: if_splits sum.splits prod.splits) (metis fst_conv)
qed (use assms in \<open>auto simp: proxy_ok_def\<close>)

lemma run_proxy_ok: "proxy_ok w st \<Longrightarrow> proxy_ok w (fst (snd (run_proxy w steps st)))"
proof (induction steps arbitrary: st)
  case (Cons s steps)
  show ?case
  proof (cases "proxy_step w s st")
    case (Inr r)
    obtain st1 out ev where r: "r = (st1, out, ev)" by (cases r)
    from Cons.IH [OF proxy_step_ok [OF Cons.prems Inr [unfolded r]]] Inr r
    show ?thesis by (auto split: prod.splits)
  qed (use Cons.prems in simp)
qed simp

lemma start_proxy_ok: "store_ok (pw_ext w) (pw_key w) s \<Longrightarrow> proxy_ok w (start_proxy s)"
  by (simp add: proxy_ok_def start_proxy_def fifo_ok_def)

subsection \<open>A listing request and its response\<close>

definition listing_request :: "ProxyWorld \<Rightarrow> string \<Rightarrow> string option" where
  "listing_request w line =
     (case pw_parse w line of
        Inl e \<Rightarrow> None
      | Inr msg \<Rightarrow> if is_jsonrpc_2 msg \<and> rpc_method msg = Some ''tools/list'' then id_key (pw_ser w) msg else None)"

definition response_key :: "ProxyWorld \<Rightarrow> string \<Rightarrow> string option" where
  "response_key w line =
     (case pw_parse w line of
        Inl e \<Rightarrow> None
      | Inr msg \<Rightarrow> if is_jsonrpc_2 msg \<and> is_response msg then id_key (pw_ser w) msg else None)"

text \<open>The steps that use a listing id, and those that track one.\<close>

fun uses_key :: "ProxyWorld \<Rightarrow> string \<Rightarrow> Step \<Rightarrow> bool" where
  "uses_key w key (AgentSends line bw) = (listing_request w line = Some key)"
| "uses_key w key (ServerSends line io) = (response_key w line = Some key)"
| "uses_key w key (DashboardAnswers body) = False"

fun lists_tools :: "ProxyWorld \<Rightarrow> Step \<Rightarrow> bool" where
  "lists_tools w (AgentSends line bw) = (listing_request w line \<noteq> None)"
| "lists_tools w _ = False"

lemma proxy_step_pending:
  assumes "proxy_step w s st = Inr (st', out, ev)"
  shows "px_pending st' = px_pending st \<or>
    (\<exists>x. px_pending st' = run_pending x (px_pending st) \<and>
       uses_key w (op_key (\<lambda>k. k) x) s \<and> (is_track x = lists_tools w s))"
proof (cases s)
  case (AgentSends line bw)
  show ?thesis
  proof (cases "pw_parse w line")
    case (Inr msg)
    then have "px_pending st' = px_pending (fst (agent_message w bw line msg st)) \<or> px_pending st' = px_pending st"
      using assms AgentSends by (auto simp: agent_step_def split: if_splits prod.splits)
    then show ?thesis using AgentSends Inr unfolding agent_message_frame(2)
      by (auto simp: listing_request_def simp del: run_pending.simps split: if_splits option.splits
          intro!: exI [of _ "Track _"])
  qed (use assms AgentSends in \<open>auto simp: agent_step_def split: if_splits\<close>)
next
  case (ServerSends line io)
  show ?thesis
  proof (cases "pw_parse w line")
    case (Inr msg)
    then have "px_pending st' = px_pending (fst (server_message w io msg st)) \<or> px_pending st' = px_pending st"
      using assms ServerSends by (auto simp: server_step_def split: if_splits prod.splits)
    then show ?thesis using ServerSends Inr unfolding server_message_pending
      by (auto simp: response_key_def simp del: run_pending.simps split: if_splits option.splits
          intro!: exI [of _ "Take _"])
  qed (use assms ServerSends in \<open>auto simp: server_step_def split: if_splits\<close>)
qed (use assms in auto)

lemma still_pending:
  assumes "run_proxy w steps st = (None, st', out, ev)" "proxy_ok w st" "pend.behind (px_pending st) key n"
    and "list_all (\<lambda>s. \<not> uses_key w key s) steps" "n + length (filter (lists_tools w) steps) < MAX_PENDING_TOOLS_LIST"
  shows "\<exists>m < MAX_PENDING_TOOLS_LIST. pend.behind (px_pending st') key m"
  using assms
proof (induction steps arbitrary: st n out ev)
  case (Cons s steps)
  obtain st1 o1 e1 where step: "proxy_step w s st = Inr (st1, o1, e1)"
    using Cons.prems(1) by (auto split: sum.splits)
  obtain o2 e2 where rest: "run_proxy w steps st1 = (None, st', o2, e2)"
    using Cons.prems(1) by (auto simp: step split: prod.splits)
  have ok: "proxy_ok w st1" by (rule proxy_step_ok [OF Cons.prems(2) step])
  have "pend.behind (px_pending st1) key (n + (if lists_tools w s then 1 else 0))"
    using proxy_step_pending [OF step]
  proof (elim disjE exE conjE)
    assume "px_pending st1 = px_pending st"
    then show ?thesis using Cons.prems(3) unfolding pend.behind_def by (force intro: order_trans)
  next
    fix x assume x: "px_pending st1 = run_pending x (px_pending st)" "uses_key w (op_key (\<lambda>k. k) x) s"
      "is_track x = lists_tools w s"
    have "op_key (\<lambda>k. k) x \<noteq> key" using x(2) Cons.prems(4) by auto
    moreover have "n + (if is_track x then 1 else 0) < MAX_PENDING_TOOLS_LIST"
      using Cons.prems(5) x(3) by (auto split: if_splits)
    ultimately show ?thesis using pend.behind_step [of "px_pending st" key n x] Cons.prems(2,3) x(1,3)
      unfolding run_pending_eq proxy_ok_def by simp
  qed
  from Cons.IH [OF rest ok this] Cons.prems(4,5) show ?case by (auto split: if_splits)
qed auto

lemma run_proxy_append:
  "run_proxy w (a @ b) st =
     (case run_proxy w a st of
        (Some e, st1, out, ev) \<Rightarrow> (Some e, st1, out, ev)
      | (None, st1, out, ev) \<Rightarrow>
          (case run_proxy w b st1 of (err, st2, out2, ev2) \<Rightarrow> (err, st2, out @ out2, ev @ ev2)))"
  by (induction a arbitrary: st) (auto split: sum.splits prod.splits option.splits)

text \<open>A listing request is never a tool call, so it is always forwarded and tracked.\<close>

lemma listing_request_tracked:
  assumes "listing_request w line = Some key" "trim line \<noteq> []" "agent_step w bw line st = Inr (st', out, ev)"
  shows "out = [ToServer line] \<and> px_pending st' = run_pending (Track key) (px_pending st)"
proof -
  obtain msg where msg: "pw_parse w line = Inr msg" "is_jsonrpc_2 msg" "rpc_method msg = Some ''tools/list''"
      "id_key (pw_ser w) msg = Some key"
    using assms(1) by (auto simp: listing_request_def split: sum.splits if_splits)
  have "\<not> is_tools_call msg" "secret_bound_call w msg = None"
    using msg(3) by (auto simp: is_tools_call_def secret_bound_call_def split: option.splits)
  then have "agent_message w bw line msg st =
      (fst (remember_request w msg st), ToServer line, snd (remember_request w msg st))"
    by (simp add: agent_message_def inspect_revoked_session_tool_call_def inspect_outbound_tool_call_def split_beta)
  then show ?thesis using assms(2,3) msg
    by (auto simp: agent_step_def remember_queues(1) simp del: run_pending.simps)
qed

subsection \<open>Rewriting keeps the id\<close>

lemma listing_keeps_id:
  "fst (analyze_tools_list x io ctx msg s) = Inr (Analyzed (Some m)) \<Longrightarrow> rpc_id m = rpc_id msg"
  by (auto simp: analyze_tools_list_def rebuild_response_def map_sum_def Let_def
      split: option.splits prod.splits if_splits sum.splits json.splits)

lemma rebuilt_keeps_id: "rebuild_result_array msg key vs = Inr m \<Longrightarrow> rpc_id m = rpc_id msg"
  by (auto simp: rebuild_result_array_def split: option.splits)

lemma inspection_keeps_id:
  "fst (analyze_inspectable_response msg inspection mode trace) = Inr (Some m) \<Longrightarrow> rpc_id m = rpc_id msg"
  by (auto simp: analyze_inspectable_response_def analyze_error_response_def analyze_tool_result_def
      analyze_catalog_def map_sum_def Let_def dest!: rebuilt_keeps_id
      split: option.splits prod.splits if_splits sum.splits)

lemma server_message_line:
  "case fst (snd (server_message w io msg st)) of
     None \<Rightarrow> True
   | Some l \<Rightarrow> is_jsonrpc_2 msg \<and> is_response msg \<and> (\<exists>m. l = pw_print w m \<and> rpc_id m = rpc_id msg)"
proof (cases "is_jsonrpc_2 msg \<and> is_response msg")
  case True
  obtain found st1 where l: "answers_listing w msg st = (found, st1)" by fastforce
  obtain insp st2 where i: "answers_inspection w msg st1 = (insp, st2)" by fastforce
  show ?thesis
  proof (cases found)
    case True
    obtain out store ev where a: "analyze_tools_list (pw_ext w) io (analysis_context w) msg (px_store st1) = (out, store, ev)"
      by (metis prod_cases3)
    show ?thesis using \<open>is_jsonrpc_2 msg \<and> is_response msg\<close>
        listing_keeps_id [of "pw_ext w" io "analysis_context w" msg "px_store st1"]
      by (auto simp: server_message_def l True a Let_def split: sum.splits AnalysisOutcome.splits option.splits)
  next
    case False
    show ?thesis using \<open>is_jsonrpc_2 msg \<and> is_response msg\<close> inspection_keeps_id [of msg _ "pw_mode w" "io_trace io"]
      by (auto simp: server_message_def l False i Let_def split: sum.splits option.splits prod.splits)
        (metis fst_conv)
  qed
qed (auto simp: server_message_def answers_listing_def answers_inspection_def)

subsection \<open>Properties\<close>

text \<open>The lines that are not blank, and what one of them may cause.\<close>

fun speaks :: "Step \<Rightarrow> bool" where
  "speaks (AgentSends line bw) = (trim line \<noteq> [])"
| "speaks (ServerSends line io) = (trim line \<noteq> [])"
| "speaks (DashboardAnswers body) = False"

definition explains_agent :: "ProxyWorld \<Rightarrow> string \<Rightarrow> JsonRpcMessage \<Rightarrow> Output \<Rightarrow> bool" where
  "explains_agent w line msg out \<longleftrightarrow>
     (case out of
        ToServer l \<Rightarrow> l = line \<and> secret_bound_call w msg = None \<and> fst (inspect_outbound_tool_call msg (pw_mode w)) = None
      | ToAgent l \<Rightarrow> is_tools_call msg \<and> (\<exists>j. l = pw_ser w j \<and> jget j ''id'' = Some (reply_id msg)))"

definition explains_server :: "ProxyWorld \<Rightarrow> string \<Rightarrow> JsonRpcMessage \<Rightarrow> Output \<Rightarrow> bool" where
  "explains_server w line msg out \<longleftrightarrow>
     (case out of
        ToServer l \<Rightarrow> False
      | ToAgent l \<Rightarrow> if l = line then True
          else is_jsonrpc_2 msg \<and> is_response msg \<and> (\<exists>m. l = pw_print w m \<and> rpc_id m = rpc_id msg))"

fun explains :: "ProxyWorld \<Rightarrow> Step \<Rightarrow> Output \<Rightarrow> bool" where
  "explains w (AgentSends line bw) out = (case pw_parse w line of Inl e \<Rightarrow> False | Inr msg \<Rightarrow> explains_agent w line msg out)"
| "explains w (ServerSends line io) out = (case pw_parse w line of Inl e \<Rightarrow> False | Inr msg \<Rightarrow> explains_server w line msg out)"
| "explains w (DashboardAnswers body) out = False"

lemma blocked_response_id: "jget (blocked_response msg n) ''id'' = Some (reply_id msg)"
  by (simp add: blocked_response_def reply_id_def unwrap_or_def split: option.splits)

lemma blocked_replies:
  "fst (inspect_revoked_session_tool_call env msg mode st) = Some r \<Longrightarrow> is_tools_call msg \<and> (\<exists>n. r = blocked_response msg n)"
  "fst (inspect_outbound_tool_call msg mode) = Some r \<Longrightarrow> is_tools_call msg \<and> (\<exists>n. r = blocked_response msg n)"
  by (auto simp: inspect_revoked_session_tool_call_def inspect_outbound_tool_call_def Let_def
      split: if_splits option.splits)

lemma boundary_reply_id:
  "jget (fst (execute_mcp_tool_call bw b c msg)) ''id'' = Some (reply_id msg)"
proof -
  obtain r ev c' where e: "execute_mcp_tool_call bw b c msg = (r, ev, c')" by (metis prod_cases3)
  show ?thesis using reply_cases [OF e] by (auto simp: e rpc_failure_def rpc_text_result_def)
qed

lemma agent_explained: "explains_agent w line msg (fst (snd (agent_message w bw line msg st)))"
proof (cases rule: agent_message_cases [of w msg bw st line])
  case (boundary b reply events)
  have "is_tools_call msg" using boundary(1) by (auto simp: secret_bound_call_def is_tools_call_def split: option.splits if_splits)
  then show ?thesis using boundary(3) boundary_reply_id [of bw b "px_counter st" msg, unfolded boundary(2)]
    by (auto simp: explains_agent_def)
next
  case (revoked rv reply events)
  then show ?thesis using blocked_replies(1) [OF revoked(2)] blocked_response_id by (auto simp: explains_agent_def)
next
  case (blocked rv reply events)
  then show ?thesis using blocked_replies(2) [OF blocked(3)] blocked_response_id by (auto simp: explains_agent_def)
qed (simp add: explains_agent_def)

lemma server_explained:
  "server_message w io msg st = (st', rewritten, ev) \<Longrightarrow> explains_server w line msg (ToAgent (unwrap_or rewritten line))"
  using server_message_line [where w = w and io = io and msg = msg and st = st]
  by (cases rewritten) (simp_all add: explains_server_def unwrap_or_def)

lemma proxy_step_explained:
  assumes "proxy_step w s st = Inr (st', out, ev)"
  shows "if speaks s then \<exists>o'. out = [o'] \<and> explains w s o' else out = []"
proof (cases s)
  case (AgentSends line bw)
  show ?thesis
  proof (cases "trim line = [] \<or> (\<exists>e. pw_parse w line = Inl e)")
    case False
    then obtain msg where msg: "pw_parse w line = Inr msg" by (cases "pw_parse w line") auto
    obtain st2 o' e where m: "agent_message w bw line msg st = (st2, o', e)" by (metis prod_cases3)
    have "explains_agent w line msg o'" using agent_explained [of w line msg bw st] by (simp add: m)
    then show ?thesis using assms AgentSends False by (auto simp: agent_step_def msg m)
  qed (use assms AgentSends in \<open>auto simp: agent_step_def split: if_splits\<close>)
next
  case (ServerSends line io)
  show ?thesis
  proof (cases "trim line = [] \<or> (\<exists>e. pw_parse w line = Inl e)")
    case False
    then obtain msg where msg: "pw_parse w line = Inr msg" by (cases "pw_parse w line") auto
    obtain st2 r e where m: "server_message w io msg st = (st2, r, e)" by (metis prod_cases3)
    show ?thesis using assms ServerSends False server_explained [OF m, of line] by (auto simp: server_step_def msg m)
  qed (use assms ServerSends in \<open>auto simp: server_step_def split: if_splits\<close>)
qed (use assms in auto)

text \<open>
  C2: every line is accounted for, in any interleaving of the two directions: each line that is
  not blank has exactly one output, in order. A line of the agent is forwarded as it is, or, for
  a tool call only, answered with the request's own id; one that is forwarded is not bound to
  a secret and has passed the argument scan. A line of the server goes to the agent as it is or,
  for a response only, rewritten under the same id. The run stops at the first line that is
  not JSON-RPC.
\<close>

theorem every_line_accounted:
  "case run_proxy w steps st of
     (err, st', out, ev) \<Rightarrow>
       list_all2 (explains w) (take (length out) (filter speaks steps)) out \<and>
       (if err = None then length out = length (filter speaks steps) else length out < length (filter speaks steps))"
proof (induction steps arbitrary: st)
  case (Cons s steps)
  show ?case
  proof (cases "proxy_step w s st")
    case (Inl e)
    then have "speaks s" by (cases s) (auto simp: agent_step_def server_step_def split: if_splits)
    with Inl show ?thesis by simp
  next
    case (Inr r)
    obtain st1 o1 e1 where r: "r = (st1, o1, e1)" by (cases r)
    obtain err st2 o2 e2 where rest: "run_proxy w steps st1 = (err, st2, o2, e2)" by (metis prod_cases4)
    from Cons.IH [of st1] proxy_step_explained [OF Inr [unfolded r]]
    show ?thesis by (auto simp: Inr r rest split: if_splits)
  qed
qed simp

text \<open>
  C4: the state of every run that starts from a loaded store is well formed, whatever the two
  sides and the dashboard send and in whatever order: neither queue holds an id twice or more
  than 1,024 entries, and every entry of the store, trusted or parked, carries the HMAC of its
  schema under the run's key.
\<close>

theorem proxy_invariant:
  "case load (x_mac (pw_ext w)) (x_ser (pw_ext w)) (x_sha (pw_ext w)) (x_parse_file (pw_ext w)) fs path (pw_key w) of
     Inl e \<Rightarrow> True
   | Inr store \<Rightarrow>
       (case run_proxy w steps (start_proxy store) of (err, st, out, ev) \<Rightarrow>
          distinct (px_pending st) \<and> length (px_pending st) \<le> MAX_PENDING_TOOLS_LIST \<and>
          distinct (map pi_key (px_inspections st)) \<and> length (px_inspections st) \<le> MAX_PENDING_TOOLS_LIST \<and>
          store_authentic (x_mac (pw_ext w)) (x_ser (pw_ext w)) (px_store st) \<and> bs_key (px_store st) = pw_key w)"
proof (cases "load (x_mac (pw_ext w)) (x_ser (pw_ext w)) (x_sha (pw_ext w)) (x_parse_file (pw_ext w)) fs path (pw_key w)")
  case (Inr store)
  have "proxy_ok w (start_proxy store)"
    using load_Inr [OF Inr] by (intro start_proxy_ok) (simp add: store_ok_def)
  from run_proxy_ok [OF this, of steps] show ?thesis
    by (auto simp: Inr proxy_ok_def fifo_ok_def store_ok_def)
qed simp

lemma response_analysed:
  assumes "pw_parse w reply = Inr msg" "response_key w reply = Some key" "trim reply \<noteq> []"
    and "proxy_ok w st" "pend.behind (px_pending st) key m"
    and "analyze_tools_list (pw_ext w) io (analysis_context w) msg (px_store st) = (outcome, store', events)"
  shows "\<exists>st' evs. server_step w io reply st =
      Inr (st', [ToAgent (case outcome of Inr (Analyzed (Some r)) \<Rightarrow> pw_print w r | _ \<Rightarrow> reply)], evs) \<and>
      px_store st' = store' \<and> key \<notin> set (px_pending st')"
proof -
  have key: "is_jsonrpc_2 msg" "is_response msg" "id_key (pw_ser w) msg = Some key"
    using assms(1,2) by (auto simp: response_key_def split: if_splits)
  have ok: "fifo_ok (\<lambda>k. k) MAX_PENDING_TOOLS_LIST (px_pending st)" using assms(4) by (simp add: proxy_ok_def)
  have "fst (answer_key key (px_pending st)) = Some key" by (rule pend.behind_answer(1) [OF ok assms(5)])
  then have found: "fst (take_pending (px_pending st) key)" by (simp add: answer_key_def split: if_splits)
  have gone: "key \<notin> set (snd (take_pending (px_pending st) key))"
    using pend.answer_law [OF ok, of key] by (simp add: answer_key_def)
  define p where "p = snd (take_pending (px_pending st) key)"
  have t: "take_pending (px_pending st) key = (True, p)" using found by (simp add: p_def prod_eq_iff)
  have l: "answers_listing w msg st = (True, st\<lparr>px_pending := p\<rparr>)" by (simp add: answers_listing_def key t)
  show ?thesis using assms(3,6) gone
    by (auto simp: server_step_def assms(1) server_message_def l Let_def unwrap_or_def p_def
        split: sum.splits AnalysisOutcome.splits option.splits)
qed


definition demo_list_request :: JsonRpcMessage where
  "demo_list_request = \<lparr>rpc_jsonrpc = Some ''2.0'', rpc_id = Some (JNum (PosInt 1)), rpc_method = Some ''tools/list'',
     rpc_params = None, rpc_result = None, rpc_error = None\<rparr>"

definition demo_world :: ProxyWorld where
  "demo_world = \<lparr>pw_parse = (\<lambda>l. if l = ''ask'' then Inr demo_list_request
       else if l = ''answer'' then Inr (demo_listing [demo_tool ''t'' ''evil'']) else Inl ''syntax''),
     pw_ser = (\<lambda>j. ''1''), pw_print = (\<lambda>m. ''printed''), pw_snapshot = (\<lambda>b. None), pw_env = (\<lambda>n. None),
     pw_ext = demo_ext, pw_key = ''k'', pw_mode = Enforce, pw_first_contact = Trust, pw_boundary = None\<rparr>"

lemma demo_ask: "agent_step demo_world bw ''ask'' (start_proxy demo_loaded) =
    Inr ((start_proxy demo_loaded)\<lparr>px_pending := [''1'']\<rparr>, [ToServer ''ask''], [])"
proof -
  have "trim ''ask'' \<noteq> []" by (simp add: trim_def str_defs)
  then show ?thesis
    by (simp add: agent_step_def demo_world_def agent_message_def secret_bound_call_def is_tools_call_def
        inspect_revoked_session_tool_call_def inspect_outbound_tool_call_def remember_request_def demo_list_request_def
        is_jsonrpc_2_def id_key_def start_proxy_def track_pending_def MAX_PENDING_TOOLS_LIST_def)
qed



text \<open>
  A response whose id prints differently from that of every request in flight (\<^verbatim>\<open>1.0\<close>
  for \<^verbatim>\<open>1\<close>) is forwarded as it is, with any listing it carries.
\<close>

lemma uncorrelated_response_forwarded:
  assumes "pw_parse w line = Inr msg" "trim line \<noteq> []" "is_jsonrpc_2 msg" "is_response msg" "id_key (pw_ser w) msg = Some k"
    and "k \<notin> set (px_pending st)" "k \<notin> pi_key ` set (px_inspections st)"
  shows "server_step w io line st = Inr (st, [ToAgent line], list_changed_events msg)"
proof -
  have none: "position P xs = None \<longleftrightarrow> (\<forall>x \<in> set xs. \<not> P x)" for P and xs :: "'x list"
    by (induction xs) auto
  have "position (\<lambda>existing. existing = k) (px_pending st) = None"
    using assms(6) by (subst none) auto
  then have l: "answers_listing w msg st = (False, st)"
    using assms(3-5) by (simp add: answers_listing_def take_pending_def)
  have "position (\<lambda>existing. pi_key existing = k) (px_inspections st) = None"
    using assms(7) by (subst none) auto
  then have i: "answers_inspection w msg st = (None, st)"
    using assms(3-5) by (simp add: answers_inspection_def take_inspection_def)
  show ?thesis using assms(1,2) by (simp add: server_step_def server_message_def l i unwrap_or_def)
qed

end
