(* ===== verification/Http_Bridge.thy ===== *)
theory Http_Bridge
  imports Remote_Target Proxy_Trust "HOL-Library.Multiset"
begin

section \<open>The bridge to a remote server\<close>

text \<open>
  Model of the Streamable HTTP adapter in \<^verbatim>\<open>mcp-shield/src/http_transport.rs\<close>: the events of
  an SSE stream, one POST with its answer, the session identifier, and the loop that accepts
  messages and collects finished requests. The HTTP client is what it answers, writing to
  standard output succeeds, and the parser and printer of values are parameters. A result comes
  with the messages that were written before it.
\<close>

definition MAX_HTTP_RESPONSE_BYTES :: nat where "MAX_HTTP_RESPONSE_BYTES = 1024 * 1024"
definition MAX_SSE_BUFFER_BYTES :: nat where "MAX_SSE_BUFFER_BYTES = 1024 * 1024"
definition MAX_CONCURRENT_REQUESTS :: nat where "MAX_CONCURRENT_REQUESTS = 64"

definition can_accept_request :: "nat \<Rightarrow> bool" where
  "can_accept_request active \<longleftrightarrow> active < MAX_CONCURRENT_REQUESTS"

definition validate_jsonrpc :: "json \<Rightarrow> string + unit" where
  "validate_jsonrpc v =
     (if Option.bind (jget v ''jsonrpc'') as_str \<noteq> Some ''2.0'' then Inl ''message is not JSON-RPC 2.0'' else Inr ())"

text \<open>\<^verbatim>\<open>saturating_add\<close> on \<^verbatim>\<open>usize\<close>.\<close>

definition ensure_within_limit :: "nat \<Rightarrow> nat \<Rightarrow> nat \<Rightarrow> string + unit" where
  "ensure_within_limit buffered additional limit =
     (if limit < min (buffered + additional) (2 ^ 64 - 1) then Inl ''remote MCP response exceeds 1 MiB'' else Inr ())"

definition truncate_text :: "string \<Rightarrow> nat \<Rightarrow> string" where
  "truncate_text v limit =
     (let cs = chars v in concat (take limit cs) @ (if limit < length cs then ''...'' else []))"

subsection \<open>Events of a stream\<close>

definition EVENT_LF :: string where "EVENT_LF = [LF, LF]"
definition EVENT_CRLF :: string where "EVENT_CRLF = [CR, LF, CR, LF]"

definition next_sse_event :: "string \<Rightarrow> (nat \<times> nat) option" where
  "next_sse_event v =
     (let lf = map_option (\<lambda>i. (i, i + 2)) (find_str v EVENT_LF);
          crlf = map_option (\<lambda>i. (i, i + 4)) (find_str v EVENT_CRLF) in
      case (lf, crlf) of
        (Some l, Some r) \<Rightarrow> Some (if fst l \<le> fst r then l else r)
      | (Some found, None) \<Rightarrow> Some found
      | (None, Some found) \<Rightarrow> Some found
      | (None, None) \<Rightarrow> None)"

definition parse_sse_data :: "string \<Rightarrow> string option" where
  "parse_sse_data event =
     (let data = map (\<lambda>line. unwrap_or (strip_prefix line '' '') line)
                   (List.map_filter (\<lambda>line. strip_prefix line ''data:'') (str_lines event)) in
      if data = [] then None else Some (join_str [LF] data))"

lemma next_sse_consumed: "next_sse_event v = Some (i, n) \<Longrightarrow> n = i + 2 \<or> n = i + 4"
  by (auto simp: next_sse_event_def Let_def split: option.splits if_splits)

text \<open>The inner loop of \<^verbatim>\<open>consume_sse\<close>: the complete events of the buffer, and the rest.\<close>

function drain_events :: "string \<Rightarrow> string list \<times> string" where
  "drain_events pending =
     (case next_sse_event pending of
        None \<Rightarrow> ([], pending)
      | Some (raw_event, consumed) \<Rightarrow>
          if pending = [] then ([], pending)
          else (let (es, rest) = drain_events (drop consumed pending) in (take raw_event pending # es, rest)))"
  by pat_completeness auto

termination
  by (relation "measure length") (auto dest: next_sse_consumed)

declare drain_events.simps [simp del]

text \<open>Handling the events in order: the messages written, and whether the stream is done.\<close>

definition is_terminal :: "json option \<Rightarrow> json \<Rightarrow> bool" where
  "is_terminal request_id v \<longleftrightarrow>
     (case request_id of
        None \<Rightarrow> False
      | Some expected \<Rightarrow> jget v ''id'' = Some expected \<and> (jget v ''result'' \<noteq> None \<or> jget v ''error'' \<noteq> None))"

fun handle_events ::
  "(string \<Rightarrow> json option) \<Rightarrow> json option \<Rightarrow> string list \<Rightarrow> json list \<times> (string + bool)" where
  "handle_events parse request_id [] = ([], Inr False)"
| "handle_events parse request_id (event # rest) =
     (case parse_sse_data event of
        None \<Rightarrow> handle_events parse request_id rest
      | Some data \<Rightarrow>
          (case parse data of
             None \<Rightarrow> ([], Inl ''MCP SSE data contained invalid JSON'')
           | Some v \<Rightarrow>
               (case validate_jsonrpc v of
                  Inl e \<Rightarrow> ([], Inl e)
                | Inr _ \<Rightarrow>
                    if is_terminal request_id v then ([v], Inr True)
                    else (let (out, r) = handle_events parse request_id rest in (v # out, r)))))"

text \<open>
  One turn of the outer loop on a read of the body (\<open>Inl\<close> when it failed): the messages written,
  then an error, or the text kept, or \<open>None\<close> when the answer has arrived.
\<close>

definition sse_chunk ::
  "(string \<Rightarrow> json option) \<Rightarrow> json option \<Rightarrow> string + bytes \<Rightarrow> string
   \<Rightarrow> json list \<times> (string + string option)" where
  "sse_chunk parse request_id read pending =
     (case read of
        Inl e \<Rightarrow> ([], Inl ''read MCP SSE response'')
      | Inr chunk \<Rightarrow>
          (case ensure_within_limit (length pending) (length chunk) MAX_SSE_BUFFER_BYTES of
             Inl e \<Rightarrow> ([], Inl e)
           | Inr _ \<Rightarrow>
               if \<not> valid_utf8 chunk then ([], Inl ''MCP SSE response was not valid UTF-8'')
               else
                 (let (events, pending') = drain_events (pending @ chunk) in
                  case handle_events parse request_id events of
                    (out, Inl e) \<Rightarrow> (out, Inl e)
                  | (out, Inr terminal) \<Rightarrow> (out, Inr (if terminal then None else Some pending')))))"

definition sse_end :: "json option \<Rightarrow> string + unit" where
  "sse_end request_id =
     (if request_id \<noteq> None then Inl ''MCP SSE stream ended before the matching JSON-RPC response'' else Inr ())"

fun consume_sse ::
  "(string \<Rightarrow> json option) \<Rightarrow> json option \<Rightarrow> (string + bytes) list \<Rightarrow> string \<Rightarrow> json list \<times> (string + unit)" where
  "consume_sse parse request_id [] pending = ([], sse_end request_id)"
| "consume_sse parse request_id (read # reads) pending =
     (case sse_chunk parse request_id read pending of
        (out, Inl e) \<Rightarrow> (out, Inl e)
      | (out, Inr None) \<Rightarrow> (out, Inr ())
      | (out, Inr (Some pending')) \<Rightarrow>
          (let (out', r) = consume_sse parse request_id reads pending' in (out @ out', r)))"

subsection \<open>One POST\<close>

record BridgeConfig =
  bg_target :: Url
  bg_protocol :: string
  bg_authorization :: "string option"

record BridgeRequest =
  bq_method :: string
  bq_url :: Url
  bq_headers :: "(string \<times> string) list"
  bq_body :: bytes

definition post_request :: "(json \<Rightarrow> string) \<Rightarrow> BridgeConfig \<Rightarrow> string option \<Rightarrow> json \<Rightarrow> BridgeRequest" where
  "post_request ser cfg session message =
     \<lparr>bq_method = ''POST'', bq_url = bg_target cfg,
      bq_headers = [(''content-type'', ''application/json''), (''accept'', ''application/json, text/event-stream''),
          (''mcp-protocol-version'', bg_protocol cfg)]
        @ (case session of Some s \<Rightarrow> [(''mcp-session-id'', s)] | None \<Rightarrow> [])
        @ (case bg_authorization cfg of Some a \<Rightarrow> [(''authorization'', a)] | None \<Rightarrow> []),
      bq_body = ser message\<rparr>"

definition close_request :: "BridgeConfig \<Rightarrow> string option \<Rightarrow> BridgeRequest option" where
  "close_request cfg session =
     (case session of
        None \<Rightarrow> None
      | Some s \<Rightarrow>
          Some \<lparr>bq_method = ''DELETE'', bq_url = bg_target cfg,
            bq_headers = [(''mcp-protocol-version'', bg_protocol cfg), (''mcp-session-id'', s)]
              @ (case bg_authorization cfg of Some a \<Rightarrow> [(''authorization'', a)] | None \<Rightarrow> []),
            bq_body = []\<rparr>)"

text \<open>The answer, with how its status prints; a header that is not text reads as \<open>None\<close>, the session is compared as bytes.\<close>

record RemoteResponse =
  rr_status :: nat
  rr_status_text :: string
  rr_session :: "string option"
  rr_challenge :: "string option"
  rr_content_type :: "string option"

definition remember_session :: "string option \<Rightarrow> string option \<Rightarrow> (string + unit) \<times> string option" where
  "remember_session incoming session =
     (case incoming of
        None \<Rightarrow> (Inr (), session)
      | Some i \<Rightarrow>
          (case session of
             Some existing \<Rightarrow>
               if existing \<noteq> i then (Inl ''remote MCP server changed the active session identifier'', session)
               else (Inr (), session)
           | None \<Rightarrow> (Inr (), Some i)))"

fun read_body :: "nat \<Rightarrow> bytes \<Rightarrow> (string + bytes) list \<Rightarrow> string + string" where
  "read_body limit body [] = (if valid_utf8 body then Inr body else Inl ''HTTP response body was not valid UTF-8'')"
| "read_body limit body (Inl e # chunks) = Inl ''read HTTP response body''"
| "read_body limit body (Inr chunk # chunks) =
     (case ensure_within_limit (length body) (length chunk) limit of
        Inl e \<Rightarrow> Inl e
      | Inr _ \<Rightarrow> read_body limit (body @ chunk) chunks)"

definition read_bounded_response_text :: "nat \<Rightarrow> (string + bytes) list \<Rightarrow> string + string" where
  "read_bounded_response_text limit chunks = read_body limit [] chunks"

definition media_type :: "string option \<Rightarrow> string" where
  "media_type content_type = to_ascii_lowercase (trim (hd (split_ch CHR '';'' (unwrap_or content_type []))))"

text \<open>
  The answer after its head: the session is remembered, then the status and the type decide
  between an end and reading the body, as a whole or event by event.
\<close>

definition accept_head :: "json option \<Rightarrow> string + RemoteResponse \<Rightarrow> string option
   \<Rightarrow> (string + unit + RemoteResponse) \<times> string option" where
  "accept_head request_id answer session =
     (case answer of
        Inl e \<Rightarrow> (Inl ''POST MCP message'', session)
      | Inr response \<Rightarrow>
          (case remember_session (rr_session response) session of
             (Inl e, session') \<Rightarrow> (Inl e, session')
           | (Inr _, session') \<Rightarrow>
               (if rr_status response = 202
                then (if request_id \<noteq> None
                      then Inl ''remote returned 202 Accepted for a JSON-RPC request'' else Inr (Inl ()))
                else Inr (Inr response), session')))"

definition is_event_stream :: "RemoteResponse \<Rightarrow> bool" where
  "is_event_stream response \<longleftrightarrow>
     is_2xx (rr_status response) \<and> media_type (rr_content_type response) = ''text/event-stream''"

definition read_answer ::
  "(string \<Rightarrow> json option) \<Rightarrow> json option \<Rightarrow> RemoteResponse \<Rightarrow> (string + bytes) list \<Rightarrow> json list \<times> (string + unit)" where
  "read_answer parse request_id response chunks =
     (if \<not> is_2xx (rr_status response)
      then ([], case read_bounded_response_text MAX_HTTP_RESPONSE_BYTES chunks of
              Inl e \<Rightarrow> Inl ''read remote MCP error response''
            | Inr body \<Rightarrow>
                (let challenge = unwrap_or (rr_challenge response) [] in
                 Inl (''remote MCP server returned '' @ rr_status_text response
                    @ (if challenge = [] then [] else '' ('' @ challenge @ '')'')
                    @ '': '' @ truncate_text body 512)))
      else if media_type (rr_content_type response) = ''application/json''
      then (case read_bounded_response_text MAX_HTTP_RESPONSE_BYTES chunks of
              Inl e \<Rightarrow> ([], Inl ''read JSON response'')
            | Inr body \<Rightarrow>
                (case parse body of
                   None \<Rightarrow> ([], Inl ''remote returned invalid JSON-RPC JSON'')
                 | Some v \<Rightarrow>
                     (case validate_jsonrpc v of
                        Inl e \<Rightarrow> ([], Inl e)
                      | Inr _ \<Rightarrow> ([v], Inr ()))))
      else if media_type (rr_content_type response) = ''text/event-stream''
      then consume_sse parse request_id chunks []
      else ([], Inl (''unsupported MCP response content type: ''
              @ debug_str (media_type (rr_content_type response)))))"

text \<open>A message is written as one line.\<close>

definition emit_line :: "(json \<Rightarrow> string) \<Rightarrow> json \<Rightarrow> bytes" where
  "emit_line ser message = ser message @ [LF]"

subsection \<open>The loop\<close>

text \<open>
  The loop of \<^verbatim>\<open>run\<close> and its tasks as they interleave. A line is read only while a request may
  be accepted; a task sends its request with the session of that moment, takes the head of the
  answer, then reads the body: an event stream chunk by chunk, so that its messages mix with
  those of other tasks, any other body as a whole. A finished task counts until the loop joins
  it, and its error, like that of a line, ends the loop. When the input has ended and every task
  is joined the session is closed. An event that cannot happen in a state is \<open>None\<close>.
\<close>

datatype Phase = Spawned | Sent | Reading RemoteResponse | Streaming string | Finished "string + unit"

datatype BridgeEvent =
    Reads "string + string option"
  | Sends nat
  | Heads nat "string + RemoteResponse"
  | Bodies nat "(string + bytes) list"
  | Chunks nat "(string + bytes) option"
  | Joins nat
  | Closes

record BridgeRun =
  br_open :: bool
  br_closed :: bool
  br_tasks :: "(json \<times> Phase) list"
  br_session :: "string option"
  br_requests :: "BridgeRequest list"
  br_written :: "json list"

definition start_bridge :: BridgeRun where
  "start_bridge = \<lparr>br_open = True, br_closed = False, br_tasks = [], br_session = None, br_requests = [], br_written = []\<rparr>"

definition phase_of :: "BridgeRun \<Rightarrow> nat \<Rightarrow> (json \<times> Phase) option" where
  "phase_of b i = (if i < length (br_tasks b) then Some (br_tasks b ! i) else None)"

definition in_phase :: "nat \<Rightarrow> json \<Rightarrow> Phase \<Rightarrow> BridgeRun \<Rightarrow> BridgeRun" where
  "in_phase i message p b = b\<lparr>br_tasks := (br_tasks b)[i := (message, p)]\<rparr>"

definition writes :: "json list \<Rightarrow> BridgeRun \<Rightarrow> BridgeRun" where
  "writes out b = b\<lparr>br_written := br_written b @ out\<rparr>"

text \<open>The arm of \<^verbatim>\<open>select!\<close> that has read a line.\<close>

definition accept_line ::
  "(string \<Rightarrow> json option) \<Rightarrow> string + string option \<Rightarrow> BridgeRun \<Rightarrow> string option \<times> BridgeRun" where
  "accept_line parse l b =
     (case l of
        Inl e \<Rightarrow> (Some e, b)
      | Inr None \<Rightarrow> (None, b\<lparr>br_open := False\<rparr>)
      | Inr (Some line) \<Rightarrow>
          if trim line = [] then (None, b)
          else (case parse line of
                  None \<Rightarrow> (Some ''stdin contained invalid JSON-RPC JSON'', b)
                | Some message \<Rightarrow>
                    (case validate_jsonrpc message of
                       Inl e \<Rightarrow> (Some e, b)
                     | Inr _ \<Rightarrow> (None, b\<lparr>br_tasks := br_tasks b @ [(message, Spawned)]\<rparr>))))"

text \<open>The turns of a task.\<close>

definition task_sends :: "(json \<Rightarrow> string) \<Rightarrow> BridgeConfig \<Rightarrow> nat \<Rightarrow> BridgeRun \<Rightarrow> BridgeRun option" where
  "task_sends ser cfg i b =
     (case phase_of b i of
        Some (message, Spawned) \<Rightarrow>
          Some ((in_phase i message Sent b)
            \<lparr>br_requests := br_requests b @ [post_request ser cfg (br_session b) message]\<rparr>)
      | _ \<Rightarrow> None)"

definition after_head :: "string + unit + RemoteResponse \<Rightarrow> Phase" where
  "after_head r =
     (case r of
        Inl e \<Rightarrow> Finished (Inl e)
      | Inr (Inl _) \<Rightarrow> Finished (Inr ())
      | Inr (Inr response) \<Rightarrow> if is_event_stream response then Streaming [] else Reading response)"

definition after_chunk :: "string + string option \<Rightarrow> Phase" where
  "after_chunk r =
     (case r of
        Inl e \<Rightarrow> Finished (Inl e)
      | Inr None \<Rightarrow> Finished (Inr ())
      | Inr (Some pending) \<Rightarrow> Streaming pending)"

definition task_heads :: "nat \<Rightarrow> string + RemoteResponse \<Rightarrow> BridgeRun \<Rightarrow> BridgeRun option" where
  "task_heads i answer b =
     (case phase_of b i of
        Some (message, Sent) \<Rightarrow>
          (let (r, session) = accept_head (jget message ''id'') answer (br_session b)
           in Some ((in_phase i message (after_head r) b)\<lparr>br_session := session\<rparr>))
      | _ \<Rightarrow> None)"

definition task_body :: "(string \<Rightarrow> json option) \<Rightarrow> nat \<Rightarrow> (string + bytes) list \<Rightarrow> BridgeRun \<Rightarrow> BridgeRun option" where
  "task_body parse i chunks b =
     (case phase_of b i of
        Some (message, Reading response) \<Rightarrow>
          (let (out, r) = read_answer parse (jget message ''id'') response chunks
           in Some (writes out (in_phase i message (Finished r) b)))
      | _ \<Rightarrow> None)"

definition task_chunk :: "(string \<Rightarrow> json option) \<Rightarrow> nat \<Rightarrow> (string + bytes) option \<Rightarrow> BridgeRun \<Rightarrow> BridgeRun option" where
  "task_chunk parse i chunk b =
     (case phase_of b i of
        Some (message, Streaming pending) \<Rightarrow>
          (case chunk of
             None \<Rightarrow> Some (in_phase i message (Finished (sse_end (jget message ''id''))) b)
           | Some read \<Rightarrow>
               (let (out, r) = sse_chunk parse (jget message ''id'') read pending
                in Some (writes out (in_phase i message (after_chunk r) b))))
      | _ \<Rightarrow> None)"

text \<open>The other arm of \<^verbatim>\<open>select!\<close>, and the waiting loop after it.\<close>

definition join_next :: "nat \<Rightarrow> BridgeRun \<Rightarrow> (string option \<times> BridgeRun) option" where
  "join_next i b =
     (case phase_of b i of
        Some (message, Finished r) \<Rightarrow>
          Some (case r of Inl e \<Rightarrow> Some e | Inr _ \<Rightarrow> None, b\<lparr>br_tasks := snd (remove_at i (br_tasks b))\<rparr>)
      | _ \<Rightarrow> None)"

fun bridge_step ::
  "(string \<Rightarrow> json option) \<Rightarrow> (json \<Rightarrow> string) \<Rightarrow> BridgeConfig \<Rightarrow> BridgeEvent \<Rightarrow> BridgeRun
   \<Rightarrow> (string option \<times> BridgeRun) option" where
  "bridge_step parse ser cfg (Reads l) b =
     (if br_open b \<and> can_accept_request (length (br_tasks b)) then Some (accept_line parse l b) else None)"
| "bridge_step parse ser cfg (Sends i) b = map_option (Pair None) (task_sends ser cfg i b)"
| "bridge_step parse ser cfg (Heads i answer) b = map_option (Pair None) (task_heads i answer b)"
| "bridge_step parse ser cfg (Bodies i chunks) b = map_option (Pair None) (task_body parse i chunks b)"
| "bridge_step parse ser cfg (Chunks i chunk) b = map_option (Pair None) (task_chunk parse i chunk b)"
| "bridge_step parse ser cfg (Joins i) b = join_next i b"
| "bridge_step parse ser cfg Closes b =
     (if \<not> br_open b \<and> br_tasks b = [] \<and> \<not> br_closed b
      then Some (None, b\<lparr>br_closed := True,
             br_requests := br_requests b
               @ (case close_request cfg (br_session b) of Some r \<Rightarrow> [r] | None \<Rightarrow> [])\<rparr>)
      else None)"

fun run_bridge ::
  "(string \<Rightarrow> json option) \<Rightarrow> (json \<Rightarrow> string) \<Rightarrow> BridgeConfig \<Rightarrow> BridgeEvent list \<Rightarrow> BridgeRun \<Rightarrow> string option \<times> BridgeRun" where
  "run_bridge parse ser cfg [] b = (None, b)"
| "run_bridge parse ser cfg (e # es) b =
     (case bridge_step parse ser cfg e b of
        None \<Rightarrow> run_bridge parse ser cfg es b
      | Some (Some err, b') \<Rightarrow> (Some err, b')
      | Some (None, b') \<Rightarrow> run_bridge parse ser cfg es b')"

subsection \<open>Events do not depend on the chunks\<close>

lemma starts_with_length: "starts_with s p \<Longrightarrow> length p \<le> length s"
  by (auto simp: starts_with_iff)

lemma find_str_le: "find_str s p = Some i \<Longrightarrow> i + length p \<le> length s"
proof (induction s p arbitrary: i rule: find_str.induct)
  case (2 c cs p)
  then show ?case using starts_with_length [of "c # cs" p] by (auto split: if_splits)
qed (auto split: if_splits)

lemma find_str_at: "find_str s p = Some i \<Longrightarrow> k < length p \<Longrightarrow> s ! (i + k) = p ! k"
proof -
  assume a: "find_str s p = Some i" "k < length p"
  then have "starts_with (drop i s) p" "i \<le> length s" using find_str_Some by blast+
  then obtain t where "drop i s = p @ t" by (auto simp: starts_with_iff)
  then show ?thesis using a(2) \<open>i \<le> length s\<close> by (metis nth_append nth_drop)
qed

lemma starts_with_longer: "starts_with s p \<Longrightarrow> starts_with (s @ t) p"
  by (auto simp: starts_with_iff)

lemma find_str_prefix: "find_str s p = Some i \<Longrightarrow> p \<noteq> [] \<Longrightarrow> find_str (s @ t) p = Some i"
proof (induction s p arbitrary: i rule: find_str.induct)
  case (2 c cs p)
  show ?case
  proof (cases "starts_with (c # cs) p")
    case True
    then show ?thesis using 2(2) starts_with_longer [of "c # cs" p t] by simp
  next
    case False
    then obtain j where j: "find_str cs p = Some j" "i = Suc j" using 2(2) by (auto split: if_splits)
    have "\<not> starts_with (c # cs @ t) p"
    proof
      assume "starts_with (c # cs @ t) p"
      moreover have "length p \<le> length (c # cs)" using find_str_le [OF j(1)] by simp
      ultimately have "starts_with (c # cs) p"
        using take_append [of "length p" "c # cs" t] unfolding starts_with_take by simp
      with False show False by simp
    qed
    then show ?thesis using 2(1) [OF False j(1) 2(3)] j(2) by simp
  qed
qed simp

lemma find_str_new: "find_str s p = None \<Longrightarrow> find_str (s @ t) p = Some j \<Longrightarrow> length s < j + length p"
proof (rule ccontr)
  assume a: "find_str s p = None" "find_str (s @ t) p = Some j" "\<not> length s < j + length p"
  have "starts_with (drop j (s @ t)) p" using find_str_Some [OF a(2)] by simp
  then have "take (length p) (drop j s) = p" using a(3) by (simp add: starts_with_take)
  then have "s = take j s @ p @ drop (length p) (drop j s)" by (metis append_take_drop_id)
  then have "contains_str s p" by (metis contains_str_iff)
  then show False using a(1) find_str_None_iff by blast
qed

lemma next_sse_prefix: "next_sse_event p = Some (i, n) \<Longrightarrow> next_sse_event (p @ q) = Some (i, n) \<and> n \<le> length p"
proof -
  assume a: "next_sse_event p = Some (i, n)"
  have ne: "EVENT_LF \<noteq> []" "EVENT_CRLF \<noteq> []" and len: "length EVENT_LF = 2" "length EVENT_CRLF = 4"
    by (simp_all add: EVENT_LF_def EVENT_CRLF_def)
  have clash: "False" if "find_str s EVENT_LF = Some (Suc j)" "find_str s EVENT_CRLF = Some j" for s j
    using find_str_at [OF that(1), of 1] find_str_at [OF that(2), of 2]
    by (simp add: EVENT_LF_def EVENT_CRLF_def LF_def CR_def)
  have new_cr: "x \<le> j" if "find_str p EVENT_LF = Some x" "find_str p EVENT_CRLF = None"
    "find_str (p @ q) EVENT_CRLF = Some j" for x j
  proof (rule ccontr)
    assume "\<not> x \<le> j"
    moreover have "length p < j + 4" "x + 2 \<le> length p"
      using find_str_new [OF that(2,3)] find_str_le [OF that(1)] by (simp_all add: len)
    ultimately have "x = Suc j" by simp
    then show False using clash find_str_prefix [OF that(1) ne(1), of q] that(3) by blast
  qed
  have new_lf: "x < j" if "find_str p EVENT_CRLF = Some x" "find_str p EVENT_LF = None"
    "find_str (p @ q) EVENT_LF = Some j" for x j
    using find_str_new [OF that(2,3)] find_str_le [OF that(1)] by (simp add: len)
  consider (both) x y where "find_str p EVENT_LF = Some x" "find_str p EVENT_CRLF = Some y"
    | (lf) x where "find_str p EVENT_LF = Some x" "find_str p EVENT_CRLF = None"
    | (cr) y where "find_str p EVENT_LF = None" "find_str p EVENT_CRLF = Some y"
    using a by (auto simp: next_sse_event_def Let_def split: option.splits)
  then show ?thesis
  proof cases
    case both
    then show ?thesis using a find_str_prefix [OF both(1) ne(1), of q] find_str_prefix [OF both(2) ne(2), of q]
        find_str_le [OF both(1)] find_str_le [OF both(2)]
      by (auto simp: next_sse_event_def Let_def len split: if_splits)
  next
    case lf
    then show ?thesis using a find_str_prefix [OF lf(1) ne(1), of q] find_str_le [OF lf(1)] new_cr [OF lf]
      by (auto simp: next_sse_event_def Let_def len split: option.splits)
  next
    case cr
    then show ?thesis using a find_str_prefix [OF cr(2) ne(2), of q] find_str_le [OF cr(2)] new_lf [OF cr(2,1)]
      by (fastforce simp: next_sse_event_def Let_def len split: option.splits)
  qed
qed

lemma drain_append:
  "drain_events (p @ q) =
     (fst (drain_events p) @ fst (drain_events (snd (drain_events p) @ q)), snd (drain_events (snd (drain_events p) @ q)))"
proof (induction p rule: drain_events.induct)
  case (1 p)
  show ?case
  proof (cases "next_sse_event p")
    case None
    then show ?thesis by (simp add: drain_events.simps [of p])
  next
    case (Some r)
    obtain i n where r: "r = (i, n)" by (cases r)
    have pre: "next_sse_event (p @ q) = Some (i, n)" "n \<le> length p" using next_sse_prefix [of p i n q] Some r by auto
    then have i: "i \<le> length p" "0 < n" using next_sse_consumed [OF pre(1)] by auto
    then have ne: "p \<noteq> []" using pre(2) by auto
    have IH: "drain_events (drop n p @ q) = (fst (drain_events (drop n p)) @
        fst (drain_events (snd (drain_events (drop n p)) @ q)), snd (drain_events (snd (drain_events (drop n p)) @ q)))"
      by (rule 1 [OF Some r [symmetric] ne])
    have "drain_events p = (take i p # fst (drain_events (drop n p)), snd (drain_events (drop n p)))"
      using Some r ne by (subst drain_events.simps) (simp add: split_beta)
    moreover have "drain_events (p @ q) = (take i p # fst (drain_events (drop n p @ q)), snd (drain_events (drop n p @ q)))"
      using pre i ne by (subst drain_events.simps) (simp add: split_beta)
    ultimately show ?thesis using IH by simp
  qed
qed

lemma handle_append:
  "handle_events parse rid (a @ b) =
     (case handle_events parse rid a of
        (out, Inr False) \<Rightarrow> (out @ fst (handle_events parse rid b), snd (handle_events parse rid b))
      | stopped \<Rightarrow> stopped)"
  by (induction a) (auto split: option.splits sum.splits prod.splits bool.splits)

lemma length_drained: "length (snd (drain_events p)) \<le> length p"
proof (induction p rule: drain_events.induct)
  case (1 p)
  show ?case
    by (subst drain_events.simps) (auto split: option.splits prod.splits dest: 1 intro: le_trans)
qed

lemma limit_ok: "n + m \<le> MAX_SSE_BUFFER_BYTES \<Longrightarrow> ensure_within_limit n m MAX_SSE_BUFFER_BYTES = Inr ()"
  by (simp add: ensure_within_limit_def MAX_SSE_BUFFER_BYTES_def)

lemma consume_one:
  assumes "length pending + length c \<le> MAX_SSE_BUFFER_BYTES" "valid_utf8 c"
    and "drain_events (pending @ c) = (es, rest)" "handle_events parse rid es = (out, r)"
  shows "consume_sse parse rid (Inr c # reads) pending =
     (case r of
        Inl e \<Rightarrow> (out, Inl e)
      | Inr done \<Rightarrow>
          if done then (out, Inr ())
          else (out @ fst (consume_sse parse rid reads rest), snd (consume_sse parse rid reads rest)))"
  by (cases r) (simp_all add: sse_chunk_def limit_ok [OF assms(1)] assms(2-) split_beta)

lemma consume_chunks:
  assumes "list_all valid_utf8 chunks" "length pending + length (concat chunks) \<le> MAX_SSE_BUFFER_BYTES"
    and "drain_events pending = ([], pending)"
  shows "consume_sse parse rid (map Inr chunks) pending = consume_sse parse rid [Inr (concat chunks)] pending"
  using assms
proof (induction chunks arbitrary: pending)
  case Nil
  then show ?case using consume_one [of pending "[]" "[]" pending parse rid "[]" "Inr False" "[]"]
    by (simp add: valid_utf8.simps)
next
  case (Cons c cs)
  have v: "valid_utf8 c" "valid_utf8 (concat cs)"
  proof -
    show "valid_utf8 c" using Cons.prems(1) by simp
    have "list_all valid_utf8 xs \<Longrightarrow> valid_utf8 (concat xs)" for xs
      by (induction xs) (simp_all add: valid_utf8_append valid_utf8.simps [of "[]"])
    then show "valid_utf8 (concat cs)" using Cons.prems(1) by simp
  qed
  obtain e1 p1 where d1: "drain_events (pending @ c) = (e1, p1)" by fastforce
  obtain e2 p2 where d2: "drain_events (p1 @ concat cs) = (e2, p2)" by fastforce
  have d: "drain_events (pending @ c @ concat cs) = (e1 @ e2, p2)"
    using drain_append [of "pending @ c" "concat cs"] d1 d2 by simp
  have p1: "length p1 \<le> length pending + length c" using length_drained [of "pending @ c"] by (simp add: d1)
  have stable: "drain_events p1 = ([], p1)"
    using drain_append [of "pending @ c" "[]"] d1 by (simp add: prod_eq_iff)
  have IH: "consume_sse parse rid (map Inr cs) p1 = consume_sse parse rid [Inr (concat cs)] p1"
    by (rule Cons.IH) (use Cons.prems p1 stable in auto)
  obtain o1 r1 where h1: "handle_events parse rid e1 = (o1, r1)" by fastforce
  obtain o2 r2 where h2: "handle_events parse rid e2 = (o2, r2)" by fastforce
  have v': "valid_utf8 (c @ concat cs)" using v by (simp add: valid_utf8_append)
  have fits: "length pending + length c \<le> MAX_SSE_BUFFER_BYTES"
    "length p1 + length (concat cs) \<le> MAX_SSE_BUFFER_BYTES"
    "length pending + length (c @ concat cs) \<le> MAX_SSE_BUFFER_BYTES"
    using Cons.prems(2) p1 by auto
  note L = consume_one [OF fits(1) v(1) d1 h1, of "map Inr cs"]
  note M = consume_one [OF fits(2) v(2) d2 h2, of "[]"]
  obtain o3 r3 where h3: "handle_events parse rid (e1 @ e2) = (o3, r3)" by fastforce
  note R = consume_one [OF fits(3) v' d h3, of "[]"]
  show ?case
  proof (cases "r1 = Inr False")
    case True
    then have "o3 = o1 @ o2" "r3 = r2" using h3 h1 h2 by (simp_all add: handle_append)
    then show ?thesis using L M R IH True by (cases r2) auto
  next
    case False
    then have "o3 = o1" "r3 = r1" using h3 h1 by (auto simp: handle_append split: sum.splits bool.splits)
    then show ?thesis using L R False by (cases r1) auto
  qed
qed

text \<open>
  the messages of a stream do not depend on how it is cut: for chunks that are each valid
  UTF-8 and together fit the buffer, the messages written and the result are those of the
  whole text at once. (A chunk that ends inside a character is refused although the stream is
  valid.)
\<close>

theorem sse_independent_of_chunks:
  "if list_all valid_utf8 chunks \<and> length (concat chunks) \<le> MAX_SSE_BUFFER_BYTES
   then consume_sse parse request_id (map Inr chunks) [] = consume_sse parse request_id [Inr (concat chunks)] []
   else True"
proof -
  have "next_sse_event [] = None" by (simp add: next_sse_event_def EVENT_LF_def EVENT_CRLF_def)
  then have "drain_events [] = ([], [])" by (simp add: drain_events.simps)
  from consume_chunks [OF _ _ this, of chunks parse request_id] show ?thesis by simp
qed


text \<open>A chunk that ends inside a character ends the stream, whatever follows.\<close>

lemma split_character_refused:
  "\<not> valid_utf8 c \<Longrightarrow> length c \<le> MAX_SSE_BUFFER_BYTES
   \<Longrightarrow> consume_sse parse rid (Inr c # reads) [] = ([], Inl ''MCP SSE response was not valid UTF-8'')"
  by (simp add: sse_chunk_def limit_ok)

text \<open>
  A read that loses \<^verbatim>\<open>select!\<close> to a finished request after a buffer without a line feed has
  consumed that buffer: the bytes are in the dropped future, and the next read starts after them.
\<close>

lemma cancelled_read_loses_bytes:
  "fst (read_bounded_line [Filled ''{'', Filled (''}'' @ [LF])]) = Inr (Some ''{}'')"
  "fst (read_bounded_line (drop 1 [Filled ''{'', Filled (''}'' @ [LF])])) = Inr (Some ''}'')"
  by (simp_all add: read_bounded_line_def consumed_of_def consume_def finish_line_def strip_line_end_def
      MAX_STDIN_MESSAGE_BYTES_def LF_def CR_def valid_utf8.simps)

subsection \<open>The runs of the bridge\<close>

definition session_header :: "BridgeRequest \<Rightarrow> string option" where
  "session_header r = map_of (bq_headers r) ''mcp-session-id''"

definition authorization_header :: "BridgeRequest \<Rightarrow> string option" where
  "authorization_header r = map_of (bq_headers r) ''authorization''"

definition request_ok :: "BridgeConfig \<Rightarrow> string option \<Rightarrow> BridgeRequest \<Rightarrow> bool" where
  "request_ok cfg session r \<longleftrightarrow>
     bq_url r = bg_target cfg \<and> authorization_header r = bg_authorization cfg
     \<and> (session_header r = None \<or> session_header r = session)"

definition is_message :: "json \<Rightarrow> bool" where
  "is_message v \<longleftrightarrow> validate_jsonrpc v = Inr ()"

definition bridge_ok :: "BridgeConfig \<Rightarrow> BridgeRun \<Rightarrow> bool" where
  "bridge_ok cfg b \<longleftrightarrow>
     length (br_tasks b) \<le> MAX_CONCURRENT_REQUESTS
     \<and> list_all (request_ok cfg (br_session b)) (br_requests b)
     \<and> list_all is_message (br_written b)"

lemma post_request_ok: "request_ok cfg session (post_request ser cfg session message)"
  by (auto simp: request_ok_def post_request_def session_header_def authorization_header_def split: option.splits)

lemma close_request_ok: "close_request cfg session = Some r \<Longrightarrow> request_ok cfg session r"
  by (auto simp: request_ok_def close_request_def session_header_def authorization_header_def split: option.splits)

lemma remember_session_keeps:
  "snd (remember_session incoming session) = session \<or> session = None"
  by (auto simp: remember_session_def split: option.splits)

lemma accept_head_keeps: "snd (accept_head rid answer session) = session \<or> session = None"
  using remember_session_keeps [of _ session]
  by (auto simp: accept_head_def split: sum.splits prod.splits) (metis snd_conv)+

lemma request_ok_session:
  "request_ok cfg s r \<Longrightarrow> s' = s \<or> s = None \<Longrightarrow> request_ok cfg s' r"
  by (auto simp: request_ok_def)

lemma handled_messages: "list_all is_message (fst (handle_events parse rid es))"
  by (induction es) (auto simp: is_message_def split_beta split: option.splits sum.splits)

lemma chunk_messages: "list_all is_message (fst (sse_chunk parse rid read pending))"
  using handled_messages [of parse rid]
  by (auto simp: sse_chunk_def split_beta split: sum.splits)


lemma read_messages: "list_all is_message (fst (consume_sse parse rid reads pending))"
proof (induction parse rid reads pending rule: consume_sse.induct)
  case (2 parse rid read reads pending)
  obtain out r where c: "sse_chunk parse rid read pending = (out, r)" by fastforce
  have "list_all is_message out" using chunk_messages [of parse rid read pending] c by simp
  then show ?case using 2 c by (auto simp: split_beta split: sum.split option.split)
qed simp

lemma answer_messages: "list_all is_message (fst (read_answer parse rid response chunks))"
  using read_messages [of parse rid chunks "[]"]
  by (auto simp: read_answer_def is_message_def split: sum.splits option.splits)

lemma ok_in_phase: "bridge_ok cfg b \<Longrightarrow> bridge_ok cfg (in_phase i m p b)"
  by (simp add: bridge_ok_def in_phase_def)

lemma ok_writes: "bridge_ok cfg b \<Longrightarrow> list_all is_message out \<Longrightarrow> bridge_ok cfg (writes out b)"
  by (simp add: bridge_ok_def writes_def)

lemma ok_requests:
  "bridge_ok cfg b \<Longrightarrow> request_ok cfg (br_session b) r \<Longrightarrow> bridge_ok cfg (b\<lparr>br_requests := br_requests b @ [r]\<rparr>)"
  by (simp add: bridge_ok_def)

lemma ok_session:
  "bridge_ok cfg b \<Longrightarrow> s = br_session b \<or> br_session b = None \<Longrightarrow> bridge_ok cfg (b\<lparr>br_session := s\<rparr>)"
  by (auto simp: bridge_ok_def list_all_iff intro: request_ok_session)

lemma in_phase_fields [simp]:
  "br_session (in_phase i m p b) = br_session b" "br_requests (in_phase i m p b) = br_requests b"
  by (simp_all add: in_phase_def)

lemma ok_sends: "bridge_ok cfg b \<Longrightarrow> task_sends ser cfg i b = Some b' \<Longrightarrow> bridge_ok cfg b'"
  by (auto simp: task_sends_def split: option.splits Phase.splits
      intro!: ok_requests [of cfg "in_phase i _ Sent b" for b, simplified] ok_in_phase post_request_ok)

lemma ok_heads: "bridge_ok cfg b \<Longrightarrow> task_heads i answer b = Some b' \<Longrightarrow> bridge_ok cfg b'"
proof -
  assume ok: "bridge_ok cfg b" and t: "task_heads i answer b = Some b'"
  obtain m where m: "phase_of b i = Some (m, Sent)"
    using t by (auto simp: task_heads_def split: option.splits Phase.splits)
  obtain p where "b' = (in_phase i m p b)\<lparr>br_session := snd (accept_head (jget m ''id'') answer (br_session b))\<rparr>"
    using t m by (auto simp: task_heads_def split_beta)
  then show ?thesis
    using ok_session [OF ok_in_phase [OF ok]] accept_head_keeps [of "jget m ''id''" answer "br_session b"] by simp
qed

lemma ok_body: "bridge_ok cfg b \<Longrightarrow> task_body parse i chunks b = Some b' \<Longrightarrow> bridge_ok cfg b'"
  using answer_messages [of parse]
  by (auto simp: task_body_def split_beta split: option.splits Phase.splits intro!: ok_writes ok_in_phase)

lemma ok_chunk: "bridge_ok cfg b \<Longrightarrow> task_chunk parse i c b = Some b' \<Longrightarrow> bridge_ok cfg b'"
  using chunk_messages [of parse]
  by (auto simp: task_chunk_def split_beta split: option.splits Phase.splits intro!: ok_writes ok_in_phase)

lemma ok_join: "bridge_ok cfg b \<Longrightarrow> join_next i b = Some (e, b') \<Longrightarrow> bridge_ok cfg b'"
  by (fastforce simp: join_next_def bridge_ok_def remove_at_def phase_of_def
      split: option.splits Phase.splits if_splits prod.splits)

lemma ok_accept:
  "bridge_ok cfg b \<Longrightarrow> can_accept_request (length (br_tasks b)) \<Longrightarrow> bridge_ok cfg (snd (accept_line parse l b))"
  by (auto simp: accept_line_def bridge_ok_def can_accept_request_def split: sum.splits option.splits)

lemma bridge_step_ok:
  assumes ok: "bridge_ok cfg b" and s: "bridge_step parse ser cfg e b = Some (r, b')"
  shows "bridge_ok cfg b'"
proof (cases e)
  case (Reads l)
  then show ?thesis using s ok_accept [OF ok, of parse l] by (auto split: if_splits)
next
  case Closes
  then show ?thesis using s ok close_request_ok [of cfg "br_session b"]
    by (auto simp: bridge_ok_def split: if_splits option.splits)
qed (use s ok in \<open>auto intro: ok_sends ok_heads ok_body ok_chunk ok_join\<close>)

lemma run_bridge_ok: "bridge_ok cfg b \<Longrightarrow> bridge_ok cfg (snd (run_bridge parse ser cfg es b))"
proof (induction es arbitrary: b)
  case (Cons e es)
  show ?case
  proof (cases "bridge_step parse ser cfg e b")
    case None
    then show ?thesis using Cons by simp
  next
    case (Some r)
    then obtain err b' where r: "r = (err, b')" by (cases r)
    then have "bridge_ok cfg b'" using bridge_step_ok [OF Cons.prems, of parse ser e err b'] Some by simp
    then show ?thesis using Some r Cons.IH by (cases err) simp_all
  qed
qed simp

text \<open>
  C8: in every run of the bridge, however its reads, requests, answers and joins interleave, at
  most 64 requests are in flight; every request goes to the configured endpoint with the
  configured credential, or none when none is configured, and with no session or the one that
  the bridge holds at the end, so that the session never changes; everything written to the proxy is
  JSON-RPC 2.0.
\<close>

theorem bridge_invariant:
  "let b = snd (run_bridge parse ser cfg es start_bridge) in
     length (br_tasks b) \<le> 64
     \<and> list_all (\<lambda>r. bq_url r = bg_target cfg \<and> authorization_header r = bg_authorization cfg
          \<and> session_header r \<in> {None, br_session b}) (br_requests b)
     \<and> list_all (\<lambda>v. Option.bind (jget v ''jsonrpc'') as_str = Some ''2.0'') (br_written b)"
proof -
  have "bridge_ok cfg start_bridge" by (simp add: bridge_ok_def start_bridge_def)
  then have ok: "bridge_ok cfg (snd (run_bridge parse ser cfg es start_bridge))" by (rule run_bridge_ok)
  have m: "is_message = (\<lambda>v. Option.bind (jget v ''jsonrpc'') as_str = Some ''2.0'')"
    by (simp add: fun_eq_iff is_message_def validate_jsonrpc_def)
  have r: "request_ok cfg s = (\<lambda>r. bq_url r = bg_target cfg \<and> authorization_header r = bg_authorization cfg
      \<and> session_header r \<in> {None, s})" for s
    by (auto simp: fun_eq_iff request_ok_def)
  show ?thesis using ok by (simp only: bridge_ok_def r m MAX_CONCURRENT_REQUESTS_def Let_def)
qed

subsection \<open>Each message is posted at most once\<close>

definition posted :: "BridgeRun \<Rightarrow> bytes multiset" where
  "posted b = mset (map bq_body (filter (\<lambda>r. bq_method r = ''POST'') (br_requests b)))"

definition waiting :: "(json \<Rightarrow> string) \<Rightarrow> (json \<times> Phase) list \<Rightarrow> bytes multiset" where
  "waiting ser tasks = mset (map (\<lambda>t. ser (fst t)) (filter (\<lambda>t. snd t = Spawned) tasks))"

text \<open>The messages of the lines read, in order.\<close>

definition messages_read :: "(string \<Rightarrow> json option) \<Rightarrow> BridgeEvent list \<Rightarrow> json list" where
  "messages_read parse es =
     List.map_filter (\<lambda>e. case e of Reads (Inr (Some line)) \<Rightarrow> parse line | _ \<Rightarrow> None) es"

lemma waiting_update:
  "i < length ts \<Longrightarrow>
   waiting ser (ts[i := (m, p)]) + (if snd (ts ! i) = Spawned then {#ser (fst (ts ! i))#} else {#}) =
   waiting ser ts + (if p = Spawned then {#ser m#} else {#})"
  by (subst (3) id_take_nth_drop [of i ts]) (auto simp: waiting_def upd_conv_take_nth_drop)

lemma waiting_removed: "waiting ser (take i ts @ drop (Suc i) ts) \<subseteq># waiting ser ts"
proof (cases "i < length ts")
  case True
  show ?thesis
    by (subst (3) id_take_nth_drop [OF True]) (auto simp: waiting_def)
qed (simp add: waiting_def)

lemma waiting_moved:
  "phase_of b i = Some (m, q) \<Longrightarrow> q \<noteq> Spawned \<Longrightarrow> p \<noteq> Spawned
   \<Longrightarrow> waiting ser (br_tasks (in_phase i m p b)) = waiting ser (br_tasks b)"
  using waiting_update [of i "br_tasks b" ser m p] by (auto simp: phase_of_def in_phase_def split: if_splits)

lemma waiting_sent:
  "phase_of b i = Some (m, Spawned)
   \<Longrightarrow> add_mset (ser m) (waiting ser (br_tasks (in_phase i m Sent b))) = waiting ser (br_tasks b)"
  using waiting_update [of i "br_tasks b" ser m Sent] by (auto simp: phase_of_def in_phase_def split: if_splits)

lemma not_spawned [simp]: "after_head r \<noteq> Spawned" "after_chunk c \<noteq> Spawned"
  by (auto simp: after_head_def after_chunk_def split: sum.split option.split)

text \<open>What is posted or waiting to be.\<close>

definition potential :: "(json \<Rightarrow> string) \<Rightarrow> BridgeRun \<Rightarrow> bytes multiset" where
  "potential ser b = posted b + waiting ser (br_tasks b)"

lemma potential_moved:
  "phase_of b i = Some (m, q) \<Longrightarrow> q \<noteq> Spawned \<Longrightarrow> p \<noteq> Spawned \<Longrightarrow> br_tasks b' = br_tasks (in_phase i m p b)
   \<Longrightarrow> br_requests b' = br_requests b \<Longrightarrow> potential ser b' = potential ser b"
  by (simp add: potential_def posted_def waiting_moved)

lemma potential_sends: "task_sends ser cfg i b = Some b' \<Longrightarrow> potential ser b' = potential ser b"
proof -
  assume "task_sends ser cfg i b = Some b'"
  then obtain m where m: "phase_of b i = Some (m, Spawned)"
    "b' = (in_phase i m Sent b)\<lparr>br_requests := br_requests b @ [post_request ser cfg (br_session b) m]\<rparr>"
    by (auto simp: task_sends_def split: option.splits Phase.splits)
  then have "posted b' = add_mset (ser m) (posted b)" by (simp add: posted_def post_request_def)
  then show ?thesis using m(2) by (simp add: potential_def flip: waiting_sent [OF m(1), of ser])
qed

lemma potential_heads: "task_heads i a b = Some b' \<Longrightarrow> potential ser b' = potential ser b"
proof -
  assume t: "task_heads i a b = Some b'"
  then obtain m where m: "phase_of b i = Some (m, Sent)"
    by (auto simp: task_heads_def split: option.splits Phase.splits)
  obtain r s where "accept_head (jget m ''id'') a (br_session b) = (r, s)" by fastforce
  then have "b' = (in_phase i m (after_head r) b)\<lparr>br_session := s\<rparr>" using t m by (simp add: task_heads_def)
  then show ?thesis using potential_moved [OF m, of "after_head r"] by simp
qed

lemma potential_body: "task_body parse i cs b = Some b' \<Longrightarrow> potential ser b' = potential ser b"
proof -
  assume t: "task_body parse i cs b = Some b'"
  then obtain m r where m: "phase_of b i = Some (m, Reading r)"
    by (auto simp: task_body_def split: option.splits Phase.splits)
  obtain out e where "read_answer parse (jget m ''id'') r cs = (out, e)" by fastforce
  then have "b' = writes out (in_phase i m (Finished e) b)" using t m by (simp add: task_body_def)
  then show ?thesis using potential_moved [OF m, of "Finished e"] by (simp add: writes_def)
qed

lemma potential_chunk: "task_chunk parse i c b = Some b' \<Longrightarrow> potential ser b' = potential ser b"
proof -
  assume t: "task_chunk parse i c b = Some b'"
  then obtain m p where m: "phase_of b i = Some (m, Streaming p)"
    by (auto simp: task_chunk_def split: option.splits Phase.splits)
  show ?thesis
  proof (cases c)
    case None
    then have "b' = in_phase i m (Finished (sse_end (jget m ''id''))) b" using t m by (simp add: task_chunk_def)
    then show ?thesis using potential_moved [OF m, of "Finished (sse_end (jget m ''id''))" b'] by simp
  next
    case (Some read)
    obtain out e where "sse_chunk parse (jget m ''id'') read p = (out, e)" by fastforce
    then have "b' = writes out (in_phase i m (after_chunk e) b)" using t m Some by (simp add: task_chunk_def)
    then show ?thesis using potential_moved [OF m, of "after_chunk e"] by (simp add: writes_def)
  qed
qed

lemma potential_join: "join_next i b = Some (r, b') \<Longrightarrow> potential ser b' \<subseteq># potential ser b"
proof -
  assume t: "join_next i b = Some (r, b')"
  then obtain m e where m: "phase_of b i = Some (m, Finished e)"
    by (auto simp: join_next_def split: option.splits Phase.splits)
  then have "b' = b\<lparr>br_tasks := take i (br_tasks b) @ drop (Suc i) (br_tasks b)\<rparr>"
    using t by (auto simp: join_next_def remove_at_def phase_of_def split: if_splits)
  then show ?thesis using waiting_removed [of ser i "br_tasks b"] by (simp add: potential_def posted_def)
qed

lemma messages_read_one:
  "messages_read parse [Reads (Inr (Some line))] = (case parse line of Some m \<Rightarrow> [m] | None \<Rightarrow> [])"
  by (simp add: messages_read_def List.map_filter_def split: option.split)

lemma potential_accept:
  "potential ser (snd (accept_line parse l b)) \<subseteq># potential ser b + mset (map ser (messages_read parse [Reads l]))"
proof (cases "\<exists>line m. l = Inr (Some line) \<and> parse line = Some m \<and> accept_line parse l b =
    (None, b\<lparr>br_tasks := br_tasks b @ [(m, Spawned)]\<rparr>)")
  case True
  then obtain line m where "l = Inr (Some line)" "parse line = Some m"
    "accept_line parse l b = (None, b\<lparr>br_tasks := br_tasks b @ [(m, Spawned)]\<rparr>)" by blast
  then show ?thesis by (simp add: messages_read_one potential_def posted_def waiting_def)
next
  case False
  then have "snd (accept_line parse l b) = b \<or> snd (accept_line parse l b) = b\<lparr>br_open := False\<rparr>"
    by (auto simp: accept_line_def split: sum.splits option.splits)
  then show ?thesis by (auto simp: potential_def posted_def)
qed

lemma bridge_step_posts:
  assumes "bridge_step parse ser cfg e b = Some (r, b')"
  shows "potential ser b' \<subseteq># potential ser b + mset (map ser (messages_read parse [e]))"
proof (cases e)
  case (Reads l)
  then show ?thesis using assms potential_accept [of ser parse l b] by (simp split: if_splits)
next
  case (Joins i)
  then have "potential ser b' \<subseteq># potential ser b" using assms potential_join by simp
  then show ?thesis by (simp add: subset_mset.add_increasing2)
next
  case Closes
  then show ?thesis using assms
    by (auto simp: potential_def posted_def close_request_def split: if_splits option.splits)
qed (use assms potential_sends potential_heads potential_body potential_chunk in fastforce)+

lemma messages_read_Cons: "messages_read parse (e # es) = messages_read parse [e] @ messages_read parse es"
  by (simp add: messages_read_def map_filter_simps split: option.split)

lemma mset_grow: "A \<subseteq># B + C \<Longrightarrow> B \<subseteq># D + E \<Longrightarrow> A \<subseteq># D + (E + (C :: 'a multiset))"
  by (metis add.assoc mset_subset_eq_mono_add_right_cancel subset_mset.order_trans)

lemma run_bridge_posts:
  "potential ser (snd (run_bridge parse ser cfg es b)) \<subseteq># potential ser b + mset (map ser (messages_read parse es))"
proof (induction es arbitrary: b)
  case (Cons e es)
  note split = messages_read_Cons [of parse e es]
  show ?case
  proof (cases "bridge_step parse ser cfg e b")
    case None
    then show ?thesis using mset_grow [OF Cons [of b], of "potential ser b" "mset (map ser (messages_read parse [e]))"]
      by (simp add: split)
  next
    case (Some r)
    then obtain err b' where r: "r = (err, b')" by (cases r)
    note step = bridge_step_posts [OF Some [unfolded r]]
    show ?thesis
    proof (cases err)
      case None
      then show ?thesis using mset_grow [OF Cons [of b'] step] Some r by (simp add: split)
    next
      case (Some e')
      then have "snd (run_bridge parse ser cfg (e # es) b) = b'"
        using \<open>bridge_step parse ser cfg e b = _\<close> r by simp
      then show ?thesis using mset_grow [of "potential ser b'" "potential ser b'" "{#}", OF _ step]
        by (simp add: split) (metis add.assoc mset_subset_eq_add_left subset_mset.order_trans)
    qed
  qed
qed (simp add: messages_read_def List.map_filter_def)

text \<open>
  C26: a message reaches the server at most once: in every run, the bodies of the POST
  requests, with their multiplicity, are among the serialised messages of the lines read; no
  error, reconnection or redirect sends one again.
\<close>

theorem bridge_posts_once:
  "mset (map bq_body (filter (\<lambda>r. bq_method r = ''POST'') (br_requests (snd (run_bridge parse ser cfg es start_bridge)))))
     \<subseteq># mset (map ser (messages_read parse es))"
proof -
  let ?b = "snd (run_bridge parse ser cfg es start_bridge)"
  have "potential ser start_bridge = {#}" by (simp add: start_bridge_def potential_def posted_def waiting_def)
  then have "potential ser ?b \<subseteq># mset (map ser (messages_read parse es))"
    using run_bridge_posts [of ser parse cfg es start_bridge] by simp
  moreover have "posted ?b \<subseteq># potential ser ?b" by (simp add: potential_def)
  ultimately show ?thesis unfolding posted_def [symmetric] by (rule subset_mset.order_trans [rotated])
qed

end
