(* ===== verification/Operator.thy ===== *)
theory Operator
  imports Proxy Remote_Target
begin

section \<open>The commands of the binary\<close>

text \<open>
  Model of \<^verbatim>\<open>mcp-shield/src/main.rs\<close>: which command the arguments ask for, the operator
  commands on the baseline file and the outbox, and what a resident drainer, a bridge or a
  proxy is started with. Starting them is the value returned; their runs are the models of the
  other theories. What is printed on standard error is left out, except the list of pending
  tools.
\<close>

subsection \<open>The arguments\<close>

datatype Command =
    Fails string
  | Bridge_child string
  | List_pending
  | Approve_tool string
  | Revoke_tool string
  | Replay_dead_letters
  | Drain_outbox
  | Start_proxy "string list"

definition usage :: string where
  "usage = join_str [LF]
     [''usage: mcp-shield <server-command> [server-args...]'',
      ''or: mcp-shield --remote-url <https://server.example/mcp>'',
      ''or: mcp-shield --list-pending | --approve <tool-name> | --revoke <tool-name>'',
      ''or: mcp-shield --drain-outbox | --replay-dead-letters'',
      ''example: mcp-shield python fixtures/fake_mcp_server.py'']"

text \<open>\<open>exe\<close> is \<^verbatim>\<open>std::env::current_exe\<close>.\<close>

definition command_of :: "string option \<Rightarrow> string list \<Rightarrow> Command" where
  "command_of exe args =
     (if args = [] then Fails usage
      else if hd args = ''__streamable-http-bridge''
      then (if length args \<noteq> 2 then Fails ''internal Streamable HTTP bridge expects exactly one URL''
            else Bridge_child (args ! 1))
      else
        (let server_cmd =
           (if hd args \<noteq> ''--remote-url'' then Inr args
            else if length args \<noteq> 2 then Inl ''--remote-url expects exactly one http or https URL''
            else (case exe of
                    None \<Rightarrow> Inl ''locate mcp-shield executable''
                  | Some executable \<Rightarrow> Inr [executable, ''__streamable-http-bridge'', args ! 1])) in
         case server_cmd of
           Inl e \<Rightarrow> Fails e
         | Inr cmd \<Rightarrow>
             if hd cmd = ''--list-pending'' then List_pending
             else if hd cmd = ''--approve'' \<or> hd cmd = ''--reapprove''
             then (if length cmd \<noteq> 2 then Fails (hd cmd @ '' expects exactly one tool name'')
                   else Approve_tool (cmd ! 1))
             else if hd cmd = ''--revoke''
             then (if length cmd \<noteq> 2 then Fails ''--revoke expects exactly one tool name''
                   else Revoke_tool (cmd ! 1))
             else if cmd = [''--replay-dead-letters''] then Replay_dead_letters
             else if cmd = [''--drain-outbox''] then Drain_outbox
             else Start_proxy cmd))"

subsection \<open>Editing the baseline\<close>

text \<open>
  \<^verbatim>\<open>--approve\<close> and \<^verbatim>\<open>--revoke\<close> in the two halves the lock separates: the store is loaded
  first, and only then is the lock taken, under which the edit and the write happen. The
  result of the second half is the text the file holds after it, when it was written.
\<close>

datatype Edit = Approving string | Revoking string

fun edit_store :: "Edit \<Rightarrow> BaselineStore \<Rightarrow> string + BaselineStore" where
  "edit_store (Approving tool) store =
     (case approve tool store of
        (True, store') \<Rightarrow> Inr store'
      | (False, _) \<Rightarrow> Inl (''no tool named '' @ debug_str tool @ '' is awaiting approval; run --list-pending to see what is''))"
| "edit_store (Revoking tool) store =
     (case revoke tool store of
        (True, store') \<Rightarrow> Inr store'
      | (False, _) \<Rightarrow> Inl (''no approved tool named '' @ debug_str tool @ '' in baseline; nothing to revoke''))"

definition open_store :: "Ext \<Rightarrow> fs_view \<Rightarrow> ShieldConfig \<Rightarrow> string + BaselineStore" where
  "open_store x fs config =
     map_sum (store_error_text (x_key_err x) (cfg_baseline_path config)) id
       (load (x_mac x) (x_ser x) (x_sha x) (x_parse_file x) fs (cfg_baseline_path config) (cfg_hmac_key config))"

definition commit_edit :: "Ext \<Rightarrow> string option \<Rightarrow> store_error + nat option \<Rightarrow> Edit \<Rightarrow> BaselineStore \<Rightarrow> string + string option" where
  "commit_edit x lock_error outcome edit store =
     (case lock_error of
        Some e \<Rightarrow> Inl e
      | None \<Rightarrow>
          (case edit_store edit store of
             Inl e \<Rightarrow> Inl e
           | Inr store' \<Rightarrow>
               map_sum (store_error_text (x_key_err x) (bs_path store)) id
                 (fst (save_if_dirty (x_pretty_file x) (x_sha x) outcome store'))))"

subsection \<open>A bridge\<close>

definition start_of_bridge :: "url_parser \<Rightarrow> (string \<Rightarrow> bool) \<Rightarrow> bool \<Rightarrow> env \<Rightarrow> string \<Rightarrow> string + Url \<times> nat \<times> string \<times> string option" where
  "start_of_bridge url_parse value_ok build_ok env remote_url =
     (case parse_target url_parse remote_url of
        Inl e \<Rightarrow> Inl e
      | Inr target \<Rightarrow>
          (case remote_timeout_secs (env ''MCP_SHIELD_REMOTE_TIMEOUT_SECS'') of
             Inl e \<Rightarrow> Inl e
           | Inr timeout_secs \<Rightarrow>
               if \<not> build_ok then Inl ''build Streamable HTTP client''
               else
                 (case header_from_env value_ok env ''MCP_SHIELD_PROTOCOL_VERSION'' DEFAULT_PROTOCOL_VERSION ''MCP protocol version'' of
                    Inl e \<Rightarrow> Inl e
                  | Inr protocol \<Rightarrow>
                      (case remote_authorization value_ok (env ''MCP_SHIELD_REMOTE_TOKEN'') of
                         Inl e \<Rightarrow> Inl e
                       | Inr authorization \<Rightarrow> Inr (target, timeout_secs, protocol, authorization)))))"

subsection \<open>The whole program\<close>

text \<open>Everything the program is given.\<close>

record MainWorld =
  mw_exe :: "string option"
  mw_host :: host_env
  mw_ext :: Ext
  mw_baseline :: fs_view
  mw_lock_error :: "string option"
  mw_write :: "store_error + nat option"
  mw_codec :: Codec
  mw_payload :: "string \<Rightarrow> json option"
  mw_faults :: Faults
  mw_now :: nat
  mw_files :: Files
  mw_url :: url_parser
  mw_with_extension :: "string \<Rightarrow> string \<Rightarrow> string"
  mw_create_parent :: "string \<Rightarrow> bool"
  mw_client :: bool
  mw_header_ok :: "string \<Rightarrow> bool"
  mw_read_file :: "string \<Rightarrow> string + string"
  mw_config :: "string \<Rightarrow> string + BoundaryConfig"
  mw_bind :: "string \<Rightarrow> string + string"

definition mw_env :: "MainWorld \<Rightarrow> env" where
  "mw_env w name = (case mw_host w name of VarOk v \<Rightarrow> Some v | _ \<Rightarrow> None)"

definition configured_outbox :: "MainWorld \<Rightarrow> OutboxConfig option" where
  "configured_outbox w = outbox_from_env (mw_url w) (mw_with_extension w) (mw_create_parent w) (mw_client w) (mw_env w)"

text \<open>
  \<^verbatim>\<open>outbox_or_from_env_path\<close>: without a configuration the same paths are opened for the local
  operations; the address and the token are then placeholders that no local operation uses.
\<close>

definition local_outbox :: "MainWorld \<Rightarrow> string + string" where
  "local_outbox w =
     (case configured_outbox w of
        Some ob \<Rightarrow> Inr (ob_path ob)
      | None \<Rightarrow>
          (let path = default_spool_path (mw_env w) in
           if \<not> mw_create_parent w path then Inl ''create the outbox directory''
           else if \<not> mw_client w then Inl ''build the outbox client''
           else Inr path))"

definition admin_credential :: "env \<Rightarrow> string option" where
  "admin_credential env =
     (case env ''MONOLITH_ADMIN_TOKEN'' of Some t \<Rightarrow> Some t | None \<Rightarrow> env ''MONOLITH_EVENT_TOKEN'')"

text \<open>The status listener of a drainer: its address and its credential, when one is asked for.\<close>

definition status_listener :: "MainWorld \<Rightarrow> string + (string \<times> string option) option" where
  "status_listener w =
     (case mw_env w ''MCP_SHIELD_STATUS_BIND'' of
        None \<Rightarrow> Inr None
      | Some bind_addr \<Rightarrow>
          (let trimmed = trim bind_addr in
           if trimmed = [] then Inr None
           else
             (case local_outbox w of
                Inl e \<Rightarrow> Inl ''failed to access outbox for status listener''
              | Inr path \<Rightarrow>
                  (case mw_bind w trimmed of
                     Inl e \<Rightarrow> Inl (''failed to bind status listener on '' @ trimmed)
                   | Inr address \<Rightarrow> Inr (Some (address, admin_credential (mw_env w)))))))"

datatype MainResult =
    Stops string
  | Shows "string list"
  | Edits "string option"
  | Replays nat Files
  | Replay_fails string Files
  | Bridges "Url \<times> nat \<times> string \<times> string option"
  | Drains OutboxConfig "(string \<times> string option) option" "PollRequest option"
  | Proxies "string list" ShieldConfig "ShieldSecretBoundary option" "OutboxConfig option" "PollRequest option"

definition edit_command :: "MainWorld \<Rightarrow> Edit \<Rightarrow> MainResult" where
  "edit_command w edit =
     (case open_store (mw_ext w) (mw_baseline w) (fst (from_env (mw_env w))) of
        Inl e \<Rightarrow> Stops e
      | Inr store \<Rightarrow>
          (case commit_edit (mw_ext w) (mw_lock_error w) (mw_write w) edit store of
             Inl e \<Rightarrow> Stops e
           | Inr written \<Rightarrow> Edits written))"

definition run_command :: "MainWorld \<Rightarrow> Command \<Rightarrow> MainResult" where
  "run_command w c =
     (case c of
        Fails e \<Rightarrow> Stops e
      | Bridge_child url \<Rightarrow>
          (case start_of_bridge (mw_url w) (mw_header_ok w) (mw_client w) (mw_env w) url of
             Inl e \<Rightarrow> Stops e
           | Inr b \<Rightarrow> Bridges b)
      | List_pending \<Rightarrow>
          (case open_store (mw_ext w) (mw_baseline w) (fst (from_env (mw_env w))) of
             Inl e \<Rightarrow> Stops e
           | Inr store \<Rightarrow> Shows (pending_names store))
      | Approve_tool tool \<Rightarrow> edit_command w (Approving tool)
      | Revoke_tool tool \<Rightarrow> edit_command w (Revoking tool)
      | Replay_dead_letters \<Rightarrow>
          (case local_outbox w of
             Inl e \<Rightarrow> Stops ''failed to initialize outbox for dead-letter replay''
           | Inr path \<Rightarrow>
               (case replay_dead_letters (mw_codec w) (mw_payload w) (mw_faults w) (mw_now w) None (mw_files w) of
                  (Inl e, fs) \<Rightarrow> Replay_fails ''failed to replay dead-letter events'' fs
                | (Inr replayed, fs) \<Rightarrow> Replays replayed fs))
      | Drain_outbox \<Rightarrow>
          (case configured_outbox w of
             None \<Rightarrow> 
               Stops (''outbox delivery is not configured; set MONOLITH_DASHBOARD_URL, ''
                 @ ''MONOLITH_EVENT_TOKEN, and MONOLITH_EVENT_OUTBOX_PATH'')
           | Some ob \<Rightarrow>
               (case status_listener w of
                  Inl e \<Rightarrow> Stops e
                | Inr listener \<Rightarrow> Drains ob listener (revocation_poller (mw_client w) (mw_env w) (Some ob))))
      | Start_proxy cmd \<Rightarrow>
          (case boundary_from_env (mw_read_file w) (mw_config w) (\<lambda>u. map_sum id fst (mw_url w u)) (mw_host w) of
             Inl e \<Rightarrow> Stops e
           | Inr boundary \<Rightarrow>
               Proxies cmd (fst (from_env (mw_env w))) boundary (configured_outbox w)
                 (revocation_poller (mw_client w) (mw_env w) (configured_outbox w))))"

definition shield_main :: "MainWorld \<Rightarrow> string list \<Rightarrow> MainResult" where
  "shield_main w args = run_command w (command_of (mw_exe w) args)"

subsection \<open>The wrapped server\<close>

text \<open>
  \<^verbatim>\<open>proxy::run\<close> around the two directions: what the child process and the directions do is
  given, with what is waited for and killed as the result. A panic of the agent task is an error
  like any other; a child still running when the call returns is killed by \<^verbatim>\<open>kill_on_drop\<close>.
\<close>

datatype First = Server_first "string + unit" | Agent_first "string + unit"

datatype ChildWait = Exited bool string | Wait_failed string | Stalled

record Supervision =
  sv_vars :: "string list"
  sv_spawned :: bool
  sv_stdin :: bool
  sv_stdout :: bool
  sv_first :: First
  sv_drain :: "(string + unit) option"
  sv_wait :: ChildWait
  sv_kill :: "string + unit"
  sv_wait_again :: ChildWait

record ChildCommand =
  cc_program :: string
  cc_args :: "string list"
  cc_env :: env

datatype ChildEnd = Not_started | Reaped | Dropped

definition child_command :: "string list \<Rightarrow> string list \<Rightarrow> env \<Rightarrow> ChildCommand" where
  "child_command server_cmd vars env =
     \<lparr>cc_program = hd server_cmd, cc_args = tl server_cmd, cc_env = snd (strip_secret_env_vars vars env)\<rparr>"

definition server_result :: "Supervision \<Rightarrow> string + unit" where
  "server_result sv =
     (case sv_first sv of
        Server_first result \<Rightarrow> result
      | Agent_first (Inl e) \<Rightarrow> Inl e
      | Agent_first (Inr _) \<Rightarrow>
          (case sv_drain sv of
             None \<Rightarrow> Inl ''server did not drain within 5 seconds after agent EOF''
           | Some result \<Rightarrow> result))"

text \<open>Waiting for the child: the result, and whether a kill was asked for in this part.\<close>

definition await_child :: "Supervision \<Rightarrow> (string + unit) \<times> bool \<times> ChildEnd" where
  "await_child sv =
     (let result = server_result sv; failed = (result \<noteq> Inr ()) in
      case sv_wait sv of
        Exited success status \<Rightarrow>
          (if \<not> success \<and> \<not> failed then Inl (''MCP server exited unsuccessfully: '' @ status) else result, failed, Reaped)
      | Wait_failed e \<Rightarrow> (Inl ''waiting for MCP server exit'', failed, Dropped)
      | Stalled \<Rightarrow>
          (case sv_kill sv of
             Inl e \<Rightarrow> (Inl ''terminating stalled MCP server'', True, Dropped)
           | Inr _ \<Rightarrow>
               (case sv_wait_again sv of
                  Exited success status \<Rightarrow> (Inl ''MCP server failed to exit within 5 seconds'', True, Reaped)
                | Wait_failed e \<Rightarrow> (Inl e, True, Dropped)
                | Stalled \<Rightarrow> (Inl ''MCP server did not terminate'', True, Dropped))))"

definition run_server ::
  "Ext \<Rightarrow> fs_view \<Rightarrow> ShieldConfig \<Rightarrow> string list \<Rightarrow> env \<Rightarrow> Supervision
   \<Rightarrow> (string + unit) \<times> ChildCommand option \<times> bool \<times> ChildEnd" where
  "run_server x fs config server_cmd env sv =
     (case open_store x fs config of
        Inl e \<Rightarrow> (Inl e, None, False, Not_started)
      | Inr store \<Rightarrow>
          if \<not> sv_spawned sv then (Inl (''failed to spawn MCP server: ['' @ join_str '', '' (map debug_str server_cmd) @ '']''), None, False, Not_started)
          else
            (let child = Some (child_command server_cmd (sv_vars sv) env) in
             if \<not> sv_stdin sv then (Inl ''child process has no stdin handle'', child, False, Dropped)
             else if \<not> sv_stdout sv then (Inl ''child process has no stdout handle'', child, False, Dropped)
             else (case await_child sv of (result, killed, ended) \<Rightarrow> (result, child, killed, ended))))"

subsection \<open>Properties\<close>

text \<open>For rewriting inside branches.\<close>

lemmas branches = option.case_cong sum.case_cong prod.case_cong if_cong

text \<open>
  C32: only the proxy depends on the secret boundary, and it fails closed: with a boundary
  configuration that cannot be built no proxy starts, while no other command looks at the
  boundary's variable, whatever it holds, so that the operator can still inspect and repair.
\<close>

theorem boundary_only_for_proxy:
  "case command_of (mw_exe w) args of
     Start_proxy cmd \<Rightarrow>
       (case boundary_from_env (mw_read_file w) (mw_config w) (\<lambda>u. map_sum id fst (mw_url w u)) (mw_host w) of
          Inl e \<Rightarrow> shield_main w args = Stops e
        | Inr b \<Rightarrow> (\<exists>config ob poll. shield_main w args = Proxies cmd config b ob poll))
   | _ \<Rightarrow> shield_main (w\<lparr>mw_host := (mw_host w)(''MCP_SHIELD_SECRET_BOUNDARY_CONFIG'' := v)\<rparr>) args = shield_main w args"
proof -
  let ?w = "w\<lparr>mw_host := (mw_host w)(''MCP_SHIELD_SECRET_BOUNDARY_CONFIG'' := v)\<rparr>"
  have env: "mw_env ?w = (mw_env w)(''MCP_SHIELD_SECRET_BOUNDARY_CONFIG'' := mw_env ?w ''MCP_SHIELD_SECRET_BOUNDARY_CONFIG'')"
    by (rule ext) (simp add: mw_env_def)
  have config: "from_env (e(''MCP_SHIELD_SECRET_BOUNDARY_CONFIG'' := y)) = from_env e" for e y
    by (simp add: from_env_def)
  have ob: "configured_outbox ?w = configured_outbox w"
    unfolding configured_outbox_def by (subst env) (simp add: outbox_from_env_def default_spool_path_def cong: branches)
  have poll: "revocation_poller b (e(''MCP_SHIELD_SECRET_BOUNDARY_CONFIG'' := y)) o1 = revocation_poller b e o1" for b e y o1
    by (simp add: revocation_poller_def poll_interval_ms_def cong: branches)
  have bridge: "start_of_bridge p ok b (e(''MCP_SHIELD_SECRET_BOUNDARY_CONFIG'' := y)) u = start_of_bridge p ok b e u" for p ok b e y u
    by (simp add: start_of_bridge_def header_from_env_def cong: branches)
  have loc: "local_outbox ?w = local_outbox w"
    unfolding local_outbox_def ob by (subst env) (simp add: default_spool_path_def cong: branches)
  have status: "status_listener ?w = status_listener w"
    unfolding status_listener_def loc by (subst (1 2) env) (simp add: admin_credential_def cong: branches)
  have edit: "edit_command ?w ed = edit_command w ed" for ed
    unfolding edit_command_def by (subst env) (simp add: config cong: branches)
  have child: "run_command ?w (Bridge_child u) = run_command w (Bridge_child u)" for u
    unfolding run_command_def Command.case by (subst env) (simp add: bridge cong: branches)
  have pending: "run_command ?w List_pending = run_command w List_pending"
    unfolding run_command_def Command.case by (subst env) (simp add: config cong: branches)
  have drain: "run_command ?w Drain_outbox = run_command w Drain_outbox"
    unfolding run_command_def Command.case ob status by (subst env) (simp add: poll cong: branches)
  have replay: "run_command ?w Replay_dead_letters = run_command w Replay_dead_letters"
    unfolding run_command_def Command.case loc by (simp cong: branches)
  show ?thesis
  proof (cases "command_of (mw_exe w) args")
    case (Start_proxy cmd)
    then show ?thesis by (simp add: shield_main_def run_command_def split: sum.split)
  qed (simp_all add: shield_main_def child pending drain replay, simp_all add: run_command_def edit)
qed


lemma revoked_file:
  "hm_get (bs_tools s) t = Some e \<Longrightarrow> f = store_file (snd (revoke t s)) \<Longrightarrow>
     hm_get (bf_tools f) = (hm_get (bs_tools s))(t := None) \<and>
     hm_get (bf_pending f) = (hm_get (bs_pending s))(t := Some (unwrap_or (hm_get (bs_pending s) t) e)) \<and>
     set (bf_revoked f) = insert t (set (bs_revoked s))"
  by (auto simp: revoke_def store_file_def fun_eq_iff unwrap_or_def split: option.splits)

lemma approved_file:
  "hm_get (bs_pending s) t = Some e \<Longrightarrow> f = store_file (snd (approve t s)) \<Longrightarrow>
     hm_get (bf_tools f) = (hm_get (bs_tools s))(t := Some e) \<and>
     hm_get (bf_pending f) = (hm_get (bs_pending s))(t := None) \<and>
     set (bf_revoked f) = set (bs_revoked s) - {t}"
  by (auto simp: approve_def store_file_def fun_eq_iff)

lemma saved_text:
  "bs_dirty s \<Longrightarrow> fst (save_if_dirty pretty sha outcome s) =
     (case pretty (store_file s) of
        None \<Rightarrow> Inl SerializeFailed
      | Some text \<Rightarrow> map_sum id (\<lambda>m. Some text) outcome)"
  by (auto simp: save_if_dirty_def save_def write_store_def split: option.split sum.split prod.split)

lemma edit_store_Inr:
  "edit_store (Revoking t) s = Inr s' \<longleftrightarrow> hm_contains (bs_tools s) t \<and> s' = snd (revoke t s)"
  "edit_store (Approving t) s = Inr s' \<longleftrightarrow> hm_contains (bs_pending s) t \<and> s' = snd (approve t s)"
  by (auto simp: revoke_def approve_def hm_contains_def split: option.splits)

lemma commit_edit_Inr:
  "commit_edit x lock outcome edit store = Inr written \<longleftrightarrow>
     lock = None \<and> (\<exists>s' text m. edit_store edit store = Inr s' \<and> outcome = Inr m \<and>
        x_pretty_file x (store_file s') = Some text \<and> written = Some text)"
proof -
  have "bs_dirty s'" if "edit_store edit store = Inr s'" for s'
    using that by (cases edit) (auto simp: revoke_def approve_def split: option.splits)
  then show ?thesis
    by (cases outcome) (auto simp: commit_edit_def saved_text split: option.splits sum.splits)
qed

text \<open>
  C31: an operator edit does exactly what was asked: it goes through just when the lock is
  taken, the tool is trusted (or pending, for an approval) in the store that was loaded, and
  the store can be printed and written; the file then differs from that store at this one name
  only. A revoked tool is no longer trusted, is revoked, and keeps its first candidate for
  approval; an approved one is trusted with its pending entry and no longer revoked.
\<close>

theorem operator_edits_exact:
  "((\<exists>written. commit_edit x lock outcome (Revoking t) s = Inr written) \<longleftrightarrow>
      lock = None \<and> hm_contains (bs_tools s) t \<and> (\<exists>m. outcome = Inr m) \<and> x_pretty_file x (store_file (snd (revoke t s))) \<noteq> None) \<and>
   ((\<exists>written. commit_edit x lock outcome (Approving t) s = Inr written) \<longleftrightarrow>
      lock = None \<and> hm_contains (bs_pending s) t \<and> (\<exists>m. outcome = Inr m) \<and> x_pretty_file x (store_file (snd (approve t s))) \<noteq> None) \<and>
   (case commit_edit x lock outcome (Revoking t) s of
      Inl e \<Rightarrow> True
    | Inr written \<Rightarrow> \<exists>f. written = x_pretty_file x f \<and>
        hm_get (bf_tools f) = (hm_get (bs_tools s))(t := None) \<and>
        (hm_get (bf_pending f))(t := None) = (hm_get (bs_pending s))(t := None) \<and>
        hm_get (bf_pending f) t = (case hm_get (bs_pending s) t of Some e \<Rightarrow> Some e | None \<Rightarrow> hm_get (bs_tools s) t) \<and>
        set (bf_revoked f) = insert t (set (bs_revoked s))) \<and>
   (case commit_edit x lock outcome (Approving t) s of
      Inl e \<Rightarrow> True
    | Inr written \<Rightarrow> \<exists>f. written = x_pretty_file x f \<and>
        hm_get (bf_tools f) = (hm_get (bs_tools s))(t := hm_get (bs_pending s) t) \<and>
        hm_get (bf_pending f) = (hm_get (bs_pending s))(t := None) \<and>
        set (bf_revoked f) = set (bs_revoked s) - {t})"
proof (intro conjI)
  show "(\<exists>written. commit_edit x lock outcome (Revoking t) s = Inr written) \<longleftrightarrow>
      lock = None \<and> hm_contains (bs_tools s) t \<and> (\<exists>m. outcome = Inr m) \<and> x_pretty_file x (store_file (snd (revoke t s))) \<noteq> None"
    unfolding commit_edit_Inr edit_store_Inr by (cases outcome) auto
  show "(\<exists>written. commit_edit x lock outcome (Approving t) s = Inr written) \<longleftrightarrow>
      lock = None \<and> hm_contains (bs_pending s) t \<and> (\<exists>m. outcome = Inr m) \<and> x_pretty_file x (store_file (snd (approve t s))) \<noteq> None"
    unfolding commit_edit_Inr edit_store_Inr by (cases outcome) auto
next
  show "case commit_edit x lock outcome (Revoking t) s of
      Inl e \<Rightarrow> True
    | Inr written \<Rightarrow> \<exists>f. written = x_pretty_file x f \<and>
        hm_get (bf_tools f) = (hm_get (bs_tools s))(t := None) \<and>
        (hm_get (bf_pending f))(t := None) = (hm_get (bs_pending s))(t := None) \<and>
        hm_get (bf_pending f) t = (case hm_get (bs_pending s) t of Some e \<Rightarrow> Some e | None \<Rightarrow> hm_get (bs_tools s) t) \<and>
        set (bf_revoked f) = insert t (set (bs_revoked s))"
  proof (cases "commit_edit x lock outcome (Revoking t) s")
    case (Inr written)
    then obtain e where e: "hm_get (bs_tools s) t = Some e" "written = x_pretty_file x (store_file (snd (revoke t s)))"
      unfolding commit_edit_Inr edit_store_Inr by (auto simp: hm_contains_def split: option.splits)
    from revoked_file [OF e(1) refl] e Inr show ?thesis
      by (intro sum.case_eq_if [THEN iffD2]) (auto simp: unwrap_or_def split: option.splits)
  qed simp
  show "case commit_edit x lock outcome (Approving t) s of
      Inl e \<Rightarrow> True
    | Inr written \<Rightarrow> \<exists>f. written = x_pretty_file x f \<and>
        hm_get (bf_tools f) = (hm_get (bs_tools s))(t := hm_get (bs_pending s) t) \<and>
        hm_get (bf_pending f) = (hm_get (bs_pending s))(t := None) \<and>
        set (bf_revoked f) = set (bs_revoked s) - {t}"
  proof (cases "commit_edit x lock outcome (Approving t) s")
    case (Inr written)
    then obtain e where e: "hm_get (bs_pending s) t = Some e" "written = x_pretty_file x (store_file (snd (approve t s)))"
      unfolding commit_edit_Inr edit_store_Inr by (auto simp: hm_contains_def split: option.splits)
    from approved_file [OF e(1) refl] e show ?thesis unfolding Inr by auto
  qed simp
qed

text \<open>
  The store of a command is the one it loaded before it held the lock: what another process has
  written since is not looked at. So of two operators who opened the same file, the one who
  approves last puts the tool the other has revoked back among the trusted ones.
\<close>

lemma stale_edit_undoes_revocation:
  assumes "open_store x fs config = Inr s" "hm_get (bs_tools s) a = Some e" "a \<noteq> b"
    and "commit_edit x None out1 (Revoking a) s = Inr text1"
    and "commit_edit x None out2 (Approving b) s = Inr text2"
  shows "\<exists>f1 f2. text1 = x_pretty_file x f1 \<and> hm_get (bf_tools f1) a = None \<and> a \<in> set (bf_revoked f1) \<and>
    text2 = x_pretty_file x f2 \<and> hm_get (bf_tools f2) a = Some e \<and> (a \<in> set (bf_revoked f2) \<longleftrightarrow> a \<in> set (bs_revoked s))"
proof -
  have r: "text1 = x_pretty_file x (store_file (snd (revoke a s)))"
    using assms(4) unfolding commit_edit_Inr edit_store_Inr by auto
  obtain eb where b: "hm_get (bs_pending s) b = Some eb" "text2 = x_pretty_file x (store_file (snd (approve b s)))"
    using assms(5) unfolding commit_edit_Inr edit_store_Inr by (auto simp: hm_contains_def)
  show ?thesis
    using r b(2) revoked_file [OF assms(2) refl] approved_file [OF b(1) refl] assms(2,3)
    by (intro exI [of _ "store_file (snd (revoke a s))"] exI [of _ "store_file (snd (approve b s))"]) auto
qed

lemma await_child_ok:
  "fst (await_child sv) = Inr () \<longleftrightarrow> server_result sv = Inr () \<and> (\<exists>status. sv_wait sv = Exited True status)"
  by (cases "sv_wait sv") (auto simp: await_child_def Let_def split: sum.splits ChildWait.splits)

lemma await_child_kill:
  "fst (snd (await_child sv)) \<longleftrightarrow> (\<exists>e. server_result sv = Inl e) \<or> sv_wait sv = Stalled"
proof -
  have "server_result sv \<noteq> Inr () \<longleftrightarrow> (\<exists>e. server_result sv = Inl e)" by (cases "server_result sv") auto
  then show ?thesis by (cases "sv_wait sv") (auto simp: await_child_def Let_def split: sum.splits ChildWait.splits)
qed

lemma await_child_end: "snd (snd (await_child sv)) \<noteq> Not_started"
  by (auto simp: await_child_def Let_def split: sum.splits ChildWait.splits)


end
