(* ===== verification/Delivery.thy ===== *)
theory Delivery
  imports Outbox_Ledger Proxy_Trust Status
begin

section \<open>From a detection to the spool\<close>

text \<open>
  Model of the end of \<^verbatim>\<open>emit_traced\<close> in \<^verbatim>\<open>mcp-shield/src/events.rs\<close> and of the
  background tasks of \<^verbatim>\<open>mcp-shield/src/outbox.rs\<close> that outlive one call: an event is
  serialised in the order of the fields of \<open>ShieldEvent\<close> and put on the spool, the flusher
  drains it in rounds, and the status listener handles one connection after the other. Event
  ids, clocks and the printer of JSON are arguments; a value of this type can always be printed.

  The histories of \<open>Outbox_Ledger\<close> take any pending list for a drain; here a drain works on what
  it loaded itself, which shows where the records in the files come from.
\<close>

subsection \<open>Emission\<close>

definition optional_member :: "string \<Rightarrow> string option \<Rightarrow> (string \<times> json) list" where
  "optional_member key v = (case v of None \<Rightarrow> [] | Some s \<Rightarrow> [(key, JStr s)])"

definition event_json :: "ShieldEvent \<Rightarrow> json" where
  "event_json e =
     JObj ([(''event_id'', JStr (se_event_id e)), (''schema_version'', JNum (PosInt (se_schema_version e))),
            (''timestamp_ms'', JNum (PosInt (se_timestamp_ms e))), (''module'', JStr (se_module e)),
            (''event_type'', JStr (se_event_type e)), (''severity'', JStr (severity_text (se_severity e))),
            (''details'', se_details e), (''source'', JStr (se_source e)), (''tenant_id'', JStr (se_tenant_id e))]
       @ optional_member ''agent_id'' (se_agent_id e) @ optional_member ''session_id'' (se_session_id e)
       @ optional_member ''trace_id'' (se_trace_id e) @ optional_member ''resource_type'' (se_resource_type e)
       @ optional_member ''resource_id'' (se_resource_id e)
       @ [(''outcome'', JStr (se_outcome e)), (''policy_version'', JStr (se_policy_version e))])"

text \<open>What differs from one emission to the next: the id, the two clocks, and the faults.\<close>

record Stamp =
  st_id :: string
  st_built :: nat
  st_spooled :: nat
  st_faults :: Faults

definition event_payload :: "(json \<Rightarrow> string) \<Rightarrow> env \<Rightarrow> Stamp \<Rightarrow> Event \<Rightarrow> string" where
  "event_payload ser env t e = ser (event_json (build_shield_event env (st_id t) (st_built t) e))"

text \<open>Without an outbox the event is only logged; a failure to spool it is only logged too.\<close>

definition emit_event :: "Codec \<Rightarrow> (json \<Rightarrow> string) \<Rightarrow> env \<Rightarrow> bool \<Rightarrow> Stamp \<Rightarrow> Event \<Rightarrow> Files \<Rightarrow> Files" where
  "emit_event c ser env outbox t e fs =
     (if outbox then snd (enqueue c (st_faults t) (st_spooled t) (st_id t) (event_payload ser env t e) fs) else fs)"

definition emit_all :: "Codec \<Rightarrow> (json \<Rightarrow> string) \<Rightarrow> env \<Rightarrow> bool \<Rightarrow> (Stamp \<times> Event) list \<Rightarrow> Files \<Rightarrow> Files" where
  "emit_all c ser env outbox tes fs = fold (\<lambda>(t, e). emit_event c ser env outbox t e) tes fs"

subsection \<open>The flusher\<close>

text \<open>One round of the flusher with all it meets; the sleep between two rounds has no effect.\<close>

record Round =
  rd_load :: Faults
  rd_reconcile :: Faults
  rd_now :: nat
  rd_turns :: "Turn list"
  rd_between :: "Files \<Rightarrow> Files"

fun flusher :: "Codec \<Rightarrow> (string \<Rightarrow> json option) \<Rightarrow> Round list \<Rightarrow> Files \<times> Revocations \<Rightarrow> Files \<times> Revocations" where
  "flusher c parse [] s = s"
| "flusher c parse (r # rs) (fs, rv) =
     flusher c parse rs
       (drain c parse (rd_load r) (rd_reconcile r) False (rd_now r) (rd_turns r) (rd_between r) fs rv)"

subsection \<open>The status listener\<close>

text \<open>Connections in the order they are accepted; a failed accept, or one that ends in an error, is passed over.\<close>

record Connection =
  cn_lines :: "(string + string) list"
  cn_now :: nat
  cn_faults :: Faults

fun listener ::
  "Codec \<Rightarrow> (string \<Rightarrow> json option) \<Rightarrow> string option \<Rightarrow> (string + Connection) list \<Rightarrow> Files
   \<Rightarrow> (string + HttpAnswer option) list \<times> Files" where
  "listener c parse admin_token [] fs = ([], fs)"
| "listener c parse admin_token (Inl e # incoming) fs = listener c parse admin_token incoming fs"
| "listener c parse admin_token (Inr cn # incoming) fs =
     (let (answer, fs1) = handle_status_connection c parse (cn_faults cn) (cn_now cn) admin_token (cn_lines cn) fs;
          (answers, fs2) = listener c parse admin_token incoming fs1
      in (answer # answers, fs2))"

subsection \<open>Histories with drains that load\<close>

datatype delivery =
    Emits Stamp Event
  | Loads nat Faults
  | Settles nat bool nat "Turn list" Faults
  | Replays nat "string option" Faults

text \<open>The files, the mirror of revoked sessions, and what each drainer has loaded.\<close>

record Desk =
  dk_files :: Files
  dk_revocations :: Revocations
  dk_loaded :: "nat \<Rightarrow> SpoolRecord list"

fun desk_step :: "Codec \<Rightarrow> (string \<Rightarrow> json option) \<Rightarrow> (json \<Rightarrow> string) \<Rightarrow> env \<Rightarrow> delivery \<Rightarrow> Desk \<Rightarrow> Desk" where
  "desk_step c parse ser env (Emits t e) d = d\<lparr>dk_files := emit_event c ser env True t e (dk_files d)\<rparr>"
| "desk_step c parse ser env (Loads p ft) d =
     d\<lparr>dk_loaded := (dk_loaded d)(p := (case load_pending c ft (dk_files d) of Inr rs \<Rightarrow> rs | Inl e \<Rightarrow> []))\<rparr>"
| "desk_step c parse ser env (Settles p force now ts ft) d =
     (case drain_loop parse force now (dk_loaded d p) ts no_outcome (dk_revocations d) of
        (None, rv) \<Rightarrow> d\<lparr>dk_revocations := rv\<rparr>
      | (Some out, rv) \<Rightarrow>
          if outcome_empty out then d\<lparr>dk_revocations := rv\<rparr>
          else d\<lparr>dk_files := snd (reconcile c ft out (dk_files d)), dk_revocations := rv\<rparr>)"
| "desk_step c parse ser env (Replays now tenant ft) d =
     d\<lparr>dk_files := snd (replay_dead_letters c parse ft now tenant (dk_files d))\<rparr>"

definition empty_desk :: Desk where
  "empty_desk = \<lparr>dk_files = \<lparr>f_spool = None, f_dead = None\<rparr>,
     dk_revocations = \<lparr>rv_sessions = [], rv_reported = []\<rparr>, dk_loaded = (\<lambda>p. [])\<rparr>"

text \<open>No append is torn after its first byte.\<close>

fun whole_appends :: "delivery \<Rightarrow> bool" where
  "whole_appends (Emits t e) = (case ft_append (st_faults t) of Some (n, err) \<Rightarrow> n = 0 | None \<Rightarrow> True)"
| "whole_appends d = True"

text \<open>The emissions of a history, as pairs of an id and a payload.\<close>

fun emissions :: "(json \<Rightarrow> string) \<Rightarrow> env \<Rightarrow> delivery list \<Rightarrow> (string \<times> string) list" where
  "emissions ser env [] = []"
| "emissions ser env (Emits t e # ds) = (st_id t, event_payload ser env t e) # emissions ser env ds"
| "emissions ser env (d # ds) = emissions ser env ds"

subsection \<open>Where records come from\<close>

definition origin :: "SpoolRecord \<Rightarrow> string \<times> string" where
  "origin r = (sr_event_id r, sr_payload r)"

definition from_emissions :: "(string \<times> string) set \<Rightarrow> SpoolRecord list \<Rightarrow> bool" where
  "from_emissions P rs \<longleftrightarrow> origin ` set rs \<subseteq> P"

lemma from_emissions_simps [simp]:
  "from_emissions P []"
  "from_emissions P (r # rs) \<longleftrightarrow> origin r \<in> P \<and> from_emissions P rs"
  "from_emissions P (rs @ rs') \<longleftrightarrow> from_emissions P rs \<and> from_emissions P rs'"
  by (auto simp: from_emissions_def)

lemma from_emissions_mono: "from_emissions P rs \<Longrightarrow> P \<subseteq> Q \<Longrightarrow> from_emissions Q rs"
  by (auto simp: from_emissions_def)

lemma from_enforced:
  "from_emissions P rs \<Longrightarrow> from_emissions P (fst (enforce_spool_bounds c mr mb rs))"
proof -
  assume a: "from_emissions P rs"
  obtain rs' n where e: "enforce_spool_bounds c mr mb rs = (rs', n)" by fastforce
  show ?thesis using a enforce_id [OF e] set_drop_subset [of n rs] by (auto simp: e from_emissions_def)
qed

definition outcome_from :: "(string \<times> string) set \<Rightarrow> DrainOutcome \<Rightarrow> bool" where
  "outcome_from P out \<longleftrightarrow> from_emissions P (do_dead out) \<and> from_emissions P (map snd (do_updated out))"

lemma origin_simps [simp]:
  "origin (r\<lparr>sr_last_error := e\<rparr>) = origin r"
  "origin (defer_record now err r) = origin r"
  "origin (replayed_record now r) = origin r"
  "origin (new_record now i p) = (i, p)"
  by (simp_all add: origin_def defer_record_def Let_def replayed_record_def new_record_def)

lemma outcome_updated: "outcome_from P out \<Longrightarrow> (k, u) \<in> set (do_updated out) \<Longrightarrow> origin u \<in> P"
  by (force simp: outcome_from_def from_emissions_def)

lemma retry_from: "outcome_from P out \<Longrightarrow> origin r \<in> P \<Longrightarrow> outcome_from P (retry now err r out)"
  using outcome_updated [of P out]
  by (auto simp: retry_def Let_def outcome_from_def from_emissions_def dest!: set_hm_insert)

lemma settle_from: "outcome_from P out \<Longrightarrow> origin r \<in> P \<Longrightarrow> outcome_from P (settle now result r out)"
  using retry_from [of P out r now]
  by (auto simp: settle_def split: sum.split) (auto simp: outcome_from_def)

lemma drain_from:
  "drain_loop parse force now rs ts out rv = (Some out', rv') \<Longrightarrow> outcome_from P out \<Longrightarrow> from_emissions P rs
   \<Longrightarrow> outcome_from P out'"
proof (induction parse force now rs ts out rv rule: drain_loop.induct)
  case (3 parse force now r rs t ts out rv)
  obtain result rv1 where p: "post parse (tn_answer t) rv = (result, rv1)" by fastforce
  from 3 p show ?case using settle_from [OF 3(4), of r "tn_clock t" result] by (auto split: if_splits)
qed auto

lemma updated_from:
  "outcome_from P out \<Longrightarrow> origin r \<in> P \<Longrightarrow> origin (updated_record out r) \<in> P"
  using outcome_updated [of P out]
  by (auto simp: updated_record_def unwrap_or_def split: option.splits dest!: map_of_SomeD)

definition desk_from :: "Codec \<Rightarrow> (string \<times> string) set \<Rightarrow> Desk \<Rightarrow> bool" where
  "desk_from c P d \<longleftrightarrow>
     (\<exists>rs ds. holds c (f_spool (dk_files d)) rs \<and> holds c (f_dead (dk_files d)) ds \<and>
        from_emissions P rs \<and> from_emissions P ds) \<and> (\<forall>p. from_emissions P (dk_loaded d p))"

lemma desk_from_mono: "desk_from c P d \<Longrightarrow> P \<subseteq> Q \<Longrightarrow> desk_from c Q d"
  unfolding desk_from_def using from_emissions_mono by blast

lemma desk_fromI:
  "holds c (f_spool fs) rs \<Longrightarrow> holds c (f_dead fs) ds \<Longrightarrow> from_emissions P rs \<Longrightarrow> from_emissions P ds \<Longrightarrow>
   desk_from c P d \<Longrightarrow> desk_from c P (d\<lparr>dk_files := fs\<rparr>)"
  unfolding desk_from_def by (simp, blast)

lemma written_from:
  assumes "write_records_atomically c fault new f = (res, f')" "holds c f old" "from_emissions P new" "from_emissions P old"
  shows "\<exists>rs. holds c f' rs \<and> from_emissions P rs"
  using write_holds [OF assms(1,2)] assms(3,4) by (cases res) auto

lemma appended_from:
  assumes "codec_ok c" "holds c f rs" "from_emissions P rs" "origin r \<in> P"
    and "append_record_bounded c ft MAX_SPOOL_RECORDS MAX_SPOOL_BYTES r f = (res, f')"
    and "case ft_append ft of Some (n, e) \<Rightarrow> n = 0 | None \<Rightarrow> True"
  shows "\<exists>rs'. holds c f' rs' \<and> from_emissions P rs'"
proof (cases "MAX_SPOOL_BYTES < (if ft_metadata ft then 0 else (case f of Some b \<Rightarrow> length b | None \<Rightarrow> 0)) + length (cd_ser c r) + 1")
  case False
  then have "append_record c (ft_append ft) r f = (res, f')"
    using assms(5) by (simp add: append_record_bounded_def Let_def)
  from append_holds [OF this assms(2,6)] assms(3,4) show ?thesis by (cases res) fastforce+
next
  case True
  show ?thesis
  proof (cases "read_records c (ft_read_spool ft) f")
    case (Inl e)
    then show ?thesis using True assms(2,3,5) by (auto simp: append_record_bounded_def Let_def)
  next
    case (Inr rs0)
    then have "rs0 = rs" using read_fault [OF assms(1,2)] by simp
    then have "write_records_atomically c (ft_write_spool ft)
        (fst (enforce_spool_bounds c MAX_SPOOL_RECORDS MAX_SPOOL_BYTES (rs @ [r]))) f = (res, f')"
      using True assms(5) Inr by (simp add: append_record_bounded_def Let_def)
    then show ?thesis by (rule written_from [OF _ assms(2)]) (simp_all add: from_enforced assms(3,4))
  qed
qed

lemma dead_from:
  assumes "codec_ok c" "holds c f ds" "from_emissions P ds" "from_emissions P new"
    and "append_dead_records_bounded c ft MAX_SPOOL_RECORDS MAX_SPOOL_BYTES new f = (res, f')"
  shows "\<exists>ds'. holds c f' ds' \<and> from_emissions P ds'"
proof (cases "new = [] \<or> (\<exists>e. read_records c (ft_read_dead ft) f = Inl e)")
  case True
  then have "f' = f" using assms(5) by (auto simp: append_dead_records_bounded_def split: if_splits)
  then show ?thesis using assms(2,3) by blast
next
  case False
  then have "read_records c (ft_read_dead ft) f = Inr ds"
    using read_fault [OF assms(1,2)] by (cases "read_records c (ft_read_dead ft) f") auto
  then have "write_records_atomically c (ft_write_dead ft)
      (fst (enforce_spool_bounds c MAX_SPOOL_RECORDS MAX_SPOOL_BYTES (ds @ new))) f = (res, f')"
    using False assms(5) by (simp add: append_dead_records_bounded_def)
  then show ?thesis by (rule written_from [OF _ assms(2)]) (simp_all add: from_enforced assms(3,4))
qed

lemma emits_from:
  assumes "codec_ok c" "desk_from c P d" "whole_appends (Emits t e)" "(st_id t, event_payload ser env t e) \<in> P"
  shows "desk_from c P (desk_step c parse ser env (Emits t e) d)"
proof (cases "ft_lock (st_faults t)")
  case (Some err)
  then show ?thesis using assms(2) by (simp add: emit_event_def enqueue_def)
next
  case None
  let ?r = "new_record (st_spooled t) (st_id t) (event_payload ser env t e)"
  obtain rs ds where h: "holds c (f_spool (dk_files d)) rs" "holds c (f_dead (dk_files d)) ds"
    "from_emissions P rs" "from_emissions P ds" using assms(2) by (auto simp: desk_from_def)
  obtain res f where a: "append_record_bounded c (st_faults t) MAX_SPOOL_RECORDS MAX_SPOOL_BYTES ?r
      (f_spool (dk_files d)) = (res, f)" by fastforce
  obtain rs' where "holds c f rs'" "from_emissions P rs'"
    using appended_from [OF assms(1) h(1,3) _ a] assms(3,4) by auto
  then show ?thesis using h(2,4) assms(2) desk_fromI [of c "(dk_files d)\<lparr>f_spool := f\<rparr>" rs' ds P d]
    by (simp add: emit_event_def enqueue_def None a Let_def)
qed

lemma reconcile_from:
  assumes "codec_ok c" "holds c (f_spool fs) rs" "holds c (f_dead fs) ds" "from_emissions P rs" "from_emissions P ds"
    and "outcome_from P out"
  shows "\<exists>rs' ds'. holds c (f_spool (snd (reconcile c ft out fs))) rs' \<and> holds c (f_dead (snd (reconcile c ft out fs))) ds' \<and>
    from_emissions P rs' \<and> from_emissions P ds'"
proof (cases "ft_lock ft = None \<and> (\<exists>x. read_records c (ft_read_spool ft) (f_spool fs) = Inr x)")
  case False
  then have "snd (reconcile c ft out fs) = fs" by (auto simp: reconcile_def split: option.splits sum.splits)
  then show ?thesis using assms(2-5) by auto
next
  case True
  then have r: "read_records c (ft_read_spool ft) (f_spool fs) = Inr rs" using read_fault [OF assms(1,2)] by auto
  let ?keep = "map (updated_record out) (filter (\<lambda>r. \<not> settled out r) rs)"
  have k: "from_emissions P ?keep" using assms(4) updated_from [OF assms(6)] by (auto simp: from_emissions_def)
  obtain res spool where w: "write_records_atomically c (ft_write_spool ft)
      (fst (enforce_spool_bounds c MAX_SPOOL_RECORDS MAX_SPOOL_BYTES ?keep)) (f_spool fs) = (res, spool)" by fastforce
  obtain res' dead where a: "append_dead_records_bounded c ft MAX_SPOOL_RECORDS MAX_SPOOL_BYTES (do_dead out)
      (f_dead fs) = (res', dead)" by fastforce
  have f: "snd (reconcile c ft out fs) = \<lparr>f_spool = spool, f_dead = dead\<rparr>"
    using True r w a by (simp add: reconcile_def Let_def)
  have "from_emissions P (do_dead out)" using assms(6) by (simp add: outcome_from_def)
  from dead_from [OF assms(1,3,5) this a] written_from [OF w assms(2) from_enforced [OF k] assms(4)]
  show ?thesis unfolding f by auto
qed

lemma desk_revocations [simp]: "desk_from c P (d\<lparr>dk_revocations := rv\<rparr>) = desk_from c P d"
  by (simp add: desk_from_def)

lemma settles_from:
  assumes "codec_ok c" "desk_from c P d"
  shows "desk_from c P (desk_step c parse ser env (Settles p force now ts ft) d)"
proof -
  obtain out rv where l: "drain_loop parse force now (dk_loaded d p) ts no_outcome (dk_revocations d) = (out, rv)" by fastforce
  show ?thesis
  proof (cases "\<exists>o'. out = Some o' \<and> \<not> outcome_empty o'")
    case False
    then show ?thesis using assms(2) by (cases out) (simp_all add: l)
  next
    case True
    then obtain o' where o': "out = Some o'" "\<not> outcome_empty o'" by blast
    obtain rs ds where h: "holds c (f_spool (dk_files d)) rs" "holds c (f_dead (dk_files d)) ds"
      "from_emissions P rs" "from_emissions P ds" "from_emissions P (dk_loaded d p)"
      using assms(2) by (auto simp: desk_from_def)
    have "outcome_from P o'"
      using drain_from [OF l [unfolded o'(1)] _ h(5)] by (simp add: outcome_from_def no_outcome_def)
    from reconcile_from [OF assms(1) h(1-4) this, of ft] obtain rs' ds' where
      "holds c (f_spool (snd (reconcile c ft o' (dk_files d)))) rs'"
      "holds c (f_dead (snd (reconcile c ft o' (dk_files d)))) ds'" "from_emissions P rs'" "from_emissions P ds'"
      by blast
    from desk_fromI [OF this assms(2)] have "desk_from c P (d\<lparr>dk_files := snd (reconcile c ft o' (dk_files d))\<rparr>)" .
    then show ?thesis using o' by (simp add: l desk_from_def)
  qed
qed

lemma replays_from:
  assumes "codec_ok c" "desk_from c P d"
  shows "desk_from c P (desk_step c parse ser env (Replays now tenant ft) d)"
proof -
  let ?fs = "dk_files d"
  obtain rs ds where h: "holds c (f_spool ?fs) rs" "holds c (f_dead ?fs) ds" "from_emissions P rs" "from_emissions P ds"
    using assms(2) by (auto simp: desk_from_def)
  show ?thesis
  proof (cases "snd (replay_dead_letters c parse ft now tenant ?fs) = ?fs")
    case True
    then show ?thesis using assms(2) by simp
  next
    case False
    then have rd: "read_records c (ft_read_dead ft) (f_dead ?fs) = Inr ds" and lock: "ft_lock ft = None"
      and rsp: "read_records c (ft_read_spool ft) (f_spool ?fs) = Inr rs"
      using read_fault [OF assms(1) h(2), of "ft_read_dead ft"] read_fault [OF assms(1) h(1), of "ft_read_spool ft"]
      by (auto simp: replay_dead_letters_def Let_def split: option.splits sum.splits if_splits)
    let ?left = "filter (\<lambda>r. \<not> of_tenant parse tenant r) ds"
    let ?all = "rs @ map (replayed_record now) (filter (of_tenant parse tenant) ds)"
    have all: "from_emissions P ?all" "from_emissions P ?left" using h(3,4) by (auto simp: from_emissions_def)
    obtain r1 spool where w1: "write_records_atomically c (ft_write_spool ft)
        (fst (enforce_spool_bounds c MAX_SPOOL_RECORDS MAX_SPOOL_BYTES ?all)) (f_spool ?fs) = (r1, spool)" by fastforce
    obtain r2 dead where w2: "write_records_atomically c (ft_write_dead ft) ?left (f_dead ?fs) = (r2, dead)" by fastforce
    obtain rs' where rs': "holds c spool rs'" "from_emissions P rs'"
      using written_from [OF w1 h(1) from_enforced [OF all(1)] h(3)] by blast
    obtain ds' where ds': "holds c dead ds'" "from_emissions P ds'"
      using written_from [OF w2 h(2) all(2) h(4)] by blast
    have files: "snd (replay_dead_letters c parse ft now tenant ?fs) =
        (case r1 of Inl e \<Rightarrow> ?fs\<lparr>f_spool := spool\<rparr> | Inr _ \<Rightarrow> \<lparr>f_spool = spool, f_dead = dead\<rparr>)"
      using False w1 w2 by (auto simp: replay_dead_letters_def Let_def lock rd rsp split: if_splits sum.splits)
    show ?thesis
    proof (cases r1)
      case (Inl e)
      then show ?thesis using desk_fromI [of c "?fs\<lparr>f_spool := spool\<rparr>" rs' ds P d] rs' h(2,4) assms(2) files by simp
    next
      case (Inr u)
      then show ?thesis using desk_fromI [of c "\<lparr>f_spool = spool, f_dead = dead\<rparr>" rs' ds' P d] rs' ds' assms(2) files by simp
    qed
  qed
qed

lemma loads_from:
  assumes "codec_ok c" "desk_from c P d"
  shows "desk_from c P (desk_step c parse ser env (Loads p ft) d)"
proof -
  obtain rs where h: "holds c (f_spool (dk_files d)) rs" "from_emissions P rs" using assms(2) by (auto simp: desk_from_def)
  have "from_emissions P (case load_pending c ft (dk_files d) of Inr rs \<Rightarrow> rs | Inl e \<Rightarrow> [])"
    using read_fault [OF assms(1) h(1)] h(2) by (auto simp: load_pending_def split: option.split sum.split)
  then show ?thesis using assms(2) by (simp add: desk_from_def)
qed

lemma history_from:
  assumes "codec_ok c" "list_all whole_appends hist" "desk_from c P d"
  shows "desk_from c (P \<union> set (emissions ser env hist)) (fold (desk_step c parse ser env) hist d)"
  using assms(2,3)
proof (induction hist arbitrary: d P)
  case (Cons x hist)
  let ?P = "P \<union> set (emissions ser env [x])"
  have d: "desk_from c ?P d" using Cons.prems(2) desk_from_mono by blast
  have "desk_from c ?P (desk_step c parse ser env x d)"
  proof (cases x)
    case (Emits t e)
    show ?thesis unfolding Emits
      by (rule emits_from [OF assms(1) d [unfolded Emits]]) (use Emits Cons.prems(1) in simp_all)
  next
    case (Loads q ft)
    show ?thesis unfolding Loads by (rule loads_from [OF assms(1) d [unfolded Loads]])
  next
    case (Settles q force now ts ft)
    show ?thesis unfolding Settles by (rule settles_from [OF assms(1) d [unfolded Settles]])
  next
    case (Replays now tenant ft)
    show ?thesis unfolding Replays by (rule replays_from [OF assms(1) d [unfolded Replays]])
  qed
  moreover have "?P \<union> set (emissions ser env hist) = P \<union> set (emissions ser env (x # hist))" by (cases x) auto
  ultimately show ?case using Cons.IH [of ?P "desk_step c parse ser env x d"] Cons.prems(1) by simp
qed simp

subsection \<open>Properties\<close>

text \<open>
  C14: nothing but emitted events is stored or sent: after any history of emissions, drains and
  replays, with any answers of the dashboard and any faults but a torn append, both files can
  be read, and every record in them, and every record a drainer has loaded to post, carries the
  id and the exact payload of an emission of the history; deferring, dead-lettering and
  replaying change neither.
\<close>

theorem records_are_emissions:
  assumes "codec_ok c" "list_all whole_appends hist"
  shows "let d = fold (desk_step c parse ser env) hist empty_desk in
    (case (read_records c None (f_spool (dk_files d)), read_records c None (f_dead (dk_files d))) of
       (Inr rs, Inr ds) \<Rightarrow> set (map origin (rs @ ds @ dk_loaded d p)) \<subseteq> set (emissions ser env hist)
     | _ \<Rightarrow> False)"
proof -
  have "desk_from c {} empty_desk" by (auto simp: desk_from_def empty_desk_def holds_def)
  from history_from [OF assms this, of ser env parse] obtain rs ds where
    h: "holds c (f_spool (dk_files (fold (desk_step c parse ser env) hist empty_desk))) rs"
       "holds c (f_dead (dk_files (fold (desk_step c parse ser env) hist empty_desk))) ds"
    and f: "from_emissions (set (emissions ser env hist)) (rs @ ds @ dk_loaded (fold (desk_step c parse ser env) hist empty_desk) p)"
    by (auto simp: desk_from_def)
  show ?thesis using f by (simp add: Let_def read_holds [OF assms(1) h(1)] read_holds [OF assms(1) h(2)] from_emissions_def image_Un)
qed

definition demo_stamp :: "string \<Rightarrow> Stamp" where
  "demo_stamp i = \<lparr>st_id = i, st_built = 5, st_spooled = 6, st_faults = no_faults\<rparr>"

definition demo_event :: Event where
  "demo_event = emit ''tools_list_changed'' Info (JObj [])"

definition demo_history :: "delivery list" where
  "demo_history = [Emits (demo_stamp ''a'') demo_event, Loads 0 no_faults, Emits (demo_stamp ''b'') demo_event,
     Settles 0 True 9 [\<lparr>tn_expired = False, tn_answer = Inr (500, []), tn_clock = 8\<rparr>] no_faults,
     Replays 10 None no_faults]"

theorem records_are_emissions_witness:
  "let d = fold (desk_step demo_codec (\<lambda>s. None) demo_ser (\<lambda>v. None)) demo_history empty_desk in
    (case (read_records demo_codec None (f_spool (dk_files d)), read_records demo_codec None (f_dead (dk_files d))) of
       (Inr rs, Inr ds) \<Rightarrow> set (map origin (rs @ ds @ dk_loaded d 0)) \<subseteq> set (emissions demo_ser (\<lambda>v. None) demo_history)
     | _ \<Rightarrow> False)"
  by (rule records_are_emissions [OF demo_codec_ok]) (simp add: demo_history_def demo_stamp_def no_faults_def)

lemma emit_appends:
  assumes "codec_ok c" "f_spool fs = Some (file_of c rs)" "st_faults t = no_faults"
    and "length (file_of c (rs @ [new_record (st_spooled t) (st_id t) (event_payload ser env t e)])) \<le> MAX_SPOOL_BYTES"
  shows "f_spool (emit_event c ser env True t e fs) =
    Some (file_of c (rs @ [new_record (st_spooled t) (st_id t) (event_payload ser env t e)]))"
proof -
  have "\<not> MAX_SPOOL_BYTES < length (file_of c rs) + length (cd_ser c (new_record (st_spooled t) (st_id t) (event_payload ser env t e))) + 1"
    using assms(4) by (simp add: file_of_def)
  then show ?thesis
    by (simp add: emit_event_def enqueue_def append_record_bounded_def append_record_def assms(2,3) no_faults_def Let_def
        file_of_def)
qed

lemma emit_all_appends:
  assumes "codec_ok c" "f_spool fs = Some (file_of c rs)" "list_all (\<lambda>(t, e). st_faults t = no_faults) tes"
    and "length (file_of c (rs @ map (\<lambda>(t, e). new_record (st_spooled t) (st_id t) (event_payload ser env t e)) tes)) \<le> MAX_SPOOL_BYTES"
  shows "f_spool (emit_all c ser env True tes fs) =
    Some (file_of c (rs @ map (\<lambda>(t, e). new_record (st_spooled t) (st_id t) (event_payload ser env t e)) tes))"
  using assms(2-)
proof (induction tes arbitrary: fs rs)
  case (Cons te tes)
  obtain t e where te: "te = (t, e)" by (cases te)
  let ?r = "new_record (st_spooled t) (st_id t) (event_payload ser env t e)"
  have "f_spool (emit_event c ser env True t e fs) = Some (file_of c (rs @ [?r]))"
    using emit_appends [OF assms(1) Cons.prems(1)] Cons.prems(2,3) te by (simp add: file_of_def)
  from Cons.IH [OF this] Cons.prems(2,3) te show ?case by (simp add: emit_all_def)
qed (simp add: emit_all_def)


definition demo_change :: JsonRpcMessage where
  "demo_change = \<lparr>rpc_jsonrpc = Some ''2.0'', rpc_id = None, rpc_method = Some ''notifications/tools/list_changed'',
     rpc_params = None, rpc_result = None, rpc_error = None\<rparr>"

lemma demo_change_run:
  "run_proxy (demo_world\<lparr>pw_parse := \<lambda>l. Inr demo_change\<rparr>) [ServerSends ''n'' demo_io] (start_proxy demo_loaded) =
     (None, start_proxy demo_loaded, [ToAgent ''n''], [demo_event])"
proof -
  have "trim ''n'' \<noteq> []" by (simp add: trim_def str_defs)
  then show ?thesis
    by (simp add: server_step_def server_message_def answers_listing_def answers_inspection_def is_response_def
        demo_change_def list_changed_events_def demo_event_def unwrap_or_def)
qed



subsection \<open>Composition\<close>

text \<open>
  A drain is the history of loading and settling, with what others do to the files in between;
  without anything to post there is no time in between.
\<close>

lemma drain_is_load_then_settle:
  "let d1 = desk_step c parse ser env (Loads p ft) d;
       d2 = d1\<lparr>dk_files := (if dk_loaded d1 p = [] then dk_files d1 else between (dk_files d1))\<rparr>;
       d3 = desk_step c parse ser env (Settles p force now ts ft') d2
   in drain c parse ft ft' force now ts between (dk_files d) (dk_revocations d) = (dk_files d3, dk_revocations d3)"
proof (cases "case load_pending c ft (dk_files d) of Inr rs \<Rightarrow> rs | Inl e \<Rightarrow> []")
  case Nil
  then show ?thesis
    by (auto simp: drain_def no_outcome_def outcome_empty_def Let_def split: sum.splits)
next
  case (Cons r rs)
  then have l: "load_pending c ft (dk_files d) = Inr (r # rs)" by (auto split: sum.splits)
  obtain out rv where o: "drain_loop parse force now (r # rs) ts no_outcome (dk_revocations d) = (out, rv)" by fastforce
  show ?thesis by (cases out) (simp_all add: drain_def l o Let_def)
qed

text \<open>A listener without a credential leaves the files alone, whatever connects.\<close>

lemma listener_without_credential: "snd (listener c parse None incoming fs) = fs"
proof (induction c parse "None :: string option" incoming fs rule: listener.induct)
  case (3 c parse cn incoming fs)
  have "admin_authorized None auth \<noteq> Authorized" for auth by (simp add: admin_authorized_iff)
  then have "snd (handle_request c parse ft now None auth m raw path fs) = fs" for ft now auth m raw path
    using unauthorized_request by (metis snd_conv)
  then have "snd (handle_status_connection c parse ft now None ls fs) = fs" for ft now ls
    by (auto simp: handle_status_connection_def Let_def split_beta split: list.split sum.split)
  then obtain a where "handle_status_connection c parse (cn_faults cn) (cn_now cn) None (cn_lines cn) fs = (a, fs)"
    by (metis prod.collapse)
  with 3 show ?case by (simp add: split_beta)
qed simp_all

end
